theory Spec2Isabelle
  imports Complex_Main
begin

section \<open>JavaScript values, the heap and the host platform\<close>

text \<open>
  The telemetry collector exists twice in the repository: the class
  \<^verbatim>\<open>PerformanceMonitor\<close> (utils/performance) and the class
  \<^verbatim>\<open>MobilePerformanceMonitor\<close> (utils/mobilePerformance). Both keep their
  samples in a plain object \<^verbatim>\<open>this.metrics\<close> whose properties are numbers,
  nested objects or arrays of samples. Objects and arrays are shared by reference in
  JavaScript, so they live in an explicit heap and are named by their address.

  Numbers are IEEE doubles in the source; the finite ones are idealised as reals here,
  and the three non-finite ones are kept apart.
\<close>

type_synonym addr = nat

datatype jsnum = Fin real | NaN | PosInf | NegInf

text \<open>A value handed to a recording method (the \<^verbatim>\<open>value\<close> of a sample).\<close>

datatype jsval =
    Undefined
  | Number jsnum
  | Boolean bool
  | String string
  | Reference addr

text \<open>
  What the code assigns to a property of \<^verbatim>\<open>this.metrics\<close>: a number
  (\<^verbatim>\<open>this.metrics.lcp = lastEntry.startTime\<close>, \<^verbatim>\<open>this.metrics[name] = duration\<close>)
  or a reference to an object or array (\<^verbatim>\<open>this.metrics[name] = []\<close>,
  \<^verbatim>\<open>this.metrics.navigation = {...}\<close>). An absent property is \<open>None\<close>.
\<close>

datatype pval = PNum jsnum | PRef addr

record deviceInfo =
  isLowEnd :: bool
  isReducedMotion_info :: bool
  userAgent :: string
  platform :: string
  language :: string

text \<open>An entry of a layout-shift notification, and one of a resource notification.\<close>

record layout_shift =
  shift_value :: real
  hadRecentInput :: bool

record resource_timing =
  resource_name :: string
  initiatorType :: string
  duration :: jsval
  transferSize :: jsval

text \<open>
  The elements the code pushes onto its arrays: \<^verbatim>\<open>{value, timestamp}\<close> in
  \<^verbatim>\<open>reportMetric\<close>, \<^verbatim>\<open>{name, type, duration, size}\<close> in the resource observer,
  \<^verbatim>\<open>{name, value, timestamp, deviceInfo}\<close> in \<^verbatim>\<open>logMetric\<close>. An element is
  never changed after it has been pushed, so it is a value here.
\<close>

datatype element =
    Sample jsval int
  | ResourceEntry string string jsval jsval
  | Metric string jsval int deviceInfo

text \<open>
  A heap cell: an object used as a dictionary (\<^verbatim>\<open>this.metrics\<close> and its copies),
  given by its own properties, its prototype being \<^verbatim>\<open>Object.prototype\<close>; an
  array of elements; an object literal with fixed fields
  (\<^verbatim>\<open>this.metrics.network = { effectiveType: ..., ... }\<close>); or a dictionary whose
  prototype has been replaced by the object at an address.
\<close>

datatype hobj =
    HObj "string \<rightharpoonup> pval"
  | HArr "element list"
  | HRecord "(string \<times> jsval) list"
  | HObjProto addr "string \<rightharpoonup> pval"

text \<open>\<^verbatim>\<open>navigator.connection\<close>, where the host has it.\<close>

record connection =
  effectiveType :: string
  downlink :: jsval
  rtt :: jsval
  saveData :: jsval

datatype exn = TypeError | AbortError | OtherError

datatype message = ConsoleLog string | ConsoleWarn string

text \<open>A function of the host that the collector calls and that may throw.\<close>

datatype callable = Returns | Throws exn

text \<open>
  What \<^verbatim>\<open>fetch\<close> does when left alone: it resolves with an HTTP status or rejects,
  after so many milliseconds, or it never settles.
\<close>

datatype fetch_outcome = Resolves nat nat | Rejects nat exn | NeverSettles

record host =
  heap :: "hobj list"
  console :: "message list"
  date_now :: int
  perf_now :: real
  node_env :: string
  gtag :: "callable option"
  gtag_events :: "(string \<times> jsval) list"
  fetch_behaviour :: fetch_outcome
  posts :: "(string \<times> jsval) list"
  timeouts :: "(nat \<times> nat) list"
  intervals :: "(nat \<times> nat) list"
  next_handle :: nat
  has_PerformanceObserver :: bool
  observe_throws :: "string \<Rightarrow> bool"
  disconnect_throws :: "nat \<Rightarrow> bool"
  subscriptions :: "(nat \<times> string) list"
  has_memory :: bool
  has_performWork :: bool
  performWork_patched :: bool
  navigator_connection :: "connection option"
  has_getBattery :: bool
  battery_requests :: nat
  battery_level :: jsval
  battery_charging :: jsval
  has_IntersectionObserver :: bool
  listeners :: "string list"
  deviceMemory :: "real option"
  hardwareConcurrency :: "nat option"
  innerWidth :: nat
  prefers_reduced_motion :: bool
  navigator_userAgent :: string
  navigator_platform :: string
  navigator_language :: string

text \<open>The closures kept in \<^verbatim>\<open>this.cleanupFunctions\<close>.\<close>

datatype cleanup = RestorePerformWork | RemoveNetworkListener | RemoveBatteryListeners

text \<open>
  The fields both classes have. A state is the host together with the fields of the one
  instance (\<^verbatim>\<open>this\<close>); \<open>metrics\<close> is the address of the object
  \<^verbatim>\<open>this.metrics\<close>, \<open>observers\<close> holds the handles of the observers created.
\<close>

record monitor = host +
  metrics :: addr
  observers :: "nat list"
  cleanupFunctions :: "cleanup list"
  memoryCheckInterval :: "nat option"

record PerformanceMonitor = monitor +
  isInitialized :: bool
  frameRateMonitor :: "nat option"

record MobilePerformanceMonitor = monitor +
  isLowEndDevice :: bool
  isReducedMotion :: bool
  batteryCheckInterval :: "nat option"
  intersectionObserver :: "nat option"

subsection \<open>Heap access\<close>

definition lookup :: "hobj list \<Rightarrow> addr \<Rightarrow> hobj option" where
  "lookup h a = (if a < length h then Some (h ! a) else None)"

text \<open>\<^verbatim>\<open>{}\<close> and \<^verbatim>\<open>[]\<close> create a new object: the next free address.\<close>

definition alloc :: "hobj \<Rightarrow> 'a host_scheme \<Rightarrow> addr \<times> 'a host_scheme" where
  "alloc x w = (length (heap w), w\<lparr>heap := heap w @ [x]\<rparr>)"

text \<open>The own properties of the object at an address (none when it is not an object).\<close>

definition props :: "addr \<Rightarrow> 'a host_scheme \<Rightarrow> (string \<rightharpoonup> pval)" where
  "props a w =
     (case lookup (heap w) a of
        Some (HObj ps) \<Rightarrow> ps
      | Some (HObjProto b ps) \<Rightarrow> ps
      | _ \<Rightarrow> Map.empty)"

text \<open>
  The properties every object inherits from \<^verbatim>\<open>Object.prototype\<close>: eleven
  functions, and the accessor \<^verbatim>\<open>__proto__\<close>.
\<close>

definition proto_names :: "string list" where
  "proto_names =
     [''constructor'', ''__defineGetter__'', ''__defineSetter__'', ''hasOwnProperty'',
      ''__lookupGetter__'', ''__lookupSetter__'', ''isPrototypeOf'', ''propertyIsEnumerable'',
      ''toString'', ''valueOf'', ''__proto__'', ''toLocaleString'']"

text \<open>
  \<^verbatim>\<open>obj[key]\<close> on a dictionary with the own properties \<open>ps\<close> is read from
  \<^verbatim>\<open>Object.prototype\<close> when \<open>key\<close> is no own property and is one of its
  names. What is read then is a function (or, for \<^verbatim>\<open>__proto__\<close>, the prototype
  itself): a truthy value that is no array, whose \<^verbatim>\<open>length\<close> is a small number
  or \<^verbatim>\<open>undefined\<close> and whose \<^verbatim>\<open>push\<close> is \<^verbatim>\<open>undefined\<close>. The keys
  that the two classes write by themselves (\<^verbatim>\<open>lcp\<close>, \<^verbatim>\<open>fid\<close>,
  \<^verbatim>\<open>cls\<close>, \<^verbatim>\<open>resources\<close>, \<^verbatim>\<open>network\<close>, ...) are none of these
  names, so they are read as own properties; the names given by a caller of
  \<^verbatim>\<open>reportMetric\<close>, \<^verbatim>\<open>logMetric\<close> and \<^verbatim>\<open>measure\<close> can be any.
\<close>

definition inherits :: "(string \<rightharpoonup> pval) \<Rightarrow> string \<Rightarrow> bool" where
  "inherits ps k = (ps k = None \<and> k \<in> set proto_names)"

text \<open>
  \<^verbatim>\<open>obj[key] = v\<close> on the object at an address. An inherited function is
  shadowed by the new own property. The key \<^verbatim>\<open>__proto__\<close>, when it is no own
  property, goes to the inherited setter: a number is ignored, an object becomes the
  prototype.
\<close>

definition set_prop :: "addr \<Rightarrow> string \<Rightarrow> pval \<Rightarrow> 'a host_scheme \<Rightarrow> 'a host_scheme" where
  "set_prop a k v w =
     (case lookup (heap w) a of
        Some (HObj ps) \<Rightarrow>
          (if k = ''__proto__'' \<and> ps k = None
           then (case v of
                   PNum n \<Rightarrow> w
                 | PRef b \<Rightarrow> w\<lparr>heap := (heap w)[a := HObjProto b ps]\<rparr>)
           else w\<lparr>heap := (heap w)[a := HObj (ps(k \<mapsto> v))]\<rparr>)
      | _ \<Rightarrow> w)"

text \<open>The array at an address (\<open>None\<close> when there is no array there).\<close>

definition array_at :: "addr \<Rightarrow> 'a host_scheme \<Rightarrow> element list option" where
  "array_at a w = (case lookup (heap w) a of Some (HArr xs) \<Rightarrow> Some xs | _ \<Rightarrow> None)"

definition console_warn :: "string \<Rightarrow> 'a host_scheme \<Rightarrow> 'a host_scheme" where
  "console_warn s w = w\<lparr>console := console w @ [ConsoleWarn s]\<rparr>"

definition console_log :: "string \<Rightarrow> 'a host_scheme \<Rightarrow> 'a host_scheme" where
  "console_log s w = w\<lparr>console := console w @ [ConsoleLog s]\<rparr>"

text \<open>JavaScript truthiness of a property read (\<open>None\<close> is \<^verbatim>\<open>undefined\<close>).\<close>

fun truthy :: "pval option \<Rightarrow> bool" where
  "truthy None = False"
| "truthy (Some (PNum (Fin r))) = (r \<noteq> 0)"
| "truthy (Some (PNum NaN)) = False"
| "truthy (Some (PNum PosInf)) = True"
| "truthy (Some (PNum NegInf)) = True"
| "truthy (Some (PRef a)) = True"

text \<open>
  The wellformed states: \<^verbatim>\<open>this.metrics\<close> is an object whose prototype is
  \<^verbatim>\<open>Object.prototype\<close>, as the constructors create it.
\<close>

definition metrics_ok :: "'a monitor_scheme \<Rightarrow> bool" where
  "metrics_ok w = (case lookup (heap w) (metrics w) of Some (HObj ps) \<Rightarrow> True | _ \<Rightarrow> False)"

section \<open>The scorer of MobilePerformanceMonitor\<close>

text \<open>\<^verbatim>\<open>this.metrics.lcp || 0\<close>.\<close>

definition or_zero :: "pval option \<Rightarrow> pval" where
  "or_zero p = (case p of Some v \<Rightarrow> (if truthy p then v else PNum (Fin 0)) | None \<Rightarrow> PNum (Fin 0))"

text \<open>
  \<^verbatim>\<open>x <= c\<close> for a number \<open>c\<close>. A reference is converted to a number through its
  string: the empty array gives \<^verbatim>\<open>""\<close> and so 0; an array with elements and any
  other object give a string that is no number, so \<^verbatim>\<open>NaN\<close>, and every comparison
  with \<^verbatim>\<open>NaN\<close> is false.
\<close>

definition js_le :: "pval \<Rightarrow> real \<Rightarrow> 'a host_scheme \<Rightarrow> bool" where
  "js_le x c w =
     (case x of
        PNum (Fin r) \<Rightarrow> r \<le> c
      | PNum NaN \<Rightarrow> False
      | PNum PosInf \<Rightarrow> False
      | PNum NegInf \<Rightarrow> True
      | PRef a \<Rightarrow> (case lookup (heap w) a of Some (HArr []) \<Rightarrow> 0 \<le> c | _ \<Rightarrow> False))"

definition getLCPScore :: "MobilePerformanceMonitor \<Rightarrow> int" where
  "getLCPScore w =
     (let lcp = or_zero (props (metrics w) w ''lcp'')
      in if js_le lcp 2500 w then 100
         else if js_le lcp 4000 w then 75
         else if js_le lcp 6000 w then 50
         else 25)"

definition getFIDScore :: "MobilePerformanceMonitor \<Rightarrow> int" where
  "getFIDScore w =
     (let fid = or_zero (props (metrics w) w ''fid'')
      in if js_le fid 100 w then 100
         else if js_le fid 300 w then 75
         else if js_le fid 500 w then 50
         else 25)"

definition getCLSScore :: "MobilePerformanceMonitor \<Rightarrow> int" where
  "getCLSScore w =
     (let cls = or_zero (props (metrics w) w ''cls'')
      in if js_le cls (1 / 10) w then 100
         else if js_le cls (1 / 4) w then 75
         else if js_le cls (1 / 2) w then 50
         else 25)"

record scores =
  lcp :: int
  fid :: int
  cls :: int

definition getRecommendations :: "scores \<Rightarrow> MobilePerformanceMonitor \<Rightarrow> string list" where
  "getRecommendations s w =
     (if lcp s < 75 then [''Optimize images and reduce render-blocking resources''] else [])
     @ (if fid s < 75 then [''Reduce JavaScript execution time and break up long tasks''] else [])
     @ (if cls s < 75 then [''Fix layout shifts by reserving space for dynamic content''] else [])
     @ (if isLowEndDevice w
        then [''Consider implementing progressive enhancement for low-end devices''] else [])"

record performanceScore = scores +
  overall :: int
  isLowEndDevice_score :: bool
  recommendations :: "string list"

text \<open>
  \<^verbatim>\<open>Object.values(scores).reduce((a, b) => a + b, 0) / Object.keys(scores).length\<close>:
  the object \<^verbatim>\<open>scores\<close> always has its three keys. \<^verbatim>\<open>Math.round\<close> rounds
  halves up, as \<open>round\<close> does.
\<close>

definition getPerformanceScore :: "MobilePerformanceMonitor \<Rightarrow> performanceScore" where
  "getPerformanceScore w =
     (let s = \<lparr>lcp = getLCPScore w, fid = getFIDScore w, cls = getCLSScore w\<rparr>;
          averageScore = real_of_int (0 + lcp s + fid s + cls s) / 3
      in \<lparr>lcp = lcp s, fid = fid s, cls = cls s,
          overall = round averageScore,
          isLowEndDevice_score = isLowEndDevice w,
          recommendations = getRecommendations s w\<rparr>)"

section \<open>Exceptions and try/catch\<close>

text \<open>
  A method that may throw returns the exception (\<open>None\<close> when it returns normally)
  and the state it leaves behind: what was mutated before a \<^verbatim>\<open>throw\<close> stays
  mutated.
\<close>

type_synonym 's outcome = "exn option \<times> 's"

text \<open>\<^verbatim>\<open>try { body } catch (error) { handler }\<close> with a handler that does not throw.\<close>

definition try_catch :: "('s \<Rightarrow> 's outcome) \<Rightarrow> (exn \<Rightarrow> 's \<Rightarrow> 's) \<Rightarrow> 's \<Rightarrow> 's" where
  "try_catch body handler w =
     (case body w of (None, w') \<Rightarrow> w' | (Some e, w') \<Rightarrow> handler e w')"

text \<open>Two statements in sequence: the second does not run when the first throws.\<close>

definition and_then :: "('s \<Rightarrow> 's outcome) \<Rightarrow> ('s \<Rightarrow> 's outcome) \<Rightarrow> 's \<Rightarrow> 's outcome" where
  "and_then f g w = (case f w of (None, w') \<Rightarrow> g w' | (Some e, w') \<Rightarrow> (Some e, w'))"

section \<open>PerformanceMonitor\<close>

subsection \<open>The reporter: sendToAnalytics\<close>

definition remove_handle :: "nat \<Rightarrow> (nat \<times> nat) list \<Rightarrow> (nat \<times> nat) list" where
  "remove_handle h ts = filter (\<lambda>(i, d). i \<noteq> h) ts"

text \<open>
  The body of the \<^verbatim>\<open>try\<close> in \<^verbatim>\<open>sendToAnalytics\<close>:
  \<^verbatim>\<open>setTimeout(() => controller.abort(), 5000)\<close>, then \<^verbatim>\<open>await fetch(...)\<close>
  with the controller's signal, then \<^verbatim>\<open>clearTimeout(timeoutId)\<close>. A fetch that
  has not settled when the timer runs is aborted and rejects with an
  \<^verbatim>\<open>AbortError\<close>; a fetch that rejects earlier leaves the timer pending (nothing
  clears it). The continuation after \<^verbatim>\<open>await\<close> runs later than the call, but it
  touches only the timer and the console, so the whole delivery is one step here.
\<close>

definition sendToAnalytics_try :: "string \<Rightarrow> jsval \<Rightarrow> 'a host_scheme \<Rightarrow> 'a host_scheme outcome" where
  "sendToAnalytics_try name val w0 =
     (let timeoutId = next_handle w0;
          w1 = w0\<lparr>timeouts := timeouts w0 @ [(timeoutId, 5000)], next_handle := next_handle w0 + 1\<rparr>;
          w2 = w1\<lparr>posts := posts w1 @ [(name, val)]\<rparr>;
          aborted = (Some AbortError, w2\<lparr>timeouts := remove_handle timeoutId (timeouts w2)\<rparr>)
      in case fetch_behaviour w2 of
           Resolves t status \<Rightarrow>
             if t < 5000 then (None, w2\<lparr>timeouts := remove_handle timeoutId (timeouts w2)\<rparr>)
             else aborted
         | Rejects t e \<Rightarrow> if t < 5000 then (Some e, w2) else aborted
         | NeverSettles \<Rightarrow> aborted)"

text \<open>
  \<^verbatim>\<open>catch (error) { if (error.name !== 'AbortError') console.warn(...) }\<close>. The
  component \<open>None\<close> of the result says that the promise of this
  \<^verbatim>\<open>async\<close> method is never rejected.
\<close>

definition sendToAnalytics :: "string \<Rightarrow> jsval \<Rightarrow> 'a host_scheme \<Rightarrow> 'a host_scheme outcome" where
  "sendToAnalytics name val w =
     (None, try_catch (sendToAnalytics_try name val)
              (\<lambda>e w'. if e \<noteq> AbortError then console_warn ''Failed to send performance data:'' w' else w') w)"

subsection \<open>The metric store: reportMetric\<close>

text \<open>
  The body of the \<^verbatim>\<open>try\<close> in \<^verbatim>\<open>reportMetric\<close>. When
  \<^verbatim>\<open>this.metrics[name]\<close> is read from \<^verbatim>\<open>Object.prototype\<close>, or holds a
  number that is truthy, or an object that is no array, then the test
  \<^verbatim>\<open>!this.metrics[name]\<close> and the test \<^verbatim>\<open>.length >= 100\<close> are false and
  \<^verbatim>\<open>.push\<close> is not a function: the call throws a \<^verbatim>\<open>TypeError\<close> before
  anything was changed. The delivery is asynchronous: what it writes to the console
  comes after the development log of this method.
\<close>

definition reportMetric_try :: "string \<Rightarrow> jsval \<Rightarrow> PerformanceMonitor \<Rightarrow> PerformanceMonitor outcome" where
  "reportMetric_try name val w0 =
     (if inherits (props (metrics w0) w0) name then (Some TypeError, w0)
      else
       (let w1 = (if \<not> truthy (props (metrics w0) w0 name)
                  then (case alloc (HArr []) w0 of (a, w) \<Rightarrow> set_prop (metrics w) name (PRef a) w)
                  else w0)
        in case props (metrics w1) w1 name of
             Some (PRef a) \<Rightarrow>
               (case array_at a w1 of
                  Some xs \<Rightarrow>
                    (let xs1 = (if length xs \<ge> 100 then tl xs else xs);
                         w2 = w1\<lparr>heap := (heap w1)[a := HArr (xs1 @ [Sample val (date_now w1)])]\<rparr>
                     in case gtag w2 of
                          Some (Throws e) \<Rightarrow> (Some e, w2)
                        | g \<Rightarrow>
                            (let w3 = (if g = Some Returns
                                       then w2\<lparr>gtag_events := gtag_events w2 @ [(name, val)]\<rparr> else w2);
                                 w4 = (if node_env w3 = ''development''
                                       then console_log (''Performance Metric - '' @ name @ '':'') w3 else w3);
                                 w5 = snd (sendToAnalytics name val w4)
                             in (None, w5)))
                | None \<Rightarrow> (Some TypeError, w1))
           | _ \<Rightarrow> (Some TypeError, w1)))"

definition reportMetric :: "string \<Rightarrow> jsval \<Rightarrow> PerformanceMonitor \<Rightarrow> PerformanceMonitor outcome" where
  "reportMetric name val w =
     (None, try_catch (reportMetric_try name val)
              (\<lambda>e. console_warn ''Failed to report metric:'') w)"

text \<open>\<^verbatim>\<open>return { ...this.metrics }\<close>: a new object with the same properties.\<close>

definition getMetrics :: "PerformanceMonitor \<Rightarrow> addr \<times> PerformanceMonitor" where
  "getMetrics w = alloc (HObj (props (metrics w) w)) w"

text \<open>
  \<^verbatim>\<open>measure(name, fn)\<close>: \<open>fn\<close> is any code of the caller, a function of the
  state that returns a result or throws; the clock \<^verbatim>\<open>performance.now()\<close> is read
  before and after. \<^verbatim>\<open>measureAsync\<close> awaits \<open>fn\<close> and is the same otherwise.
\<close>

definition measure_fn ::
  "string \<Rightarrow> (PerformanceMonitor \<Rightarrow> (exn + 'r) \<times> PerformanceMonitor) \<Rightarrow> PerformanceMonitor
     \<Rightarrow> (exn + 'r) \<times> PerformanceMonitor" where
  "measure_fn name fn w0 =
     (let start = perf_now w0
      in case fn w0 of
           (Inl e, w1) \<Rightarrow> (Inl e, w1)
         | (Inr result, w1) \<Rightarrow>
             (let duration = perf_now w1 - start;
                  w2 = set_prop (metrics w1) name (PNum (Fin duration)) w1;
                  w3 = snd (reportMetric name (Number (Fin duration)) w2)
              in (Inr result, w3)))"

definition measureAsync ::
  "string \<Rightarrow> (PerformanceMonitor \<Rightarrow> (exn + 'r) \<times> PerformanceMonitor) \<Rightarrow> PerformanceMonitor
     \<Rightarrow> (exn + 'r) \<times> PerformanceMonitor" where
  "measureAsync name fn w0 =
     (let start = perf_now w0
      in case fn w0 of
           (Inl e, w1) \<Rightarrow> (Inl e, w1)
         | (Inr result, w1) \<Rightarrow>
             (let duration = perf_now w1 - start;
                  w2 = set_prop (metrics w1) name (PNum (Fin duration)) w1;
                  w3 = snd (reportMetric name (Number (Fin duration)) w2)
              in (Inr result, w3)))"

subsection \<open>Construction, init and destroy\<close>

text \<open>\<^verbatim>\<open>new PerformanceMonitor()\<close> on a host.\<close>

definition new_PerformanceMonitor :: "host \<Rightarrow> PerformanceMonitor" where
  "new_PerformanceMonitor h =
     (case alloc (HObj Map.empty) h of
        (a, h') \<Rightarrow>
          monitor.extend (host.extend h' (monitor.fields a [] [] None))
            (PerformanceMonitor.fields False None))"

text \<open>
  \<^verbatim>\<open>const o = new PerformanceObserver(callback); o.observe({ entryTypes: [t] });
  this.observers.push(o)\<close>: \<^verbatim>\<open>observe\<close> may throw, and then the observer is
  not pushed.
\<close>

definition observe_push :: "string \<Rightarrow> 'a monitor_scheme \<Rightarrow> 'a monitor_scheme outcome" where
  "observe_push t w =
     (let h = next_handle w;
          w1 = w\<lparr>next_handle := h + 1\<rparr>
      in if observe_throws w1 t then (Some OtherError, w1)
         else (None, w1\<lparr>subscriptions := subscriptions w1 @ [(h, t)],
                         observers := observers w1 @ [h]\<rparr>))"

definition setupWebVitals :: "PerformanceMonitor \<Rightarrow> PerformanceMonitor" where
  "setupWebVitals w =
     (if has_PerformanceObserver w
      then (let w1 = try_catch (observe_push ''largest-contentful-paint'')
                       (\<lambda>e. console_warn ''LCP monitoring failed:'') w;
                w2 = try_catch (observe_push ''first-input'')
                       (\<lambda>e. console_warn ''FID monitoring failed:'') w1
            in try_catch (observe_push ''layout-shift'')
                 (\<lambda>e. console_warn ''CLS monitoring failed:'') w2)
      else w)"

definition setupPerformanceObserver :: "PerformanceMonitor \<Rightarrow> PerformanceMonitor" where
  "setupPerformanceObserver w =
     (if has_PerformanceObserver w
      then try_catch (and_then (observe_push ''navigation'') (observe_push ''paint''))
             (\<lambda>e. console_warn ''Performance observer setup failed:'') w
      else w)"

definition setupResourceTiming :: "PerformanceMonitor \<Rightarrow> PerformanceMonitor" where
  "setupResourceTiming w =
     (if has_PerformanceObserver w
      then try_catch (observe_push ''resource'')
             (\<lambda>e. console_warn ''Resource timing monitoring failed:'') w
      else w)"

text \<open>
  \<^verbatim>\<open>setupUserTiming\<close> and \<^verbatim>\<open>monitorReactPerformance\<close>: when React's
  internals offer \<^verbatim>\<open>Reconciler.performWork\<close> it is wrapped, and the closure that
  restores it is kept.
\<close>

definition setupUserTiming :: "PerformanceMonitor \<Rightarrow> PerformanceMonitor" where
  "setupUserTiming w =
     (if has_performWork w
      then w\<lparr>performWork_patched := True,
             cleanupFunctions := cleanupFunctions w @ [RestorePerformWork]\<rparr>
      else w)"

definition setupMemoryMonitoring :: "PerformanceMonitor \<Rightarrow> PerformanceMonitor" where
  "setupMemoryMonitoring w =
     (if has_memory w
      then (let h = next_handle w
            in w\<lparr>next_handle := h + 1, intervals := intervals w @ [(h, 30000)],
                 memoryCheckInterval := Some h\<rparr>)
      else w)"

text \<open>
  The body of the \<^verbatim>\<open>try\<close> in \<^verbatim>\<open>init\<close>. Each of the five setup methods
  catches what its own calls throw, so none of them throws.
\<close>

definition init_try :: "PerformanceMonitor \<Rightarrow> PerformanceMonitor outcome" where
  "init_try w =
     (let w1 = setupWebVitals w;
          w2 = setupPerformanceObserver w1;
          w3 = setupResourceTiming w2;
          w4 = setupUserTiming w3;
          w5 = setupMemoryMonitoring w4;
          w6 = w5\<lparr>isInitialized := True\<rparr>
      in (None, if node_env w6 = ''development''
                then console_log ''Performance monitoring initialized'' w6 else w6))"

definition init :: "PerformanceMonitor \<Rightarrow> PerformanceMonitor outcome" where
  "init w =
     (if isInitialized w then (None, w)
      else (None, try_catch init_try
                    (\<lambda>e. console_warn ''Performance monitoring initialization failed:'') w))"

text \<open>\<^verbatim>\<open>observer.disconnect()\<close>, which the host may let throw.\<close>

definition disconnect :: "nat \<Rightarrow> 'a host_scheme \<Rightarrow> 'a host_scheme outcome" where
  "disconnect h w =
     (if disconnect_throws w h then (Some OtherError, w)
      else (None, w\<lparr>subscriptions := filter (\<lambda>(i, t). i \<noteq> h) (subscriptions w)\<rparr>))"

text \<open>\<^verbatim>\<open>this.observers.forEach(observer => { try { ... } catch (error) { ... } })\<close>.\<close>

fun disconnect_all :: "nat list \<Rightarrow> 'a host_scheme \<Rightarrow> 'a host_scheme" where
  "disconnect_all [] w = w"
| "disconnect_all (h # hs) w =
     disconnect_all hs
       (try_catch (disconnect h) (\<lambda>e. console_warn ''Failed to disconnect observer:'') w)"

text \<open>
  \<^verbatim>\<open>if (this.memoryCheckInterval) { clearInterval(...); this.memoryCheckInterval = null }\<close>;
  a handle that is 0 is falsy.
\<close>

definition clear_memoryCheckInterval :: "'a monitor_scheme \<Rightarrow> 'a monitor_scheme" where
  "clear_memoryCheckInterval w =
     (case memoryCheckInterval w of
        Some h \<Rightarrow>
          (if h \<noteq> 0
           then w\<lparr>intervals := remove_handle h (intervals w), memoryCheckInterval := None\<rparr>
           else w)
      | None \<Rightarrow> w)"

text \<open>What a cleanup closure does when it is called.\<close>

fun run_cleanup :: "cleanup \<Rightarrow> 'a host_scheme \<Rightarrow> 'a host_scheme outcome" where
  "run_cleanup RestorePerformWork w = (None, w\<lparr>performWork_patched := False\<rparr>)"
| "run_cleanup RemoveNetworkListener w = (None, w\<lparr>listeners := remove1 ''change'' (listeners w)\<rparr>)"
| "run_cleanup RemoveBatteryListeners w =
     (None, w\<lparr>listeners := remove1 ''chargingchange'' (remove1 ''levelchange'' (listeners w))\<rparr>)"

fun run_cleanups :: "cleanup list \<Rightarrow> 'a host_scheme \<Rightarrow> 'a host_scheme" where
  "run_cleanups [] w = w"
| "run_cleanups (c # cs) w =
     run_cleanups cs
       (try_catch (run_cleanup c) (\<lambda>e. console_warn ''Failed to execute cleanup function:'') w)"

definition destroy :: "PerformanceMonitor \<Rightarrow> PerformanceMonitor outcome" where
  "destroy w =
     (let w1 = disconnect_all (observers w) w;
          w2 = clear_memoryCheckInterval w1;
          w3 = (case frameRateMonitor w2 of
                  Some h \<Rightarrow> (if h \<noteq> 0 then w2\<lparr>frameRateMonitor := None\<rparr> else w2)
                | None \<Rightarrow> w2);
          w4 = run_cleanups (cleanupFunctions w3) w3;
          w5 = w4\<lparr>observers := [], cleanupFunctions := []\<rparr>;
          w6 = (case alloc (HObj Map.empty) w5 of (a, w') \<Rightarrow> w'\<lparr>metrics := a\<rparr>);
          w7 = w6\<lparr>isInitialized := False\<rparr>
      in (None, if node_env w7 = ''development''
                then console_log ''Performance monitoring destroyed and cleaned up'' w7 else w7))"

subsection \<open>Observer callbacks\<close>

text \<open>
  The layout-shift callback of \<^verbatim>\<open>setupWebVitals\<close>. The variable
  \<^verbatim>\<open>clsValue\<close> is captured by the closure: it is passed in and handed back.
\<close>

fun cls_callback :: "layout_shift list \<Rightarrow> real \<Rightarrow> PerformanceMonitor \<Rightarrow> real \<times> PerformanceMonitor" where
  "cls_callback [] clsValue w = (clsValue, w)"
| "cls_callback (entry # entries) clsValue w =
     (if \<not> hadRecentInput entry
      then (let clsValue' = clsValue + shift_value entry;
                w1 = set_prop (metrics w) ''cls'' (PNum (Fin clsValue')) w;
                w2 = snd (reportMetric ''CLS'' (Number (Fin clsValue')) w1)
            in cls_callback entries clsValue' w2)
      else cls_callback entries clsValue w)"

text \<open>\<^verbatim>\<open>entry.transferSize || 0\<close>.\<close>

fun or_zero_val :: "jsval \<Rightarrow> jsval" where
  "or_zero_val Undefined = Number (Fin 0)"
| "or_zero_val (Number (Fin r)) = Number (Fin r)"
| "or_zero_val (Number NaN) = Number (Fin 0)"
| "or_zero_val (Number PosInf) = Number PosInf"
| "or_zero_val (Number NegInf) = Number NegInf"
| "or_zero_val (Boolean b) = (if b then Boolean b else Number (Fin 0))"
| "or_zero_val (String s) = (if s = [] then Number (Fin 0) else String s)"
| "or_zero_val (Reference a) = Reference a"

text \<open>
  The resource callback of \<^verbatim>\<open>setupResourceTiming\<close>, one entry at a time. It has
  no \<^verbatim>\<open>try\<close>: pushing onto a property that is no array throws.
\<close>

text \<open>The object pushed for an entry.\<close>

definition resource_element :: "resource_timing \<Rightarrow> element" where
  "resource_element entry =
     ResourceEntry (resource_name entry) (initiatorType entry) (duration entry)
       (or_zero_val (transferSize entry))"

definition resource_entry :: "resource_timing \<Rightarrow> PerformanceMonitor \<Rightarrow> PerformanceMonitor outcome" where
  "resource_entry entry w0 =
     (if initiatorType entry = ''img'' \<or> initiatorType entry = ''video''
      then (let w1 = (if \<not> truthy (props (metrics w0) w0 ''resources'')
                      then (case alloc (HArr []) w0 of
                              (a, w) \<Rightarrow> set_prop (metrics w) ''resources'' (PRef a) w)
                      else w0)
            in case props (metrics w1) w1 ''resources'' of
                 Some (PRef a) \<Rightarrow>
                   (case array_at a w1 of
                      Some xs \<Rightarrow>
                        (let xs1 = (if length xs \<ge> 50 then tl xs else xs)
                         in (None, w1\<lparr>heap := (heap w1)[a := HArr (xs1 @ [resource_element entry])]\<rparr>))
                    | None \<Rightarrow> (Some TypeError, w1))
               | _ \<Rightarrow> (Some TypeError, w1))
      else (None, w0))"

fun resource_callback :: "resource_timing list \<Rightarrow> PerformanceMonitor \<Rightarrow> PerformanceMonitor outcome" where
  "resource_callback [] w = (None, w)"
| "resource_callback (entry # entries) w =
     and_then (resource_entry entry) (resource_callback entries) w"

section \<open>MobilePerformanceMonitor\<close>

definition detectLowEndDevice :: "host \<Rightarrow> bool" where
  "detectLowEndDevice h =
     (let hasLowMemory = (case deviceMemory h of Some m \<Rightarrow> m \<noteq> 0 \<and> m \<le> 4 | None \<Rightarrow> False);
          hasLowCPU = (case hardwareConcurrency h of Some c \<Rightarrow> c \<noteq> 0 \<and> c \<le> 4 | None \<Rightarrow> False);
          hasSlowConnection =
            (case navigator_connection h of
               Some c \<Rightarrow> effectiveType c = ''slow-2g'' \<or> effectiveType c = ''2g''
                           \<or> effectiveType c = ''3g''
             | None \<Rightarrow> False);
          hasSmallScreen = (innerWidth h \<le> 768)
      in hasLowMemory \<or> hasLowCPU \<or> hasSlowConnection \<or> hasSmallScreen)"

definition detectReducedMotion :: "host \<Rightarrow> bool" where
  "detectReducedMotion h = prefers_reduced_motion h"

text \<open>The three \<^verbatim>\<open>try\<close> blocks of \<^verbatim>\<open>setupPerformanceObserver\<close>.\<close>

definition Mobile_setupPerformanceObserver :: "MobilePerformanceMonitor \<Rightarrow> MobilePerformanceMonitor" where
  "Mobile_setupPerformanceObserver w =
     (if has_PerformanceObserver w
      then (let w1 = try_catch (observe_push ''largest-contentful-paint'')
                       (\<lambda>e. console_warn ''LCP observer not supported:'') w;
                w2 = try_catch (observe_push ''first-input'')
                       (\<lambda>e. console_warn ''FID observer not supported:'') w1
            in try_catch (observe_push ''layout-shift'')
                 (\<lambda>e. console_warn ''CLS observer not supported:'') w2)
      else w)"

definition network_object :: "connection \<Rightarrow> hobj" where
  "network_object c =
     HRecord [(''effectiveType'', String (effectiveType c)), (''downlink'', downlink c),
              (''rtt'', rtt c), (''saveData'', saveData c)]"

definition setupNetworkObserver :: "MobilePerformanceMonitor \<Rightarrow> MobilePerformanceMonitor" where
  "setupNetworkObserver w =
     (case navigator_connection w of
        Some c \<Rightarrow>
          (case alloc (network_object c) w of
             (a, w1) \<Rightarrow>
               (let w2 = set_prop (metrics w1) ''network'' (PRef a) w1
                in w2\<lparr>listeners := listeners w2 @ [''change''],
                       cleanupFunctions := cleanupFunctions w2 @ [RemoveNetworkListener]\<rparr>))
      | None \<Rightarrow> w)"

text \<open>
  \<^verbatim>\<open>setupBatteryObserver\<close> only asks for the battery:
  \<^verbatim>\<open>navigator.getBattery().then(battery => ...)\<close>. The host counts the requests
  it has not answered yet. The callback runs after \<^verbatim>\<open>init\<close> has returned, when
  the promise resolves; it is \<open>battery_resolved\<close>.
\<close>

definition setupBatteryObserver :: "MobilePerformanceMonitor \<Rightarrow> MobilePerformanceMonitor" where
  "setupBatteryObserver w =
     (if has_getBattery w then w\<lparr>battery_requests := battery_requests w + 1\<rparr> else w)"

definition battery_resolved :: "MobilePerformanceMonitor \<Rightarrow> MobilePerformanceMonitor" where
  "battery_resolved w =
     (if battery_requests w = 0 then w
      else
        (case alloc (HRecord [(''level'', battery_level w), (''charging'', battery_charging w)])
                (w\<lparr>battery_requests := battery_requests w - 1\<rparr>) of
           (a, w1) \<Rightarrow>
             (let w2 = set_prop (metrics w1) ''battery'' (PRef a) w1
              in w2\<lparr>listeners := listeners w2 @ [''levelchange'', ''chargingchange''],
                     cleanupFunctions := cleanupFunctions w2 @ [RemoveBatteryListeners]\<rparr>)))"

definition setupMemoryObserver :: "MobilePerformanceMonitor \<Rightarrow> MobilePerformanceMonitor" where
  "setupMemoryObserver w =
     (if has_memory w
      then (let h = next_handle w
            in w\<lparr>next_handle := h + 1, intervals := intervals w @ [(h, 30000)],
                 memoryCheckInterval := Some h\<rparr>)
      else w)"

definition setupIntersectionObserver :: "MobilePerformanceMonitor \<Rightarrow> MobilePerformanceMonitor" where
  "setupIntersectionObserver w =
     (if has_IntersectionObserver w
      then (let h = next_handle w
            in w\<lparr>next_handle := h + 1, intersectionObserver := Some h\<rparr>)
      else w)"

text \<open>\<^verbatim>\<open>init\<close> has no guard: it sets everything up whenever it is called.\<close>

definition Mobile_init :: "MobilePerformanceMonitor \<Rightarrow> MobilePerformanceMonitor outcome" where
  "Mobile_init w =
     (let w1 = Mobile_setupPerformanceObserver w;
          w2 = setupNetworkObserver w1;
          w3 = setupBatteryObserver w2;
          w4 = setupMemoryObserver w3
      in (None, setupIntersectionObserver w4))"

text \<open>
  \<^verbatim>\<open>new MobilePerformanceMonitor()\<close>: the constructor assigns the fields and
  calls \<^verbatim>\<open>init\<close>.
\<close>

definition Mobile_fields :: "host \<Rightarrow> MobilePerformanceMonitor" where
  "Mobile_fields h =
     (case alloc (HObj Map.empty) h of
        (a, h') \<Rightarrow>
          monitor.extend (host.extend h' (monitor.fields a [] [] None))
            (MobilePerformanceMonitor.fields (detectLowEndDevice h') (detectReducedMotion h')
               None None))"

definition new_MobilePerformanceMonitor :: "host \<Rightarrow> MobilePerformanceMonitor" where
  "new_MobilePerformanceMonitor h = snd (Mobile_init (Mobile_fields h))"

text \<open>\<^verbatim>\<open>sendToAnalytics(metric)\<close> of this class: \<^verbatim>\<open>gtag\<close> inside a \<^verbatim>\<open>try\<close>.\<close>

definition Mobile_sendToAnalytics :: "string \<Rightarrow> jsval \<Rightarrow> 'a host_scheme \<Rightarrow> 'a host_scheme" where
  "Mobile_sendToAnalytics name val w =
     try_catch
       (\<lambda>w. case gtag w of
               None \<Rightarrow> (None, w)
             | Some Returns \<Rightarrow> (None, w\<lparr>gtag_events := gtag_events w @ [(name, val)]\<rparr>)
             | Some (Throws e) \<Rightarrow> (Some e, w))
       (\<lambda>e. console_warn ''Failed to send metric to analytics:'') w"

text \<open>
  \<^verbatim>\<open>logMetric\<close> has no \<^verbatim>\<open>try\<close>: the \<^verbatim>\<open>TypeError\<close> of a push onto
  what is no array (an inherited function, a number, an object) reaches the caller.
  The call of
  \<^verbatim>\<open>checkPerformanceWarnings\<close> at its end builds a list that is dropped and writes
  to the console in development only; it is left out.
\<close>

definition this_deviceInfo :: "MobilePerformanceMonitor \<Rightarrow> deviceInfo" where
  "this_deviceInfo w =
     \<lparr>isLowEnd = isLowEndDevice w, isReducedMotion_info = isReducedMotion w,
      userAgent = navigator_userAgent w, platform = navigator_platform w,
      language = navigator_language w\<rparr>"

definition logMetric :: "string \<Rightarrow> jsval \<Rightarrow> MobilePerformanceMonitor \<Rightarrow> MobilePerformanceMonitor outcome" where
  "logMetric name val w0 =
     (let timestamp = date_now w0;
          metric = Metric name val timestamp (this_deviceInfo w0)
      in if inherits (props (metrics w0) w0) name then (Some TypeError, w0)
         else
          (let w1 = (if \<not> truthy (props (metrics w0) w0 name)
                     then (case alloc (HArr []) w0 of
                             (a, w) \<Rightarrow> set_prop (metrics w) name (PRef a) w)
                     else w0)
           in case props (metrics w1) w1 name of
                Some (PRef a) \<Rightarrow>
                  (case array_at a w1 of
                     Some xs \<Rightarrow>
                       (let xs1 = (if length xs \<ge> 50 then tl xs else xs);
                            w2 = w1\<lparr>heap := (heap w1)[a := HArr (xs1 @ [metric])]\<rparr>;
                            w3 = (if node_env w2 = ''development''
                                  then console_log (''Performance Metric - '' @ name @ '':'') w2
                                  else w2);
                            w4 = (if node_env w3 = ''production''
                                  then Mobile_sendToAnalytics name val w3 else w3)
                        in (None, w4))
                   | None \<Rightarrow> (Some TypeError, w1))
              | _ \<Rightarrow> (Some TypeError, w1)))"

text \<open>\<^verbatim>\<open>return this.metrics\<close>: the object itself.\<close>

definition Mobile_getMetrics :: "MobilePerformanceMonitor \<Rightarrow> addr" where
  "Mobile_getMetrics w = metrics w"

definition clear_batteryCheckInterval :: "MobilePerformanceMonitor \<Rightarrow> MobilePerformanceMonitor" where
  "clear_batteryCheckInterval w =
     (case batteryCheckInterval w of
        Some h \<Rightarrow>
          (if h \<noteq> 0
           then w\<lparr>intervals := remove_handle h (intervals w), batteryCheckInterval := None\<rparr>
           else w)
      | None \<Rightarrow> w)"

definition Mobile_destroy :: "MobilePerformanceMonitor \<Rightarrow> MobilePerformanceMonitor outcome" where
  "Mobile_destroy w =
     (let w1 = disconnect_all (observers w) w;
          w2 = (case intersectionObserver w1 of
                  Some h \<Rightarrow> try_catch (disconnect h)
                              (\<lambda>e. console_warn ''Failed to disconnect intersection observer:'') w1
                | None \<Rightarrow> w1);
          w3 = clear_memoryCheckInterval w2;
          w4 = clear_batteryCheckInterval w3;
          w5 = run_cleanups (cleanupFunctions w4) w4;
          w6 = w5\<lparr>observers := [], cleanupFunctions := []\<rparr>;
          w7 = (case alloc (HObj Map.empty) w6 of (a, w') \<Rightarrow> w'\<lparr>metrics := a\<rparr>)
      in (None, if node_env w7 = ''development''
                then console_log ''Mobile performance monitoring destroyed and cleaned up'' w7
                else w7))"

text \<open>
  The layout-shift callback of this class: the loop over the entries first, then one
  assignment and one \<^verbatim>\<open>logMetric\<close> for the whole notification.
\<close>

definition Mobile_cls_callback ::
  "layout_shift list \<Rightarrow> real \<Rightarrow> MobilePerformanceMonitor
     \<Rightarrow> exn option \<times> real \<times> MobilePerformanceMonitor" where
  "Mobile_cls_callback entries clsValue w =
     (let clsValue' = foldl (\<lambda>c entry. if \<not> hadRecentInput entry then c + shift_value entry else c)
                        clsValue entries;
          w1 = set_prop (metrics w) ''cls'' (PNum (Fin clsValue')) w
      in case logMetric ''CLS'' (Number (Fin clsValue')) w1 of
           (e, w2) \<Rightarrow> (e, clsValue', w2))"

section \<open>Sequences of calls\<close>

text \<open>
  The host calls a recording method again and again, each time at some reading \<open>t\<close>
  of the clock \<^verbatim>\<open>Date.now()\<close>. An exception of \<^verbatim>\<open>logMetric\<close> ends that
  one call, not the later ones.
\<close>

fun record_all :: "string \<Rightarrow> (int \<times> jsval) list \<Rightarrow> PerformanceMonitor \<Rightarrow> PerformanceMonitor" where
  "record_all name [] w = w"
| "record_all name ((t, v) # svs) w =
     record_all name svs (snd (reportMetric name v (w\<lparr>date_now := t\<rparr>)))"

fun log_all :: "string \<Rightarrow> (int \<times> jsval) list \<Rightarrow> MobilePerformanceMonitor \<Rightarrow> MobilePerformanceMonitor" where
  "log_all name [] w = w"
| "log_all name ((t, v) # svs) w =
     log_all name svs (snd (logMetric name v (w\<lparr>date_now := t\<rparr>)))"

text \<open>
  The layout-shift observer is notified again and again; \<^verbatim>\<open>let clsValue = 0\<close>
  is where the first notification starts.
\<close>

fun cls_notifications ::
  "layout_shift list list \<Rightarrow> real \<Rightarrow> PerformanceMonitor \<Rightarrow> real \<times> PerformanceMonitor" where
  "cls_notifications [] clsValue w = (clsValue, w)"
| "cls_notifications (entries # rest) clsValue w =
     (case cls_callback entries clsValue w of (clsValue', w') \<Rightarrow> cls_notifications rest clsValue' w')"

fun Mobile_cls_notifications ::
  "layout_shift list list \<Rightarrow> real \<Rightarrow> MobilePerformanceMonitor \<Rightarrow> real \<times> MobilePerformanceMonitor" where
  "Mobile_cls_notifications [] clsValue w = (clsValue, w)"
| "Mobile_cls_notifications (entries # rest) clsValue w =
     (case Mobile_cls_callback entries clsValue w of
        (e, clsValue', w') \<Rightarrow> Mobile_cls_notifications rest clsValue' w')"

text \<open>The last \<open>n\<close> elements of a list (all of it when it is shorter).\<close>

definition last_n :: "nat \<Rightarrow> 'a list \<Rightarrow> 'a list" where
  "last_n n xs = drop (length xs - n) xs"

section \<open>Concrete states\<close>

text \<open>A host that offers none of the optional interfaces, at time 0.\<close>

definition bare_host :: host where
  "bare_host =
     \<lparr>heap = [], console = [], date_now = 0, perf_now = 0, node_env = ''test'',
      gtag = None, gtag_events = [], fetch_behaviour = Resolves 0 200, posts = [],
      timeouts = [], intervals = [], next_handle = 1,
      has_PerformanceObserver = False, observe_throws = (\<lambda>t. False),
      disconnect_throws = (\<lambda>h. False), subscriptions = [],
      has_memory = False, has_performWork = False, performWork_patched = False,
      navigator_connection = None, has_getBattery = False, battery_requests = 0,
      battery_level = Undefined, battery_charging = Undefined,
      has_IntersectionObserver = False, listeners = [],
      deviceMemory = None, hardwareConcurrency = None, innerWidth = 1280,
      prefers_reduced_motion = False,
      navigator_userAgent = ''agent'', navigator_platform = ''platform'',
      navigator_language = ''en''\<rparr>"

text \<open>
  A new mobile monitor whose store holds \<^verbatim>\<open>lcp = 7000\<close> and nothing else: the
  snapshot \<^verbatim>\<open>{lcp: 7000}\<close>.
\<close>

definition lcp_only :: MobilePerformanceMonitor where
  "lcp_only =
     (let w = new_MobilePerformanceMonitor bare_host
      in set_prop (metrics w) ''lcp'' (PNum (Fin 7000)) w)"

text \<open>A new desktop monitor and a new mobile monitor on that host.\<close>

definition monitor0 :: PerformanceMonitor where
  "monitor0 = new_PerformanceMonitor bare_host"

definition mobile0 :: MobilePerformanceMonitor where
  "mobile0 = new_MobilePerformanceMonitor bare_host"

text \<open>The samples with the values \<open>i, ..., j\<close>, each recorded at the time of its value.\<close>

definition samples_from_to :: "nat \<Rightarrow> nat \<Rightarrow> (int \<times> jsval) list" where
  "samples_from_to i j = map (\<lambda>k. (int k, Number (Fin (real k)))) [i..<Suc j]"

text \<open>A resource notification entry for an image.\<close>

definition img_entry :: resource_timing where
  "img_entry = \<lparr>resource_name = ''logo.png'', initiatorType = ''img'',
                 duration = Number (Fin 12), transferSize = Undefined\<rparr>"

text \<open>Work that takes 5 ms and returns 42.\<close>

definition work :: "PerformanceMonitor \<Rightarrow> (exn + nat) \<times> PerformanceMonitor" where
  "work w = (Inr 42, w\<lparr>perf_now := perf_now w + 5\<rparr>)"

text \<open>The desktop monitor after one sample, after \<^verbatim>\<open>destroy()\<close>; the mobile monitor after one sample.\<close>

definition recorded0 :: PerformanceMonitor where
  "recorded0 = snd (reportMetric ''render'' (Number (Fin 1)) monitor0)"

definition destroyed0 :: PerformanceMonitor where
  "destroyed0 = snd (destroy monitor0)"

definition logged0 :: MobilePerformanceMonitor where
  "logged0 = snd (logMetric ''LCP'' (Number (Fin 1)) mobile0)"

text \<open>A host with \<^verbatim>\<open>PerformanceObserver\<close> and \<^verbatim>\<open>performance.memory\<close>, and the monitors on it.\<close>

definition observer_host :: host where
  "observer_host = bare_host\<lparr>has_PerformanceObserver := True, has_memory := True\<rparr>"

definition monitor1 :: PerformanceMonitor where
  "monitor1 = new_PerformanceMonitor observer_host"

definition mobile1 :: MobilePerformanceMonitor where
  "mobile1 = new_MobilePerformanceMonitor observer_host"

text \<open>Two layout-shift notifications; the second entry of the first one follows an input.\<close>

definition shifts0 :: "layout_shift list list" where
  "shifts0 = [[\<lparr>shift_value = 1 / 10, hadRecentInput = False\<rparr>,
               \<lparr>shift_value = 1 / 2, hadRecentInput = True\<rparr>],
              [\<lparr>shift_value = 1 / 4, hadRecentInput = False\<rparr>]]"

text \<open>
  The desktop monitor after one resource entry, and after one measured call under the
  name \<^verbatim>\<open>"resources"\<close>; the monitor on the host with observers after
  \<^verbatim>\<open>init()\<close>.
\<close>

definition resourced0 :: PerformanceMonitor where
  "resourced0 = snd (resource_entry img_entry monitor0)"

definition measured0 :: PerformanceMonitor where
  "measured0 = snd (measure_fn ''resources'' work monitor0)"

definition running1 :: PerformanceMonitor where
  "running1 = snd (init monitor1)"

section \<open>Properties\<close>

lemmas record_defs = host.defs monitor.defs MobilePerformanceMonitor.defs PerformanceMonitor.defs

lemmas Mobile_init_defs = new_MobilePerformanceMonitor_def Mobile_fields_def Mobile_init_def
  Mobile_setupPerformanceObserver_def setupNetworkObserver_def setupBatteryObserver_def
  setupMemoryObserver_def setupIntersectionObserver_def

lemmas score_defs = getPerformanceScore_def getLCPScore_def getFIDScore_def getCLSScore_def
  getRecommendations_def or_zero_def js_le_def

subsection \<open>The heap\<close>

lemma lookup_upd:
  "lookup (h[a := x]) b = (if a = b \<and> b < length h then Some x else lookup h b)"
  by (simp add: lookup_def)

lemma lookup_app: "lookup (h @ [x]) b = (if b = length h then Some x else lookup h b)"
  by (simp add: lookup_def nth_append)

lemma lookup_lt: "lookup h a = Some x \<Longrightarrow> a < length h"
  by (simp add: lookup_def split: if_splits)

lemma lookup_ge: "length h \<le> a \<Longrightarrow> lookup h a = None"
  by (simp add: lookup_def)

lemma metrics_okE: "metrics_ok w \<Longrightarrow> \<exists>ps. lookup (heap w) (metrics w) = Some (HObj ps)"
  by (auto simp: metrics_ok_def split: option.splits hobj.splits)

lemma inherits_own: "ps name = Some x \<Longrightarrow> \<not> inherits ps name"
  by (simp add: inherits_def)

lemma inherits_other: "name \<notin> set proto_names \<Longrightarrow> \<not> inherits ps name"
  by (simp add: inherits_def)

lemma inherits_empty: "inherits Map.empty name = (name \<in> set proto_names)"
  by (simp add: inherits_def)

lemma date_now_frame [simp]:
  "metrics_ok (w\<lparr>date_now := t\<rparr>) = metrics_ok w"
  "props a (w\<lparr>date_now := t\<rparr>) = props a w"
  "array_at a (w\<lparr>date_now := t\<rparr>) = array_at a w"
  by (simp_all add: metrics_ok_def props_def array_at_def)

lemma push_bounded:
  assumes "0 < n"
  shows "(if n \<le> length xs then tl xs else xs) @ [s] = last_n (max n (length xs)) (xs @ [s])"
proof (cases "n \<le> length xs")
  case True
  with assms have "xs \<noteq> []" by auto
  with True show ?thesis by (cases xs) (simp_all add: last_n_def max_def)
next
  case False
  then show ?thesis by (simp add: last_n_def max_def)
qed

lemma length_last_n: "length (last_n n xs) = min n (length xs)"
  by (simp add: last_n_def)

lemma push_bound_kept:
  assumes "0 < n"
  shows "max n (length (last_n (max n (length xs)) (xs @ [s]))) = max n (length xs)"
  using assms by (auto simp add: length_last_n max_def min_def)

lemma last_n_append: "last_n n (last_n n xs @ ys) = last_n n (xs @ ys)"
  by (cases "length xs \<le> n") (simp_all add: last_n_def add.commute)

lemma lcp_only_props: "props (metrics lcp_only) lcp_only = [''lcp'' \<mapsto> PNum (Fin 7000)]"
  by (simp add: lcp_only_def Mobile_init_defs bare_host_def alloc_def record_defs
        set_prop_def lookup_def props_def Let_def)

subsection \<open>What reportMetric does to the store\<close>

lemma sendToAnalytics_heap [simp]: "heap (snd (sendToAnalytics n v w)) = heap w"
  by (simp add: sendToAnalytics_def sendToAnalytics_try_def try_catch_def console_warn_def Let_def
      split: fetch_outcome.splits)

lemma sendToAnalytics_metrics [simp]: "metrics (snd (sendToAnalytics n v w)) = metrics w"
  by (simp add: sendToAnalytics_def sendToAnalytics_try_def try_catch_def console_warn_def Let_def
      split: fetch_outcome.splits)

lemma sendToAnalytics_node_env [simp]: "node_env (snd (sendToAnalytics n v w)) = node_env w"
  by (simp add: sendToAnalytics_def sendToAnalytics_try_def try_catch_def console_warn_def Let_def
      split: fetch_outcome.splits)

lemma reportMetric_array:
  assumes "props (metrics w) w name = Some (PRef a)" and "array_at a w = Some xs"
  shows "heap (snd (reportMetric name v w)) =
           (heap w)[a := HArr ((if length xs \<ge> 100 then tl xs else xs) @ [Sample v (date_now w)])]"
    and "metrics (snd (reportMetric name v w)) = metrics w"
  using assms
  by (simp_all add: reportMetric_def reportMetric_try_def try_catch_def console_warn_def
        console_log_def Let_def inherits_def split: option.splits callable.splits)

lemma reportMetric_inherited:
  assumes "inherits (props (metrics w) w) name"
  shows "snd (reportMetric name v w) = console_warn ''Failed to report metric:'' w"
  using assms
  by (simp add: reportMetric_def reportMetric_try_def try_catch_def)

lemma reportMetric_fresh:
  assumes "lookup (heap w) (metrics w) = Some (HObj ps)" and "\<not> truthy (ps name)"
    and "\<not> inherits ps name"
  shows "heap (snd (reportMetric name v w)) =
           (heap w)[metrics w := HObj (ps(name \<mapsto> PRef (length (heap w))))]
             @ [HArr [Sample v (date_now w)]]"
    and "metrics (snd (reportMetric name v w)) = metrics w"
proof -
  from assms(3) have k: "\<not> (name = ''__proto__'' \<and> ps name = None)"
    by (auto simp add: inherits_def proto_names_def)
  show "heap (snd (reportMetric name v w)) =
           (heap w)[metrics w := HObj (ps(name \<mapsto> PRef (length (heap w))))]
             @ [HArr [Sample v (date_now w)]]"
    and "metrics (snd (reportMetric name v w)) = metrics w"
    using assms k
    by (auto simp add: reportMetric_def reportMetric_try_def try_catch_def console_warn_def
          console_log_def Let_def alloc_def set_prop_def props_def array_at_def lookup_def
          nth_append list_update_append
        split: option.splits callable.splits hobj.splits if_splits)
qed

lemma reportMetric_scalar:
  assumes "props (metrics w) w name = Some (PNum x)" and "truthy (Some (PNum x))"
  shows "snd (reportMetric name v w) = console_warn ''Failed to report metric:'' w"
  using assms
  by (simp add: reportMetric_def reportMetric_try_def try_catch_def Let_def inherits_def)

lemma reportMetric_fresh_series:
  assumes ok: "metrics_ok w" and falsy: "\<not> truthy (props (metrics w) w name)"
    and ni: "\<not> inherits (props (metrics w) w) name"
  shows "metrics_ok (snd (reportMetric name v w))"
    and "metrics (snd (reportMetric name v w)) = metrics w"
    and "props (metrics w) (snd (reportMetric name v w))
           = (props (metrics w) w)(name \<mapsto> PRef (length (heap w)))"
    and "array_at (length (heap w)) (snd (reportMetric name v w)) = Some [Sample v (date_now w)]"
    and "b \<noteq> length (heap w) \<Longrightarrow> array_at b (snd (reportMetric name v w)) = array_at b w"
proof -
  from ok obtain ps where ps: "lookup (heap w) (metrics w) = Some (HObj ps)"
    using metrics_okE by blast
  then have lt: "metrics w < length (heap w)" by (rule lookup_lt)
  from ps falsy have f: "\<not> truthy (ps name)" by (simp add: props_def)
  from ps ni have g: "\<not> inherits ps name" by (simp add: props_def)
  note h = reportMetric_fresh [OF ps f g, of v]
  show "metrics_ok (snd (reportMetric name v w))"
    using ps lt by (simp add: h metrics_ok_def lookup_upd lookup_app)
  show "metrics (snd (reportMetric name v w)) = metrics w" by (rule h)
  show "props (metrics w) (snd (reportMetric name v w))
           = (props (metrics w) w)(name \<mapsto> PRef (length (heap w)))"
    using ps lt by (simp add: h props_def lookup_upd lookup_app)
  show "array_at (length (heap w)) (snd (reportMetric name v w)) = Some [Sample v (date_now w)]"
    using ps lt by (simp add: h array_at_def lookup_upd lookup_app)
  show "b \<noteq> length (heap w) \<Longrightarrow> array_at b (snd (reportMetric name v w)) = array_at b w"
    using ps lt by (auto simp add: h array_at_def lookup_upd lookup_app)
qed

lemma reportMetric_existing_series:
  assumes p: "props (metrics w) w name = Some (PRef a)" and x: "array_at a w = Some xs"
    and ok: "metrics_ok w"
  shows "metrics_ok (snd (reportMetric name v w))"
    and "metrics (snd (reportMetric name v w)) = metrics w"
    and "props (metrics w) (snd (reportMetric name v w)) = props (metrics w) w"
    and "array_at a (snd (reportMetric name v w))
           = Some ((if length xs \<ge> 100 then tl xs else xs) @ [Sample v (date_now w)])"
    and "b \<noteq> a \<Longrightarrow> array_at b (snd (reportMetric name v w)) = array_at b w"
proof -
  note h = reportMetric_array [OF p x, of v]
  from ok obtain ps where ps: "lookup (heap w) (metrics w) = Some (HObj ps)"
    using metrics_okE by blast
  with x have ne: "a \<noteq> metrics w" by (auto simp: array_at_def)
  from x have lt: "a < length (heap w)"
    by (auto simp add: array_at_def split: option.splits dest: lookup_lt)
  show "metrics_ok (snd (reportMetric name v w))"
    using ps ne by (simp add: h metrics_ok_def lookup_upd)
  show "metrics (snd (reportMetric name v w)) = metrics w" by (rule h)
  show "props (metrics w) (snd (reportMetric name v w)) = props (metrics w) w"
    using ps ne by (simp add: h props_def lookup_upd)
  show "array_at a (snd (reportMetric name v w))
           = Some ((if length xs \<ge> 100 then tl xs else xs) @ [Sample v (date_now w)])"
    using lt by (simp add: h array_at_def lookup_upd)
  show "b \<noteq> a \<Longrightarrow> array_at b (snd (reportMetric name v w)) = array_at b w"
    by (simp add: h array_at_def lookup_upd)
qed

text \<open>
  From a store with a series under \<open>name\<close>: a series of at most 100 samples is
  kept to the last 100, and a longer one (which only code outside the class can put
  there) keeps its length, since every call removes one sample and appends one.
\<close>

lemma record_all_series:
  assumes "metrics_ok w" and "props (metrics w) w name = Some (PRef a)"
    and "array_at a w = Some xs"
  shows "metrics_ok (record_all name svs w) \<and> metrics (record_all name svs w) = metrics w
         \<and> props (metrics w) (record_all name svs w) = props (metrics w) w
         \<and> array_at a (record_all name svs w)
              = Some (last_n (max 100 (length xs)) (xs @ map (\<lambda>(t, v). Sample v t) svs))"
  using assms
proof (induction svs arbitrary: w xs)
  case Nil
  then show ?case by (simp add: last_n_def)
next
  case (Cons sv svs)
  obtain t v where sv: "sv = (t, v)" by (cases sv)
  let ?w0 = "w\<lparr>date_now := t\<rparr>"
  let ?w1 = "snd (reportMetric name v ?w0)"
  let ?n = "max 100 (length xs)"
  let ?xs1 = "last_n ?n (xs @ [Sample v t])"
  have p0: "props (metrics ?w0) ?w0 name = Some (PRef a)" and x0: "array_at a ?w0 = Some xs"
    and ok0: "metrics_ok ?w0"
    using Cons.prems by simp_all
  note s = reportMetric_existing_series [OF p0 x0 ok0, where v = v]
  have m1: "metrics ?w1 = metrics w" using s(2) by simp
  have pr1: "props (metrics w) ?w1 = props (metrics w) w" using s(3) by simp
  have a1: "array_at a ?w1 = Some ?xs1"
    using s(4) push_bounded [of 100 xs "Sample v t"] by simp
  have len: "max 100 (length ?xs1) = ?n" by (rule push_bound_kept) simp
  have p1: "props (metrics ?w1) ?w1 name = Some (PRef a)"
    using m1 pr1 Cons.prems(2) by simp
  have ih: "metrics_ok (record_all name svs ?w1)
         \<and> metrics (record_all name svs ?w1) = metrics ?w1
         \<and> props (metrics ?w1) (record_all name svs ?w1) = props (metrics ?w1) ?w1
         \<and> array_at a (record_all name svs ?w1)
              = Some (last_n (max 100 (length ?xs1)) (?xs1 @ map (\<lambda>(t, v). Sample v t) svs))"
    by (rule Cons.IH [OF s(1) p1 a1])
  show ?case
    using ih m1 pr1 unfolding len by (simp add: sv last_n_append)
qed

text \<open>
  From a store without a series under \<open>name\<close>: the first call creates the array at
  the next free address, and after any number of calls it holds the last 100 samples.
\<close>

lemma record_all_bounded:
  assumes "metrics_ok w" and "\<not> truthy (props (metrics w) w name)" and "svs \<noteq> []"
    and "\<not> inherits (props (metrics w) w) name"
  shows "metrics (record_all name svs w) = metrics w"
    and "props (metrics w) (record_all name svs w) name = Some (PRef (length (heap w)))"
    and "array_at (length (heap w)) (record_all name svs w)
           = Some (last_n 100 (map (\<lambda>(t, v). Sample v t) svs))"
proof -
  from assms(3) obtain t v rest where svs: "svs = (t, v) # rest" by (cases svs) auto
  let ?w0 = "w\<lparr>date_now := t\<rparr>"
  let ?w1 = "snd (reportMetric name v ?w0)"
  let ?a = "length (heap w)"
  have ok0: "metrics_ok ?w0" and f0: "\<not> truthy (props (metrics ?w0) ?w0 name)"
    and n0: "\<not> inherits (props (metrics ?w0) ?w0) name"
    using assms(1,2,4) by simp_all
  note s = reportMetric_fresh_series [OF ok0 f0 n0, where v = v]
  have m1: "metrics ?w1 = metrics w" using s(2) by simp
  have p1: "props (metrics ?w1) ?w1 name = Some (PRef ?a)" using s(3) m1 by simp
  have a1: "array_at ?a ?w1 = Some [Sample v t]" using s(4) by simp
  have r: "metrics_ok (record_all name rest ?w1)
         \<and> metrics (record_all name rest ?w1) = metrics ?w1
         \<and> props (metrics ?w1) (record_all name rest ?w1) = props (metrics ?w1) ?w1
         \<and> array_at ?a (record_all name rest ?w1)
              = Some (last_n 100 ([Sample v t] @ map (\<lambda>(t, v). Sample v t) rest))"
    using record_all_series [OF s(1) p1 a1, of rest] by simp
  have e: "[Sample v t] @ map (\<lambda>(t, v). Sample v t) rest = map (\<lambda>(t, v). Sample v t) svs"
    by (simp add: svs)
  have w': "record_all name svs w = record_all name rest ?w1" by (simp add: svs)
  from r show "metrics (record_all name svs w) = metrics w"
    and "props (metrics w) (record_all name svs w) name = Some (PRef (length (heap w)))"
    and "array_at (length (heap w)) (record_all name svs w)
           = Some (last_n 100 (map (\<lambda>(t, v). Sample v t) svs))"
    unfolding e w' using p1 m1 by simp_all
qed

subsection \<open>What logMetric does to the store\<close>

lemma deviceInfo_date_now [simp]: "this_deviceInfo (w\<lparr>date_now := t\<rparr>) = this_deviceInfo w"
  by (simp add: this_deviceInfo_def)

lemma logMetric_array:
  assumes "props (metrics w) w name = Some (PRef a)" and "array_at a w = Some xs"
  shows "heap (snd (logMetric name v w)) =
           (heap w)[a := HArr ((if length xs \<ge> 50 then tl xs else xs)
                                  @ [Metric name v (date_now w) (this_deviceInfo w)])]"
    and "metrics (snd (logMetric name v w)) = metrics w"
    and "this_deviceInfo (snd (logMetric name v w)) = this_deviceInfo w"
    and "fst (logMetric name v w) = None"
  using assms
  by (simp_all add: logMetric_def Mobile_sendToAnalytics_def try_catch_def console_warn_def
        console_log_def Let_def this_deviceInfo_def inherits_def
      split: option.splits callable.splits)

lemma logMetric_inherited:
  assumes "inherits (props (metrics w) w) name"
  shows "logMetric name v w = (Some TypeError, w)"
  using assms by (simp add: logMetric_def Let_def)

lemma logMetric_fresh:
  assumes "lookup (heap w) (metrics w) = Some (HObj ps)" and "\<not> truthy (ps name)"
    and "\<not> inherits ps name"
  shows "heap (snd (logMetric name v w)) =
           (heap w)[metrics w := HObj (ps(name \<mapsto> PRef (length (heap w))))]
             @ [HArr [Metric name v (date_now w) (this_deviceInfo w)]]"
    and "metrics (snd (logMetric name v w)) = metrics w"
    and "this_deviceInfo (snd (logMetric name v w)) = this_deviceInfo w"
    and "fst (logMetric name v w) = None"
proof -
  from assms(3) have k: "\<not> (name = ''__proto__'' \<and> ps name = None)"
    by (auto simp add: inherits_def proto_names_def)
  show "heap (snd (logMetric name v w)) =
           (heap w)[metrics w := HObj (ps(name \<mapsto> PRef (length (heap w))))]
             @ [HArr [Metric name v (date_now w) (this_deviceInfo w)]]"
    and "metrics (snd (logMetric name v w)) = metrics w"
    and "this_deviceInfo (snd (logMetric name v w)) = this_deviceInfo w"
    and "fst (logMetric name v w) = None"
    using assms k
    by (auto simp add: logMetric_def Mobile_sendToAnalytics_def try_catch_def console_warn_def
          console_log_def Let_def alloc_def set_prop_def props_def array_at_def lookup_def
          nth_append list_update_append this_deviceInfo_def
        split: option.splits callable.splits hobj.splits if_splits)
qed

lemma logMetric_fresh_series:
  assumes ok: "metrics_ok w" and falsy: "\<not> truthy (props (metrics w) w name)"
    and ni: "\<not> inherits (props (metrics w) w) name"
  shows "metrics_ok (snd (logMetric name v w))"
    and "metrics (snd (logMetric name v w)) = metrics w"
    and "props (metrics w) (snd (logMetric name v w))
           = (props (metrics w) w)(name \<mapsto> PRef (length (heap w)))"
    and "array_at (length (heap w)) (snd (logMetric name v w))
           = Some [Metric name v (date_now w) (this_deviceInfo w)]"
    and "this_deviceInfo (snd (logMetric name v w)) = this_deviceInfo w"
    and "fst (logMetric name v w) = None"
proof -
  from ok obtain ps where ps: "lookup (heap w) (metrics w) = Some (HObj ps)"
    using metrics_okE by blast
  then have lt: "metrics w < length (heap w)" by (rule lookup_lt)
  from ps falsy have f: "\<not> truthy (ps name)" by (simp add: props_def)
  from ps ni have g: "\<not> inherits ps name" by (simp add: props_def)
  note h = logMetric_fresh [OF ps f g, of v]
  show "metrics_ok (snd (logMetric name v w))"
    using ps lt by (simp add: h metrics_ok_def lookup_upd lookup_app)
  show "metrics (snd (logMetric name v w)) = metrics w" by (rule h)
  show "props (metrics w) (snd (logMetric name v w))
           = (props (metrics w) w)(name \<mapsto> PRef (length (heap w)))"
    using ps lt by (simp add: h props_def lookup_upd lookup_app)
  show "array_at (length (heap w)) (snd (logMetric name v w))
           = Some [Metric name v (date_now w) (this_deviceInfo w)]"
    using ps lt by (simp add: h array_at_def lookup_upd lookup_app)
  show "this_deviceInfo (snd (logMetric name v w)) = this_deviceInfo w" by (rule h)
  show "fst (logMetric name v w) = None" by (rule h)
qed

lemma logMetric_existing_series:
  assumes p: "props (metrics w) w name = Some (PRef a)" and x: "array_at a w = Some xs"
    and ok: "metrics_ok w"
  shows "metrics_ok (snd (logMetric name v w))"
    and "metrics (snd (logMetric name v w)) = metrics w"
    and "props (metrics w) (snd (logMetric name v w)) = props (metrics w) w"
    and "array_at a (snd (logMetric name v w))
           = Some ((if length xs \<ge> 50 then tl xs else xs)
                     @ [Metric name v (date_now w) (this_deviceInfo w)])"
    and "this_deviceInfo (snd (logMetric name v w)) = this_deviceInfo w"
    and "fst (logMetric name v w) = None"
proof -
  note h = logMetric_array [OF p x, of v]
  from ok obtain ps where ps: "lookup (heap w) (metrics w) = Some (HObj ps)"
    using metrics_okE by blast
  with x have ne: "a \<noteq> metrics w" by (auto simp: array_at_def)
  from x have lt: "a < length (heap w)"
    by (auto simp add: array_at_def split: option.splits dest: lookup_lt)
  show "metrics_ok (snd (logMetric name v w))"
    using ps ne by (simp add: h metrics_ok_def lookup_upd)
  show "metrics (snd (logMetric name v w)) = metrics w" by (rule h)
  show "props (metrics w) (snd (logMetric name v w)) = props (metrics w) w"
    using ps ne by (simp add: h props_def lookup_upd)
  show "array_at a (snd (logMetric name v w))
           = Some ((if length xs \<ge> 50 then tl xs else xs)
                     @ [Metric name v (date_now w) (this_deviceInfo w)])"
    using lt by (simp add: h array_at_def lookup_upd)
  show "this_deviceInfo (snd (logMetric name v w)) = this_deviceInfo w" by (rule h)
  show "fst (logMetric name v w) = None" by (rule h)
qed

lemma log_all_series:
  assumes "metrics_ok w" and "props (metrics w) w name = Some (PRef a)"
    and "array_at a w = Some xs"
  shows "metrics_ok (log_all name svs w) \<and> metrics (log_all name svs w) = metrics w
         \<and> props (metrics w) (log_all name svs w) = props (metrics w) w
         \<and> array_at a (log_all name svs w)
              = Some (last_n (max 50 (length xs))
                   (xs @ map (\<lambda>(t, v). Metric name v t (this_deviceInfo w)) svs))"
  using assms
proof (induction svs arbitrary: w xs)
  case Nil
  then show ?case by (simp add: last_n_def)
next
  case (Cons sv svs)
  obtain t v where sv: "sv = (t, v)" by (cases sv)
  let ?w0 = "w\<lparr>date_now := t\<rparr>"
  let ?w1 = "snd (logMetric name v ?w0)"
  let ?m = "Metric name v t (this_deviceInfo w)"
  let ?n = "max 50 (length xs)"
  let ?xs1 = "last_n ?n (xs @ [?m])"
  have p0: "props (metrics ?w0) ?w0 name = Some (PRef a)" and x0: "array_at a ?w0 = Some xs"
    and ok0: "metrics_ok ?w0"
    using Cons.prems by simp_all
  note s = logMetric_existing_series [OF p0 x0 ok0, where v = v]
  have m1: "metrics ?w1 = metrics w" using s(2) by simp
  have pr1: "props (metrics w) ?w1 = props (metrics w) w" using s(3) by simp
  have d1: "this_deviceInfo ?w1 = this_deviceInfo w" using s(5) by simp
  have a1: "array_at a ?w1 = Some ?xs1"
    using s(4) push_bounded [of 50 xs ?m] by simp
  have len: "max 50 (length ?xs1) = ?n" by (rule push_bound_kept) simp
  have p1: "props (metrics ?w1) ?w1 name = Some (PRef a)"
    using m1 pr1 Cons.prems(2) by simp
  have ih: "metrics_ok (log_all name svs ?w1)
         \<and> metrics (log_all name svs ?w1) = metrics ?w1
         \<and> props (metrics ?w1) (log_all name svs ?w1) = props (metrics ?w1) ?w1
         \<and> array_at a (log_all name svs ?w1)
              = Some (last_n (max 50 (length ?xs1))
                   (?xs1 @ map (\<lambda>(t, v). Metric name v t (this_deviceInfo ?w1)) svs))"
    by (rule Cons.IH [OF s(1) p1 a1])
  show ?case
    using ih m1 pr1 d1 unfolding len by (simp add: sv last_n_append)
qed

lemma log_all_bounded:
  assumes "metrics_ok w" and "\<not> truthy (props (metrics w) w name)" and "svs \<noteq> []"
    and "\<not> inherits (props (metrics w) w) name"
  shows "metrics (log_all name svs w) = metrics w"
    and "props (metrics w) (log_all name svs w) name = Some (PRef (length (heap w)))"
    and "array_at (length (heap w)) (log_all name svs w)
           = Some (last_n 50 (map (\<lambda>(t, v). Metric name v t (this_deviceInfo w)) svs))"
proof -
  from assms(3) obtain t v rest where svs: "svs = (t, v) # rest" by (cases svs) auto
  let ?w0 = "w\<lparr>date_now := t\<rparr>"
  let ?w1 = "snd (logMetric name v ?w0)"
  let ?a = "length (heap w)"
  let ?m = "Metric name v t (this_deviceInfo w)"
  have ok0: "metrics_ok ?w0" and f0: "\<not> truthy (props (metrics ?w0) ?w0 name)"
    and n0: "\<not> inherits (props (metrics ?w0) ?w0) name"
    using assms(1,2,4) by simp_all
  note s = logMetric_fresh_series [OF ok0 f0 n0, where v = v]
  have m1: "metrics ?w1 = metrics w" using s(2) by simp
  have d1: "this_deviceInfo ?w1 = this_deviceInfo w" using s(5) by simp
  have p1: "props (metrics ?w1) ?w1 name = Some (PRef ?a)" using s(3) m1 by simp
  have a1: "array_at ?a ?w1 = Some [?m]" using s(4) by simp
  have r: "metrics_ok (log_all name rest ?w1)
         \<and> metrics (log_all name rest ?w1) = metrics ?w1
         \<and> props (metrics ?w1) (log_all name rest ?w1) = props (metrics ?w1) ?w1
         \<and> array_at ?a (log_all name rest ?w1)
              = Some (last_n 50 ([?m] @ map (\<lambda>(t, v). Metric name v t (this_deviceInfo ?w1)) rest))"
    using log_all_series [OF s(1) p1 a1, of rest] by simp
  have e: "[?m] @ map (\<lambda>(t, v). Metric name v t (this_deviceInfo ?w1)) rest
             = map (\<lambda>(t, v). Metric name v t (this_deviceInfo w)) svs"
    by (simp add: svs d1)
  have w': "log_all name svs w = log_all name rest ?w1" by (simp add: svs)
  from r show "metrics (log_all name svs w) = metrics w"
    and "props (metrics w) (log_all name svs w) name = Some (PRef (length (heap w)))"
    and "array_at (length (heap w)) (log_all name svs w)
           = Some (last_n 50 (map (\<lambda>(t, v). Metric name v t (this_deviceInfo w)) svs))"
    unfolding e w' using p1 m1 by simp_all
qed

subsection \<open>What the resource callback does to the store\<close>

lemma resource_entry_other:
  assumes "initiatorType e \<noteq> ''img''" and "initiatorType e \<noteq> ''video''"
  shows "resource_entry e w = (None, w)"
  using assms by (simp add: resource_entry_def)

lemma resource_entry_array:
  assumes "initiatorType e = ''img'' \<or> initiatorType e = ''video''"
    and "props (metrics w) w ''resources'' = Some (PRef a)" and "array_at a w = Some xs"
  shows "heap (snd (resource_entry e w)) =
           (heap w)[a := HArr ((if length xs \<ge> 50 then tl xs else xs) @ [resource_element e])]"
    and "metrics (snd (resource_entry e w)) = metrics w"
    and "fst (resource_entry e w) = None"
  using assms
  by (simp_all add: resource_entry_def Let_def)

lemma resource_entry_fresh:
  assumes "initiatorType e = ''img'' \<or> initiatorType e = ''video''"
    and "lookup (heap w) (metrics w) = Some (HObj ps)" and "\<not> truthy (ps ''resources'')"
  shows "heap (snd (resource_entry e w)) =
           (heap w)[metrics w := HObj (ps(''resources'' \<mapsto> PRef (length (heap w))))]
             @ [HArr [resource_element e]]"
    and "metrics (snd (resource_entry e w)) = metrics w"
    and "fst (resource_entry e w) = None"
  using assms
  by (auto simp add: resource_entry_def Let_def alloc_def set_prop_def props_def array_at_def
        lookup_def nth_append list_update_append
      split: option.splits hobj.splits if_splits)

lemma resource_entry_fresh_series:
  assumes media: "initiatorType e = ''img'' \<or> initiatorType e = ''video''"
    and ok: "metrics_ok w" and falsy: "\<not> truthy (props (metrics w) w ''resources'')"
  shows "metrics_ok (snd (resource_entry e w))"
    and "metrics (snd (resource_entry e w)) = metrics w"
    and "props (metrics w) (snd (resource_entry e w))
           = (props (metrics w) w)(''resources'' \<mapsto> PRef (length (heap w)))"
    and "array_at (length (heap w)) (snd (resource_entry e w)) = Some [resource_element e]"
    and "fst (resource_entry e w) = None"
proof -
  from ok obtain ps where ps: "lookup (heap w) (metrics w) = Some (HObj ps)"
    using metrics_okE by blast
  then have lt: "metrics w < length (heap w)" by (rule lookup_lt)
  from ps falsy have f: "\<not> truthy (ps ''resources'')" by (simp add: props_def)
  note h = resource_entry_fresh [OF media ps f]
  show "metrics_ok (snd (resource_entry e w))"
    using ps lt by (simp add: h metrics_ok_def lookup_upd lookup_app)
  show "metrics (snd (resource_entry e w)) = metrics w" by (rule h)
  show "props (metrics w) (snd (resource_entry e w))
           = (props (metrics w) w)(''resources'' \<mapsto> PRef (length (heap w)))"
    using ps lt by (simp add: h props_def lookup_upd lookup_app)
  show "array_at (length (heap w)) (snd (resource_entry e w)) = Some [resource_element e]"
    using ps lt by (simp add: h array_at_def lookup_upd lookup_app)
  show "fst (resource_entry e w) = None" by (rule h)
qed

lemma resource_entry_existing_series:
  assumes media: "initiatorType e = ''img'' \<or> initiatorType e = ''video''"
    and p: "props (metrics w) w ''resources'' = Some (PRef a)" and x: "array_at a w = Some xs"
    and ok: "metrics_ok w"
  shows "metrics_ok (snd (resource_entry e w))"
    and "metrics (snd (resource_entry e w)) = metrics w"
    and "props (metrics w) (snd (resource_entry e w)) = props (metrics w) w"
    and "array_at a (snd (resource_entry e w))
           = Some ((if length xs \<ge> 50 then tl xs else xs) @ [resource_element e])"
    and "fst (resource_entry e w) = None"
proof -
  note h = resource_entry_array [OF media p x]
  from ok obtain ps where ps: "lookup (heap w) (metrics w) = Some (HObj ps)"
    using metrics_okE by blast
  with x have ne: "a \<noteq> metrics w" by (auto simp: array_at_def)
  from x have lt: "a < length (heap w)"
    by (auto simp add: array_at_def split: option.splits dest: lookup_lt)
  show "metrics_ok (snd (resource_entry e w))"
    using ps ne by (simp add: h metrics_ok_def lookup_upd)
  show "metrics (snd (resource_entry e w)) = metrics w" by (rule h)
  show "props (metrics w) (snd (resource_entry e w)) = props (metrics w) w"
    using ps ne by (simp add: h props_def lookup_upd)
  show "array_at a (snd (resource_entry e w))
           = Some ((if length xs \<ge> 50 then tl xs else xs) @ [resource_element e])"
    using lt by (simp add: h array_at_def lookup_upd)
  show "fst (resource_entry e w) = None" by (rule h)
qed

lemma and_then_None: "fst (f w) = None \<Longrightarrow> and_then f g w = g (snd (f w))"
  by (cases "f w") (simp add: and_then_def)

lemma resource_callback_series:
  assumes "metrics_ok w" and "props (metrics w) w ''resources'' = Some (PRef a)"
    and "array_at a w = Some xs"
  shows "fst (resource_callback es w) = None
         \<and> metrics_ok (snd (resource_callback es w))
         \<and> metrics (snd (resource_callback es w)) = metrics w
         \<and> props (metrics w) (snd (resource_callback es w)) = props (metrics w) w
         \<and> array_at a (snd (resource_callback es w))
              = Some (last_n (max 50 (length xs)) (xs @ map resource_element
                   (filter (\<lambda>e. initiatorType e = ''img'' \<or> initiatorType e = ''video'') es)))"
  using assms
proof (induction es arbitrary: w xs)
  case Nil
  then show ?case by (simp add: last_n_def)
next
  case (Cons e es)
  show ?case
  proof (cases "initiatorType e = ''img'' \<or> initiatorType e = ''video''")
    case False
    then have "resource_entry e w = (None, w)" by (simp add: resource_entry_other)
    then have "resource_callback (e # es) w = resource_callback es w"
      by (simp add: and_then_def)
    with Cons.IH [OF Cons.prems] False show ?thesis by simp
  next
    case True
    let ?w1 = "snd (resource_entry e w)"
    let ?n = "max 50 (length xs)"
    let ?xs1 = "last_n ?n (xs @ [resource_element e])"
    note s = resource_entry_existing_series [OF True Cons.prems(2,3,1)]
    have a1: "array_at a ?w1 = Some ?xs1"
      using s(4) push_bounded [of 50 xs "resource_element e"] by simp
    have len: "max 50 (length ?xs1) = ?n" by (rule push_bound_kept) simp
    have p1: "props (metrics ?w1) ?w1 ''resources'' = Some (PRef a)"
      using s(2,3) Cons.prems(2) by simp
    have ih: "fst (resource_callback es ?w1) = None
         \<and> metrics_ok (snd (resource_callback es ?w1))
         \<and> metrics (snd (resource_callback es ?w1)) = metrics ?w1
         \<and> props (metrics ?w1) (snd (resource_callback es ?w1)) = props (metrics ?w1) ?w1
         \<and> array_at a (snd (resource_callback es ?w1))
              = Some (last_n (max 50 (length ?xs1)) (?xs1 @ map resource_element
                   (filter (\<lambda>e. initiatorType e = ''img'' \<or> initiatorType e = ''video'') es)))"
      by (rule Cons.IH [OF s(1) p1 a1])
    have step: "resource_callback (e # es) w = resource_callback es ?w1"
      using s(5) by (simp add: and_then_None)
    show ?thesis
      unfolding step using ih s(2,3) True unfolding len by (simp add: last_n_append)
  qed
qed

lemma resource_callback_bounded:
  assumes "metrics_ok w" and "\<not> truthy (props (metrics w) w ''resources'')"
    and "filter (\<lambda>e. initiatorType e = ''img'' \<or> initiatorType e = ''video'') es \<noteq> []"
  shows "fst (resource_callback es w) = None
     \<and> metrics (snd (resource_callback es w)) = metrics w
     \<and> props (metrics w) (snd (resource_callback es w)) ''resources'' = Some (PRef (length (heap w)))
     \<and> array_at (length (heap w)) (snd (resource_callback es w))
           = Some (last_n 50 (map resource_element
                (filter (\<lambda>e. initiatorType e = ''img'' \<or> initiatorType e = ''video'') es)))"
  using assms
proof (induction es)
  case Nil
  then show ?case by simp
next
  case (Cons e es)
  show ?case
  proof (cases "initiatorType e = ''img'' \<or> initiatorType e = ''video''")
    case False
    then have "resource_entry e w = (None, w)" by (simp add: resource_entry_other)
    then have step: "resource_callback (e # es) w = resource_callback es w"
      by (simp add: and_then_def)
    from False Cons.prems(3)
    have "filter (\<lambda>e. initiatorType e = ''img'' \<or> initiatorType e = ''video'') es \<noteq> []" by simp
    from Cons.IH [OF Cons.prems(1,2) this] False show ?thesis unfolding step by simp
  next
    case True
    let ?w1 = "snd (resource_entry e w)"
    let ?a = "length (heap w)"
    note s = resource_entry_fresh_series [OF True Cons.prems(1,2)]
    have p1: "props (metrics ?w1) ?w1 ''resources'' = Some (PRef ?a)" using s(2,3) by simp
    have r: "fst (resource_callback es ?w1) = None
         \<and> metrics_ok (snd (resource_callback es ?w1))
         \<and> metrics (snd (resource_callback es ?w1)) = metrics ?w1
         \<and> props (metrics ?w1) (snd (resource_callback es ?w1)) = props (metrics ?w1) ?w1
         \<and> array_at ?a (snd (resource_callback es ?w1))
              = Some (last_n 50 ([resource_element e] @ map resource_element
                   (filter (\<lambda>e. initiatorType e = ''img'' \<or> initiatorType e = ''video'') es)))"
      using resource_callback_series [OF s(1) p1 s(4), of es] by simp
    have step: "resource_callback (e # es) w = resource_callback es ?w1"
      using s(5) by (simp add: and_then_None)
    show ?thesis
      unfolding step using r s(2) p1 True by simp
  qed
qed

subsection \<open>The concrete states\<close>

lemma monitor0_facts:
  "metrics_ok monitor0" "metrics monitor0 = 0" "length (heap monitor0) = 1"
  "props 0 monitor0 = Map.empty"
  by (simp_all add: monitor0_def new_PerformanceMonitor_def bare_host_def alloc_def record_defs
        metrics_ok_def props_def lookup_def)

lemma mobile0_facts:
  "metrics_ok mobile0" "metrics mobile0 = 0" "length (heap mobile0) = 1"
  "props 0 mobile0 = Map.empty"
  by (simp_all add: mobile0_def Mobile_init_defs bare_host_def alloc_def record_defs
        metrics_ok_def props_def lookup_def Let_def)

lemma samples_drop:
  "drop 50 (samples_from_to 1 150) = samples_from_to 51 150"
  "drop 100 (samples_from_to 1 150) = samples_from_to 101 150"
  by (simp_all add: samples_from_to_def drop_map del: upt_Suc)

lemma length_samples [simp]: "length (samples_from_to i j) = Suc j - i"
  by (simp add: samples_from_to_def del: upt_Suc)

subsection \<open>Assignments, measure and destroy\<close>

lemma reportMetric_returns: "fst (reportMetric name v w) = None"
  by (simp add: reportMetric_def)

lemma console_warn_frame [simp]:
  "heap (console_warn s w) = heap w" "metrics (console_warn s w) = metrics w"
  "props a (console_warn s w) = props a w" "array_at a (console_warn s w) = array_at a w"
  by (simp_all add: console_warn_def props_def array_at_def)

lemma set_prop_ok:
  assumes "metrics_ok w" and "k \<noteq> ''__proto__'' \<or> props (metrics w) w k \<noteq> None"
  shows "props (metrics w) (set_prop (metrics w) k v w) = (props (metrics w) w)(k \<mapsto> v)"
    and "metrics (set_prop (metrics w) k v w) = metrics w"
    and "array_at a (set_prop (metrics w) k v w) = array_at a w"
    and "length (heap (set_prop (metrics w) k v w)) = length (heap w)"
    and "metrics_ok (set_prop (metrics w) k v w)"
proof -
  from assms obtain ps where ps: "lookup (heap w) (metrics w) = Some (HObj ps)"
    using metrics_okE by blast
  then have lt: "metrics w < length (heap w)" by (rule lookup_lt)
  from assms(2) ps have k: "\<not> (k = ''__proto__'' \<and> ps k = None)" by (auto simp add: props_def)
  have e: "set_prop (metrics w) k v w = w\<lparr>heap := (heap w)[metrics w := HObj (ps(k \<mapsto> v))]\<rparr>"
    using ps k by (auto simp add: set_prop_def)
  show "props (metrics w) (set_prop (metrics w) k v w) = (props (metrics w) w)(k \<mapsto> v)"
    using ps lt by (simp add: e props_def lookup_upd)
  show "metrics (set_prop (metrics w) k v w) = metrics w"
    by (simp add: e)
  show "array_at a (set_prop (metrics w) k v w) = array_at a w"
    using ps lt by (auto simp add: e array_at_def lookup_upd)
  show "length (heap (set_prop (metrics w) k v w)) = length (heap w)"
    by (simp add: e)
  show "metrics_ok (set_prop (metrics w) k v w)"
    using ps lt by (simp add: e metrics_ok_def lookup_upd)
qed

lemma set_prop_proto:
  assumes "metrics_ok w" and "props (metrics w) w ''__proto__'' = None"
  shows "set_prop (metrics w) ''__proto__'' (PNum x) w = w"
proof -
  from assms(1) obtain ps where ps: "lookup (heap w) (metrics w) = Some (HObj ps)"
    using metrics_okE by blast
  with assms(2) have "ps ''__proto__'' = None" by (simp add: props_def)
  with ps show ?thesis by (simp add: set_prop_def)
qed

lemma measure_scalar:
  assumes f: "fn w = (Inr r, w1)" and ok: "metrics_ok w1" and pos: "0 < perf_now w1 - perf_now w"
    and np: "name \<noteq> ''__proto__'' \<or> props (metrics w1) w1 name \<noteq> None"
  shows "measure_fn name fn w =
           (Inr r, console_warn ''Failed to report metric:''
                     (set_prop (metrics w1) name (PNum (Fin (perf_now w1 - perf_now w))) w1))"
proof -
  let ?d = "perf_now w1 - perf_now w"
  let ?w2 = "set_prop (metrics w1) name (PNum (Fin ?d)) w1"
  have p: "props (metrics ?w2) ?w2 name = Some (PNum (Fin ?d))"
    using set_prop_ok(1,2) [OF ok np] by simp
  have t: "truthy (Some (PNum (Fin ?d)))" using pos by simp
  show ?thesis
    using reportMetric_scalar [OF p t] f by (simp add: measure_fn_def Let_def)
qed

lemma measure_proto:
  assumes f: "fn w = (Inr r, w1)" and ok: "metrics_ok w1"
    and np: "props (metrics w1) w1 ''__proto__'' = None"
  shows "measure_fn ''__proto__'' fn w = (Inr r, console_warn ''Failed to report metric:'' w1)"
proof -
  have i: "inherits (props (metrics w1) w1) ''__proto__''"
    using np by (simp add: inherits_def proto_names_def)
  show ?thesis
    using reportMetric_inherited [OF i] set_prop_proto [OF ok np] f
    by (simp add: measure_fn_def Let_def)
qed


lemma perf_now_frame [simp]:
  "metrics_ok (w\<lparr>perf_now := t\<rparr>) = metrics_ok w"
  "props a (w\<lparr>perf_now := t\<rparr>) = props a w"
  "array_at a (w\<lparr>perf_now := t\<rparr>) = array_at a w"
  by (simp_all add: metrics_ok_def props_def array_at_def)

lemma recorded0_facts:
  "metrics_ok recorded0" "metrics recorded0 = 0" "length (heap recorded0) = 2"
  "props 0 recorded0 = [''render'' \<mapsto> PRef 1]"
  "array_at (Suc 0) recorded0 = Some [Sample (Number (Fin 1)) 0]"
proof -
  have f: "\<not> truthy (props (metrics monitor0) monitor0 ''render'')" by (simp add: monitor0_facts)
  have g: "\<not> inherits (props (metrics monitor0) monitor0) ''render''"
    by (simp add: inherits_def proto_names_def)
  note s = reportMetric_fresh_series [OF monitor0_facts(1) f g, where v = "Number (Fin 1)"]
  have d: "date_now monitor0 = 0"
    by (simp add: monitor0_def new_PerformanceMonitor_def bare_host_def alloc_def record_defs)
  show "metrics_ok recorded0" using s(1) by (simp add: recorded0_def)
  show "metrics recorded0 = 0" using s(2) by (simp add: recorded0_def monitor0_facts)
  show "props 0 recorded0 = [''render'' \<mapsto> PRef 1]"
    using s(3) by (simp add: recorded0_def monitor0_facts)
  show "array_at (Suc 0) recorded0 = Some [Sample (Number (Fin 1)) 0]"
    using s(4) by (simp add: recorded0_def monitor0_facts d)
  have p: "lookup (heap monitor0) (metrics monitor0) = Some (HObj Map.empty)"
    by (simp add: monitor0_def new_PerformanceMonitor_def bare_host_def alloc_def record_defs lookup_def)
  show "length (heap recorded0) = 2"
    using reportMetric_fresh(1) [OF p, of "''render''" "Number (Fin 1)"]
    by (simp add: recorded0_def monitor0_facts inherits_def proto_names_def)
qed

lemma destroy_store:
  "fst (destroy w) = None"
  "lookup (heap (snd (destroy w))) (metrics (snd (destroy w))) = Some (HObj Map.empty)"
  "\<not> isInitialized (snd (destroy w))"
  "observers (snd (destroy w)) = []"
  "cleanupFunctions (snd (destroy w)) = []"
  by (simp_all add: destroy_def Let_def alloc_def console_log_def lookup_app
        split: option.splits)

lemma destroy_metrics_ok: "metrics_ok (snd (destroy w))"
  by (simp add: metrics_ok_def destroy_store)

lemma destroy_props: "props (metrics (snd (destroy w))) (snd (destroy w)) = Map.empty"
  by (simp add: props_def destroy_store)

lemma init_isInitialized: "fst (init w) = None" "isInitialized (snd (init w))"
  by (simp_all add: init_def init_try_def try_catch_def Let_def console_log_def)

lemma destroyed0_facts:
  "metrics destroyed0 = Suc 0" "length (heap destroyed0) = 2" "date_now destroyed0 = 0"
  by (simp_all add: destroyed0_def monitor0_def new_PerformanceMonitor_def bare_host_def
        destroy_def clear_memoryCheckInterval_def alloc_def record_defs Let_def)

lemma date_now0: "date_now monitor0 = 0" "date_now mobile0 = 0"
  by (simp_all add: monitor0_def new_PerformanceMonitor_def mobile0_def Mobile_init_defs
        bare_host_def alloc_def record_defs Let_def)

lemma logged0_facts:
  "metrics_ok logged0" "metrics logged0 = 0"
  "props 0 logged0 = [''LCP'' \<mapsto> PRef 1]"
  "array_at (Suc 0) logged0 = Some [Metric ''LCP'' (Number (Fin 1)) 0 (this_deviceInfo mobile0)]"
  "this_deviceInfo logged0 = this_deviceInfo mobile0"
proof -
  have f: "\<not> truthy (props (metrics mobile0) mobile0 ''LCP'')" by (simp add: mobile0_facts)
  have g: "\<not> inherits (props (metrics mobile0) mobile0) ''LCP''"
    by (simp add: inherits_def proto_names_def)
  note s = logMetric_fresh_series [OF mobile0_facts(1) f g, where v = "Number (Fin 1)"]
  show "metrics_ok logged0" using s(1) by (simp add: logged0_def)
  show "metrics logged0 = 0" using s(2) by (simp add: logged0_def mobile0_facts)
  show "props 0 logged0 = [''LCP'' \<mapsto> PRef 1]"
    using s(3) by (simp add: logged0_def mobile0_facts)
  show "array_at (Suc 0) logged0 = Some [Metric ''LCP'' (Number (Fin 1)) 0 (this_deviceInfo mobile0)]"
    using s(4) by (simp add: logged0_def mobile0_facts date_now0)
  show "this_deviceInfo logged0 = this_deviceInfo mobile0" using s(5) by (simp add: logged0_def)
qed

subsection \<open>The cases of reportMetric, and the layout-shift callbacks\<close>

lemma reportMetric_no_array:
  assumes "props (metrics w) w name = Some (PRef a)" and "array_at a w = None"
  shows "snd (reportMetric name v w) = console_warn ''Failed to report metric:'' w"
  using assms
  by (simp add: reportMetric_def reportMetric_try_def try_catch_def Let_def inherits_def)

lemma reportMetric_cases:
  "(\<not> truthy (props (metrics w) w name) \<and> \<not> inherits (props (metrics w) w) name)
   \<or> (\<exists>a xs. props (metrics w) w name = Some (PRef a) \<and> array_at a w = Some xs)
   \<or> snd (reportMetric name v w) = console_warn ''Failed to report metric:'' w"
proof (cases "props (metrics w) w name")
  case None
  then show ?thesis using reportMetric_inherited [of w name v] by auto
next
  case (Some p)
  show ?thesis
  proof (cases p)
    case (PNum x)
    with Some reportMetric_scalar [of w name x v] inherits_own [of "props (metrics w) w" name]
    show ?thesis by auto
  next
    case (PRef a)
    with Some reportMetric_no_array [of w name a v] show ?thesis
      by (cases "array_at a w") auto
  qed
qed

lemma reportMetric_other_key:
  assumes ok: "metrics_ok w" and ne: "k \<noteq> name"
  shows "props (metrics w) (snd (reportMetric name v w)) k = props (metrics w) w k"
    and "metrics (snd (reportMetric name v w)) = metrics w"
    and "metrics_ok (snd (reportMetric name v w))"
proof -
  consider (fresh) "\<not> truthy (props (metrics w) w name)"
        "\<not> inherits (props (metrics w) w) name"
    | (series) a xs where "props (metrics w) w name = Some (PRef a)" "array_at a w = Some xs"
    | (fails) "snd (reportMetric name v w) = console_warn ''Failed to report metric:'' w"
    using reportMetric_cases [of w name v] by blast
  then have "props (metrics w) (snd (reportMetric name v w)) k = props (metrics w) w k
      \<and> metrics (snd (reportMetric name v w)) = metrics w
      \<and> metrics_ok (snd (reportMetric name v w))"
  proof cases
    case fresh
    from reportMetric_fresh_series [OF ok fresh, where v = v] ne show ?thesis by simp
  next
    case series
    from reportMetric_existing_series [OF series ok, where v = v] show ?thesis by simp
  next
    case fails
    with ok show ?thesis by (simp add: metrics_ok_def props_def console_warn_def)
  qed
  then show "props (metrics w) (snd (reportMetric name v w)) k = props (metrics w) w k"
    and "metrics (snd (reportMetric name v w)) = metrics w"
    and "metrics_ok (snd (reportMetric name v w))" by simp_all
qed

lemma cls_callback_total:
  "fst (cls_callback entries c w)
     = c + sum_list (map shift_value (filter (\<lambda>e. \<not> hadRecentInput e) entries))"
  by (induction entries c w rule: cls_callback.induct) (simp_all add: Let_def)

lemma cls_notifications_total:
  "fst (cls_notifications ns c w)
     = c + sum_list (map shift_value (filter (\<lambda>e. \<not> hadRecentInput e) (concat ns)))"
proof (induction ns arbitrary: c w)
  case Nil
  then show ?case by simp
next
  case (Cons n ns)
  obtain c' w' where r: "cls_callback n c w = (c', w')" by (cases "cls_callback n c w")
  then have "c' = c + sum_list (map shift_value (filter (\<lambda>e. \<not> hadRecentInput e) n))"
    using cls_callback_total [of n c w] by simp
  with Cons.IH [of c' w'] r show ?case by simp
qed

lemma cls_callback_store:
  assumes "metrics_ok w" and "\<not> hadRecentInput e"
  shows "props (metrics w) (snd (cls_callback [e] c w)) ''cls'' = Some (PNum (Fin (c + shift_value e)))"
proof -
  let ?w1 = "set_prop (metrics w) ''cls'' (PNum (Fin (c + shift_value e))) w"
  have np: "''cls'' \<noteq> ''__proto__'' \<or> props (metrics w) w ''cls'' \<noteq> None" by simp
  note sp = set_prop_ok [OF assms(1) np, where v = "PNum (Fin (c + shift_value e))"]
  have ne: "''cls'' \<noteq> ''CLS''" by simp
  note r = reportMetric_other_key [OF sp(5) ne, where v = "Number (Fin (c + shift_value e))"]
  show ?thesis using assms(2) r(1) sp(1,2) by (simp add: Let_def)
qed

lemma Mobile_cls_callback_total:
  "fst (snd (Mobile_cls_callback entries c m))
     = c + sum_list (map shift_value (filter (\<lambda>e. \<not> hadRecentInput e) entries))"
proof -
  have "foldl (\<lambda>c entry. if \<not> hadRecentInput entry then c + shift_value entry else c) c entries
          = c + sum_list (map shift_value (filter (\<lambda>e. \<not> hadRecentInput e) entries))"
    by (induction entries arbitrary: c) simp_all
  then show ?thesis
    by (simp add: Mobile_cls_callback_def Let_def split: prod.splits)
qed

lemma Mobile_cls_notifications_total:
  "fst (Mobile_cls_notifications ns c m)
     = c + sum_list (map shift_value (filter (\<lambda>e. \<not> hadRecentInput e) (concat ns)))"
proof (induction ns arbitrary: c m)
  case Nil
  then show ?case by simp
next
  case (Cons n ns)
  obtain x c' m' where r: "Mobile_cls_callback n c m = (x, c', m')"
    by (cases "Mobile_cls_callback n c m") auto
  then have "c' = c + sum_list (map shift_value (filter (\<lambda>e. \<not> hadRecentInput e) n))"
    using Mobile_cls_callback_total [of n c m] by simp
  with Cons.IH [of c' m'] r show ?case by simp
qed

subsection \<open>init\<close>

lemma init_twice: "init (snd (init w)) = (None, snd (init w))"
  by (simp add: init_def [of "snd (init w)"] init_isInitialized)

lemma init_running: "isInitialized w \<Longrightarrow> init w = (None, w)"
  by (simp add: init_def)

lemma try_observe_push:
  "\<not> observe_throws w t \<Longrightarrow>
   try_catch (observe_push t) h w
     = w\<lparr>next_handle := next_handle w + 1,
          subscriptions := subscriptions w @ [(next_handle w, t)],
          observers := observers w @ [next_handle w]\<rparr>"
  by (simp add: try_catch_def observe_push_def Let_def)

lemma Mobile_init_observers:
  assumes "has_PerformanceObserver m" and "\<forall>t. \<not> observe_throws m t"
  shows "observers (snd (Mobile_init m))
           = observers m @ [next_handle m, next_handle m + 1, next_handle m + 2]"
    and "map snd (subscriptions (snd (Mobile_init m)))
           = map snd (subscriptions m) @ [''largest-contentful-paint'', ''first-input'', ''layout-shift'']"
  using assms
  by (simp_all add: Mobile_init_def Mobile_setupPerformanceObserver_def setupNetworkObserver_def
        setupBatteryObserver_def setupMemoryObserver_def setupIntersectionObserver_def
        try_observe_push Let_def alloc_def set_prop_def split: option.splits hobj.splits)

lemma Mobile_init_plain:
  assumes "has_PerformanceObserver m" and "\<forall>t. \<not> observe_throws m t"
    and "navigator_connection m = None" and "has_memory m" and "\<not> has_IntersectionObserver m"
    and "\<not> has_getBattery m"
  shows "snd (Mobile_init m)
     = m\<lparr>intervals := intervals m @ [(next_handle m + 3, 30000)],
          next_handle := next_handle m + 4,
          subscriptions := subscriptions m @ [(next_handle m, ''largest-contentful-paint''),
             (next_handle m + 1, ''first-input''), (next_handle m + 2, ''layout-shift'')],
          observers := observers m @ [next_handle m, next_handle m + 1, next_handle m + 2],
          memoryCheckInterval := Some (next_handle m + 3)\<rparr>"
  using assms
  by (simp add: Mobile_init_def Mobile_setupPerformanceObserver_def setupNetworkObserver_def
        setupBatteryObserver_def setupMemoryObserver_def setupIntersectionObserver_def
        try_observe_push Let_def)

lemma observer_host_fields:
  "has_PerformanceObserver observer_host" "observe_throws observer_host = (\<lambda>t. False)"
  "navigator_connection observer_host = None" "has_memory observer_host"
  "\<not> has_IntersectionObserver observer_host" "next_handle observer_host = 1"
  "\<not> has_getBattery observer_host"
  "intervals observer_host = []" "subscriptions observer_host = []"
  "\<not> has_performWork observer_host" "node_env observer_host = ''test''"
  by (simp_all add: observer_host_def bare_host_def)

lemma Mobile_fields_facts:
  "has_PerformanceObserver (Mobile_fields h) = has_PerformanceObserver h"
  "observe_throws (Mobile_fields h) = observe_throws h"
  "navigator_connection (Mobile_fields h) = navigator_connection h"
  "has_memory (Mobile_fields h) = has_memory h"
  "has_IntersectionObserver (Mobile_fields h) = has_IntersectionObserver h"
  "has_getBattery (Mobile_fields h) = has_getBattery h"
  "next_handle (Mobile_fields h) = next_handle h"
  "intervals (Mobile_fields h) = intervals h"
  "subscriptions (Mobile_fields h) = subscriptions h"
  "observers (Mobile_fields h) = []"
  by (simp_all add: Mobile_fields_def alloc_def record_defs)

lemma mobile1_eq:
  "mobile1 = (Mobile_fields observer_host)
     \<lparr>intervals := [(4, 30000)], next_handle := 5,
      subscriptions := [(1, ''largest-contentful-paint''), (2, ''first-input''), (3, ''layout-shift'')],
      observers := [1, 2, 3], memoryCheckInterval := Some 4\<rparr>"
  unfolding mobile1_def new_MobilePerformanceMonitor_def
  by (subst Mobile_init_plain) (simp_all add: Mobile_fields_facts observer_host_fields)

lemma mobile1_again:
  "snd (Mobile_init mobile1) = mobile1
     \<lparr>intervals := [(4, 30000), (8, 30000)], next_handle := 9,
      subscriptions := [(1, ''largest-contentful-paint''), (2, ''first-input''), (3, ''layout-shift''),
         (5, ''largest-contentful-paint''), (6, ''first-input''), (7, ''layout-shift'')],
      observers := [1, 2, 3, 5, 6, 7], memoryCheckInterval := Some 8\<rparr>"
  by (subst Mobile_init_plain) (simp_all add: mobile1_eq Mobile_fields_facts observer_host_fields)

subsection \<open>destroy\<close>

lemma disconnect_all_shape:
  "\<exists>s c. disconnect_all hs w = w\<lparr>subscriptions := s, console := c\<rparr>"
proof (induction hs arbitrary: w)
  case Nil
  have "w = w\<lparr>subscriptions := subscriptions w, console := console w\<rparr>" by simp
  then show ?case by (metis disconnect_all.simps(1))
next
  case (Cons h hs)
  let ?w1 = "try_catch (disconnect h) (\<lambda>e. console_warn ''Failed to disconnect observer:'') w"
  obtain s1 c1 where w1: "?w1 = w\<lparr>subscriptions := s1, console := c1\<rparr>"
  proof (cases "disconnect_throws w h")
    case True
    then have "?w1 = w\<lparr>subscriptions := subscriptions w,
                 console := console w @ [ConsoleWarn ''Failed to disconnect observer:'']\<rparr>"
      by (simp add: try_catch_def disconnect_def console_warn_def)
    then show ?thesis using that by blast
  next
    case False
    then have "?w1 = w\<lparr>subscriptions := filter (\<lambda>(i, t). i \<noteq> h) (subscriptions w),
                 console := console w\<rparr>"
      by (simp add: try_catch_def disconnect_def)
    then show ?thesis using that by blast
  qed
  from Cons.IH [of ?w1] obtain s c where "disconnect_all hs ?w1 = ?w1\<lparr>subscriptions := s, console := c\<rparr>"
    by blast
  then have "disconnect_all (h # hs) w = w\<lparr>subscriptions := s, console := c\<rparr>"
    by (simp add: w1)
  then show ?case by blast
qed

lemma run_cleanups_shape:
  "\<exists>p l c. run_cleanups cs w = w\<lparr>performWork_patched := p, listeners := l, console := c\<rparr>"
proof (induction cs arbitrary: w)
  case Nil
  have "w = w\<lparr>performWork_patched := performWork_patched w, listeners := listeners w,
              console := console w\<rparr>" by simp
  then show ?case by (metis run_cleanups.simps(1))
next
  case (Cons x cs)
  let ?w1 = "try_catch (run_cleanup x) (\<lambda>e. console_warn ''Failed to execute cleanup function:'') w"
  have "\<exists>p l. ?w1 = w\<lparr>performWork_patched := p, listeners := l, console := console w\<rparr>"
  proof (cases x)
    case RestorePerformWork
    then have "?w1 = w\<lparr>performWork_patched := False, listeners := listeners w, console := console w\<rparr>"
      by (simp add: try_catch_def)
    then show ?thesis by blast
  next
    case RemoveNetworkListener
    then have "?w1 = w\<lparr>performWork_patched := performWork_patched w,
                 listeners := remove1 ''change'' (listeners w), console := console w\<rparr>"
      by (simp add: try_catch_def)
    then show ?thesis by blast
  next
    case RemoveBatteryListeners
    then have "?w1 = w\<lparr>performWork_patched := performWork_patched w,
                 listeners := remove1 ''chargingchange'' (remove1 ''levelchange'' (listeners w)),
                 console := console w\<rparr>"
      by (simp add: try_catch_def)
    then show ?thesis by blast
  qed
  then obtain p1 l1 where w1: "?w1 = w\<lparr>performWork_patched := p1, listeners := l1, console := console w\<rparr>"
    by blast
  from Cons.IH [of ?w1] obtain p l c
    where "run_cleanups cs ?w1 = ?w1\<lparr>performWork_patched := p, listeners := l, console := c\<rparr>"
    by blast
  then have "run_cleanups (x # cs) w = w\<lparr>performWork_patched := p, listeners := l, console := c\<rparr>"
    by (simp add: w1)
  then show ?case by blast
qed

lemma destroy_released:
  "observers (snd (destroy w)) = []"
  "cleanupFunctions (snd (destroy w)) = []"
  "memoryCheckInterval (snd (destroy w)) = None \<or> memoryCheckInterval (snd (destroy w)) = Some 0"
  "frameRateMonitor (snd (destroy w)) = None \<or> frameRateMonitor (snd (destroy w)) = Some 0"
  "memoryCheckInterval w \<noteq> Some 0 \<Longrightarrow> memoryCheckInterval (snd (destroy w)) = None"
proof -
  obtain s c where d: "disconnect_all (observers w) w = w\<lparr>subscriptions := s, console := c\<rparr>"
    using disconnect_all_shape by blast
  let ?w1 = "w\<lparr>subscriptions := s, console := c\<rparr>"
  let ?w2 = "clear_memoryCheckInterval ?w1"
  let ?w3 = "case frameRateMonitor ?w2 of
               Some h \<Rightarrow> (if h \<noteq> 0 then ?w2\<lparr>frameRateMonitor := None\<rparr> else ?w2)
             | None \<Rightarrow> ?w2"
  obtain p l c' where r: "run_cleanups (cleanupFunctions ?w3) ?w3
        = ?w3\<lparr>performWork_patched := p, listeners := l, console := c'\<rparr>"
    using run_cleanups_shape by blast
  show "observers (snd (destroy w)) = []" "cleanupFunctions (snd (destroy w)) = []"
    by (simp_all add: destroy_store)
  show "memoryCheckInterval (snd (destroy w)) = None \<or> memoryCheckInterval (snd (destroy w)) = Some 0"
    unfolding destroy_def Let_def d r
    by (auto simp add: clear_memoryCheckInterval_def alloc_def console_log_def
          split: option.splits)
  show "frameRateMonitor (snd (destroy w)) = None \<or> frameRateMonitor (snd (destroy w)) = Some 0"
    unfolding destroy_def Let_def d r
    by (auto simp add: clear_memoryCheckInterval_def alloc_def console_log_def
          split: option.splits)
  show "memoryCheckInterval w \<noteq> Some 0 \<Longrightarrow> memoryCheckInterval (snd (destroy w)) = None"
    unfolding destroy_def Let_def d r
    by (auto simp add: clear_memoryCheckInterval_def alloc_def console_log_def
          split: option.splits)
qed

lemma destroy_of_released:
  assumes "observers w = []" and "cleanupFunctions w = []"
    and "memoryCheckInterval w = None \<or> memoryCheckInterval w = Some 0"
    and "frameRateMonitor w = None \<or> frameRateMonitor w = Some 0"
  shows "memoryCheckInterval (snd (destroy w)) = memoryCheckInterval w"
    and "frameRateMonitor (snd (destroy w)) = frameRateMonitor w"
    and "subscriptions (snd (destroy w)) = subscriptions w"
    and "intervals (snd (destroy w)) = intervals w"
    and "listeners (snd (destroy w)) = listeners w"
    and "performWork_patched (snd (destroy w)) = performWork_patched w"
  using assms
  by (auto simp add: destroy_def Let_def clear_memoryCheckInterval_def alloc_def console_log_def)

lemma Mobile_destroy_store:
  "fst (Mobile_destroy w) = None"
  "lookup (heap (snd (Mobile_destroy w))) (metrics (snd (Mobile_destroy w))) = Some (HObj Map.empty)"
  "observers (snd (Mobile_destroy w)) = []"
  "cleanupFunctions (snd (Mobile_destroy w)) = []"
  by (simp_all add: Mobile_destroy_def Let_def alloc_def console_log_def lookup_app
        split: option.splits)

lemma Mobile_destroy_props:
  "props (metrics (snd (Mobile_destroy w))) (snd (Mobile_destroy w)) = Map.empty"
  by (simp add: props_def Mobile_destroy_store)

lemma disconnect_shape:
  "try_catch (disconnect h) (\<lambda>e. console_warn msg) w
     = (if disconnect_throws w h then w\<lparr>console := console w @ [ConsoleWarn msg]\<rparr>
        else w\<lparr>subscriptions := filter (\<lambda>(i, t). i \<noteq> h) (subscriptions w)\<rparr>)"
  by (simp add: try_catch_def disconnect_def console_warn_def)

lemma Mobile_destroy_released:
  "memoryCheckInterval (snd (Mobile_destroy w)) = None
     \<or> memoryCheckInterval (snd (Mobile_destroy w)) = Some 0"
  "batteryCheckInterval (snd (Mobile_destroy w)) = None
     \<or> batteryCheckInterval (snd (Mobile_destroy w)) = Some 0"
  "intersectionObserver (snd (Mobile_destroy w)) = intersectionObserver w"
  "intersectionObserver w = Some h \<Longrightarrow>
     disconnect_throws (snd (Mobile_destroy w)) h
     \<or> filter (\<lambda>(i, t). i \<noteq> h) (subscriptions (snd (Mobile_destroy w)))
          = subscriptions (snd (Mobile_destroy w))"
  "memoryCheckInterval w \<noteq> Some 0 \<Longrightarrow> memoryCheckInterval (snd (Mobile_destroy w)) = None"
proof -
  obtain s c where d: "disconnect_all (observers w) w = w\<lparr>subscriptions := s, console := c\<rparr>"
    using disconnect_all_shape by blast
  let ?w1 = "w\<lparr>subscriptions := s, console := c\<rparr>"
  let ?w2 = "case intersectionObserver ?w1 of
               Some h \<Rightarrow> try_catch (disconnect h)
                  (\<lambda>e. console_warn ''Failed to disconnect intersection observer:'') ?w1
             | None \<Rightarrow> ?w1"
  let ?w4 = "clear_batteryCheckInterval (clear_memoryCheckInterval ?w2)"
  obtain p l c' where r: "run_cleanups (cleanupFunctions ?w4) ?w4
        = ?w4\<lparr>performWork_patched := p, listeners := l, console := c'\<rparr>"
    using run_cleanups_shape by blast
  note defs = clear_memoryCheckInterval_def clear_batteryCheckInterval_def alloc_def
    console_log_def disconnect_shape
  show "memoryCheckInterval (snd (Mobile_destroy w)) = None
     \<or> memoryCheckInterval (snd (Mobile_destroy w)) = Some 0"
    unfolding Mobile_destroy_def Let_def d r
    by (auto simp add: defs split: option.splits)
  show "batteryCheckInterval (snd (Mobile_destroy w)) = None
     \<or> batteryCheckInterval (snd (Mobile_destroy w)) = Some 0"
    unfolding Mobile_destroy_def Let_def d r
    by (auto simp add: defs split: option.splits)
  show "intersectionObserver (snd (Mobile_destroy w)) = intersectionObserver w"
    unfolding Mobile_destroy_def Let_def d r
    by (auto simp add: defs split: option.splits)
  show "intersectionObserver w = Some h \<Longrightarrow>
     disconnect_throws (snd (Mobile_destroy w)) h
     \<or> filter (\<lambda>(i, t). i \<noteq> h) (subscriptions (snd (Mobile_destroy w)))
          = subscriptions (snd (Mobile_destroy w))"
    unfolding Mobile_destroy_def Let_def d r
    by (auto simp add: defs split: option.splits)
  show "memoryCheckInterval w \<noteq> Some 0 \<Longrightarrow> memoryCheckInterval (snd (Mobile_destroy w)) = None"
    unfolding Mobile_destroy_def Let_def d r
    by (auto simp add: defs split: option.splits)
qed

lemma Mobile_destroy_of_released:
  assumes "observers w = []" and "cleanupFunctions w = []"
    and "memoryCheckInterval w = None \<or> memoryCheckInterval w = Some 0"
    and "batteryCheckInterval w = None \<or> batteryCheckInterval w = Some 0"
    and "\<And>h. intersectionObserver w = Some h \<Longrightarrow>
           disconnect_throws w h
           \<or> filter (\<lambda>(i, t). i \<noteq> h) (subscriptions w) = subscriptions w"
  shows "memoryCheckInterval (snd (Mobile_destroy w)) = memoryCheckInterval w"
    and "batteryCheckInterval (snd (Mobile_destroy w)) = batteryCheckInterval w"
    and "subscriptions (snd (Mobile_destroy w)) = subscriptions w"
    and "intervals (snd (Mobile_destroy w)) = intervals w"
    and "listeners (snd (Mobile_destroy w)) = listeners w"
  using assms
  by (auto simp add: Mobile_destroy_def Let_def clear_memoryCheckInterval_def
        clear_batteryCheckInterval_def alloc_def console_log_def disconnect_shape
        split: option.splits)

lemma new_PerformanceMonitor_facts:
  "has_PerformanceObserver (new_PerformanceMonitor h) = has_PerformanceObserver h"
  "observe_throws (new_PerformanceMonitor h) = observe_throws h"
  "has_memory (new_PerformanceMonitor h) = has_memory h"
  "has_performWork (new_PerformanceMonitor h) = has_performWork h"
  "node_env (new_PerformanceMonitor h) = node_env h"
  "next_handle (new_PerformanceMonitor h) = next_handle h"
  "\<not> isInitialized (new_PerformanceMonitor h)"
  by (simp_all add: new_PerformanceMonitor_def alloc_def record_defs)

lemma try_observe_push2:
  "\<not> observe_throws w t1 \<Longrightarrow> \<not> observe_throws w t2 \<Longrightarrow>
   try_catch (and_then (observe_push t1) (observe_push t2)) h w
     = w\<lparr>next_handle := next_handle w + 2,
          subscriptions := subscriptions w @ [(next_handle w, t1), (next_handle w + 1, t2)],
          observers := observers w @ [next_handle w, next_handle w + 1]\<rparr>"
  by (simp add: try_catch_def and_then_def observe_push_def Let_def)

lemma init_memoryCheckInterval:
  assumes "\<not> isInitialized w" and "has_PerformanceObserver w" and "\<forall>t. \<not> observe_throws w t"
    and "has_memory w"
  shows "memoryCheckInterval (snd (init w)) = Some (next_handle w + 6)"
  using assms
  by (simp add: init_def init_try_def try_catch_def [of init_try] setupWebVitals_def
        setupPerformanceObserver_def setupResourceTiming_def setupUserTiming_def
        setupMemoryMonitoring_def try_observe_push try_observe_push2
        console_log_def Let_def)

subsection \<open>sendToAnalytics\<close>

lemma sendToAnalytics_returns: "fst (sendToAnalytics name v w) = None"
  by (simp add: sendToAnalytics_def)

lemma sendToAnalytics_console:
  "console (snd (sendToAnalytics name v w)) =
     (case fetch_behaviour w of
        Rejects t e \<Rightarrow>
          if t < 5000 \<and> e \<noteq> AbortError
          then console w @ [ConsoleWarn ''Failed to send performance data:'']
          else console w
      | _ \<Rightarrow> console w)"
  by (simp add: sendToAnalytics_def sendToAnalytics_try_def try_catch_def console_warn_def Let_def
      split: fetch_outcome.splits)

lemma sendToAnalytics_try_result:
  "fst (sendToAnalytics_try name v w) =
     (case fetch_behaviour w of
        Resolves t s \<Rightarrow> if t < 5000 then None else Some AbortError
      | Rejects t e \<Rightarrow> if t < 5000 then Some e else Some AbortError
      | NeverSettles \<Rightarrow> Some AbortError)"
  by (simp add: sendToAnalytics_try_def Let_def split: fetch_outcome.splits)

lemma sendToAnalytics_timeouts:
  "fetch_behaviour w = Rejects t e \<Longrightarrow> t < 5000 \<Longrightarrow>
   timeouts (snd (sendToAnalytics name v w)) = timeouts w @ [(next_handle w, 5000)]"
  by (simp add: sendToAnalytics_def sendToAnalytics_try_def try_catch_def console_warn_def Let_def)

lemma fetch_frame [simp]:
  "props a (w\<lparr>fetch_behaviour := f\<rparr>) = props a w"
  "array_at a (w\<lparr>fetch_behaviour := f\<rparr>) = array_at a w"
  "metrics_ok (w\<lparr>fetch_behaviour := f\<rparr>) = metrics_ok w"
  by (simp_all add: props_def array_at_def metrics_ok_def)

lemma store_cases:
  "inherits (props (metrics w) w) name
   \<or> (\<not> metrics_ok w \<and> \<not> truthy (props (metrics w) w name)
        \<and> \<not> inherits (props (metrics w) w) name)
   \<or> (metrics_ok w \<and> \<not> truthy (props (metrics w) w name)
        \<and> \<not> inherits (props (metrics w) w) name)
   \<or> (\<exists>a xs. props (metrics w) w name = Some (PRef a) \<and> array_at a w = Some xs)
   \<or> (\<exists>x. props (metrics w) w name = Some (PNum x) \<and> truthy (Some (PNum x)))
   \<or> (\<exists>a. props (metrics w) w name = Some (PRef a) \<and> array_at a w = None)"
proof (cases "props (metrics w) w name")
  case None
  then show ?thesis by (cases "metrics_ok w") auto
next
  case (Some p)
  then have ni: "\<not> inherits (props (metrics w) w) name" by (rule inherits_own)
  show ?thesis
  proof (cases p)
    case (PNum x)
    with Some ni show ?thesis by (cases "truthy (Some (PNum x))"; cases "metrics_ok w") auto
  next
    case (PRef a)
    with Some show ?thesis by (cases "array_at a w") auto
  qed
qed

lemma reportMetric_try_not_ok:
  assumes "\<not> metrics_ok w" and "\<not> truthy (props (metrics w) w name)"
    and "\<not> inherits (props (metrics w) w) name"
  shows "reportMetric_try name v w = (Some TypeError, w\<lparr>heap := heap w @ [HArr []]\<rparr>)"
proof -
  let ?w1 = "w\<lparr>heap := heap w @ [HArr []]\<rparr>"
  have n: "\<forall>ps. lookup (heap ?w1) (metrics w) \<noteq> Some (HObj ps)"
    using assms(1) by (auto simp add: metrics_ok_def lookup_app split: option.splits hobj.splits)
  then have s: "set_prop (metrics w) name (PRef (length (heap w))) ?w1 = ?w1"
    by (auto simp add: set_prop_def split: option.splits hobj.splits)
  have e1: "props (metrics w) ?w1 = props (metrics w) w"
    by (auto simp add: props_def lookup_def nth_append)
  show ?thesis
  proof (cases "props (metrics w) w name")
    case None
    with assms(3) show ?thesis by (simp add: reportMetric_try_def alloc_def s e1)
  next
    case (Some p)
    with assms(2) obtain x where "p = PNum x" by (cases p) auto
    with Some assms(2,3) show ?thesis by (simp add: reportMetric_try_def alloc_def s e1)
  qed
qed

lemma reportMetric_not_ok:
  assumes "\<not> metrics_ok w" and "\<not> truthy (props (metrics w) w name)"
    and "\<not> inherits (props (metrics w) w) name"
  shows "heap (snd (reportMetric name v w)) = heap w @ [HArr []]"
    and "metrics (snd (reportMetric name v w)) = metrics w"
    and "date_now (snd (reportMetric name v w)) = date_now w"
  using reportMetric_try_not_ok [OF assms, of v]
  by (simp_all add: reportMetric_def try_catch_def console_warn_def)

lemma reportMetric_heap_fetch:
  "heap (snd (reportMetric name v (w\<lparr>fetch_behaviour := f\<rparr>))) = heap (snd (reportMetric name v w))
   \<and> metrics (snd (reportMetric name v (w\<lparr>fetch_behaviour := f\<rparr>)))
       = metrics (snd (reportMetric name v w))"
proof -
  let ?w' = "w\<lparr>fetch_behaviour := f\<rparr>"
  consider (inh) "inherits (props (metrics w) w) name"
    | (nok) "\<not> metrics_ok w" "\<not> truthy (props (metrics w) w name)"
        "\<not> inherits (props (metrics w) w) name"
    | (fresh) "metrics_ok w" "\<not> truthy (props (metrics w) w name)"
        "\<not> inherits (props (metrics w) w) name"
    | (series) a xs where "props (metrics w) w name = Some (PRef a)" "array_at a w = Some xs"
    | (scalar) x where "props (metrics w) w name = Some (PNum x)" "truthy (Some (PNum x))"
    | (noarray) a where "props (metrics w) w name = Some (PRef a)" "array_at a w = None"
    using store_cases [of w name] by blast
  then show ?thesis
  proof cases
    case inh
    then have i': "inherits (props (metrics ?w') ?w') name" by simp
    from reportMetric_inherited [OF inh] reportMetric_inherited [OF i'] show ?thesis
      by (simp add: console_warn_def)
  next
    case nok
    then have n': "\<not> metrics_ok ?w'" "\<not> truthy (props (metrics ?w') ?w' name)"
        "\<not> inherits (props (metrics ?w') ?w') name" by simp_all
    from reportMetric_not_ok(1,2) [OF n'] reportMetric_not_ok(1,2) [OF nok] show ?thesis by simp
  next
    case fresh
    from fresh(1) obtain ps where ps: "lookup (heap w) (metrics w) = Some (HObj ps)"
      using metrics_okE by blast
    with fresh(2,3) have f: "\<not> truthy (ps name)" and g: "\<not> inherits ps name"
      by (simp_all add: props_def)
    have ps': "lookup (heap ?w') (metrics ?w') = Some (HObj ps)" using ps by simp
    from reportMetric_fresh [OF ps f g] reportMetric_fresh [OF ps' f g] show ?thesis by simp
  next
    case series
    have p': "props (metrics ?w') ?w' name = Some (PRef a)" and x': "array_at a ?w' = Some xs"
      using series by simp_all
    from reportMetric_array [OF series] reportMetric_array [OF p' x'] show ?thesis by simp
  next
    case scalar
    have p': "props (metrics ?w') ?w' name = Some (PNum x)" using scalar by simp
    from reportMetric_scalar [OF scalar] reportMetric_scalar [OF p' scalar(2)] show ?thesis
      by (simp add: console_warn_def)
  next
    case noarray
    have p': "props (metrics ?w') ?w' name = Some (PRef a)" and x': "array_at a ?w' = None"
      using noarray by simp_all
    from reportMetric_no_array [OF noarray] reportMetric_no_array [OF p' x'] show ?thesis
      by (simp add: console_warn_def)
  qed
qed

lemma monitor0_host:
  "console monitor0 = []" "timeouts monitor0 = []" "next_handle monitor0 = 1"
  by (simp_all add: monitor0_def new_PerformanceMonitor_def bare_host_def alloc_def record_defs)

subsection \<open>getMetrics\<close>

lemma reportMetric_array_date:
  assumes "props (metrics w) w name = Some (PRef a)" and "array_at a w = Some xs"
  shows "date_now (snd (reportMetric name v w)) = date_now w"
  using assms
  by (simp add: reportMetric_def reportMetric_try_def try_catch_def console_warn_def
        console_log_def sendToAnalytics_def sendToAnalytics_try_def Let_def inherits_def
      split: option.splits callable.splits fetch_outcome.splits)

lemma reportMetric_fresh_date:
  assumes "lookup (heap w) (metrics w) = Some (HObj ps)" and "\<not> truthy (ps name)"
    and "\<not> inherits ps name"
  shows "date_now (snd (reportMetric name v w)) = date_now w"
proof -
  from assms(3) have k: "\<not> (name = ''__proto__'' \<and> ps name = None)"
    by (auto simp add: inherits_def proto_names_def)
  show ?thesis
    using assms k
    by (auto simp add: reportMetric_def reportMetric_try_def try_catch_def console_warn_def
          console_log_def sendToAnalytics_def sendToAnalytics_try_def Let_def alloc_def
          set_prop_def props_def array_at_def lookup_def nth_append list_update_append
        split: option.splits callable.splits hobj.splits if_splits fetch_outcome.splits)
qed

lemma reportMetric_date_now: "date_now (snd (reportMetric name v w)) = date_now w"
proof -
  consider (inh) "inherits (props (metrics w) w) name"
    | (nok) "\<not> metrics_ok w" "\<not> truthy (props (metrics w) w name)"
        "\<not> inherits (props (metrics w) w) name"
    | (fresh) "metrics_ok w" "\<not> truthy (props (metrics w) w name)"
        "\<not> inherits (props (metrics w) w) name"
    | (series) a xs where "props (metrics w) w name = Some (PRef a)" "array_at a w = Some xs"
    | (scalar) x where "props (metrics w) w name = Some (PNum x)" "truthy (Some (PNum x))"
    | (noarray) a where "props (metrics w) w name = Some (PRef a)" "array_at a w = None"
    using store_cases [of w name] by blast
  then show ?thesis
  proof cases
    case inh
    from reportMetric_inherited [OF inh] show ?thesis by (simp add: console_warn_def)
  next
    case nok
    then show ?thesis by (rule reportMetric_not_ok(3))
  next
    case fresh
    from fresh(1) obtain qs where qs: "lookup (heap w) (metrics w) = Some (HObj qs)"
      using metrics_okE by blast
    with fresh(2,3) have f: "\<not> truthy (qs name)" and g: "\<not> inherits qs name"
      by (simp_all add: props_def)
    from reportMetric_fresh_date [OF qs f g] show ?thesis .
  next
    case series
    from reportMetric_array_date [OF series] show ?thesis .
  next
    case scalar
    from reportMetric_scalar [OF scalar] show ?thesis by (simp add: console_warn_def)
  next
    case noarray
    from reportMetric_no_array [OF noarray] show ?thesis by (simp add: console_warn_def)
  qed
qed

lemma reportMetric_metrics: "metrics (snd (reportMetric name v w)) = metrics w"
proof -
  consider (inh) "inherits (props (metrics w) w) name"
    | (nok) "\<not> metrics_ok w" "\<not> truthy (props (metrics w) w name)"
        "\<not> inherits (props (metrics w) w) name"
    | (fresh) "metrics_ok w" "\<not> truthy (props (metrics w) w name)"
        "\<not> inherits (props (metrics w) w) name"
    | (series) a xs where "props (metrics w) w name = Some (PRef a)" "array_at a w = Some xs"
    | (scalar) x where "props (metrics w) w name = Some (PNum x)" "truthy (Some (PNum x))"
    | (noarray) a where "props (metrics w) w name = Some (PRef a)" "array_at a w = None"
    using store_cases [of w name] by blast
  then show ?thesis
  proof cases
    case inh
    from reportMetric_inherited [OF inh] show ?thesis by simp
  next
    case nok
    then show ?thesis by (rule reportMetric_not_ok(2))
  next
    case fresh
    then show ?thesis by (rule reportMetric_fresh_series(2))
  next
    case series
    from reportMetric_array(2) [OF series] show ?thesis .
  next
    case scalar
    from reportMetric_scalar [OF scalar] show ?thesis by simp
  next
    case noarray
    from reportMetric_no_array [OF noarray] show ?thesis by simp
  qed
qed

lemma reportMetric_keeps_object:
  assumes b: "lookup (heap w) b = Some (HObj ps)" and ne: "b \<noteq> metrics w"
  shows "lookup (heap (snd (reportMetric name v w))) b = Some (HObj ps)"
proof -
  from b have lt: "b < length (heap w)" by (rule lookup_lt)
  consider (inh) "inherits (props (metrics w) w) name"
    | (nok) "\<not> metrics_ok w" "\<not> truthy (props (metrics w) w name)"
        "\<not> inherits (props (metrics w) w) name"
    | (fresh) "metrics_ok w" "\<not> truthy (props (metrics w) w name)"
        "\<not> inherits (props (metrics w) w) name"
    | (series) a xs where "props (metrics w) w name = Some (PRef a)" "array_at a w = Some xs"
    | (scalar) x where "props (metrics w) w name = Some (PNum x)" "truthy (Some (PNum x))"
    | (noarray) a where "props (metrics w) w name = Some (PRef a)" "array_at a w = None"
    using store_cases [of w name] by blast
  then show ?thesis
  proof cases
    case inh
    from reportMetric_inherited [OF inh] b show ?thesis by (simp add: console_warn_def)
  next
    case nok
    from reportMetric_not_ok(1) [OF nok] b lt show ?thesis by (simp add: lookup_app)
  next
    case fresh
    from fresh(1) obtain qs where qs: "lookup (heap w) (metrics w) = Some (HObj qs)"
      using metrics_okE by blast
    with fresh(2,3) have f: "\<not> truthy (qs name)" and g: "\<not> inherits qs name"
      by (simp_all add: props_def)
    from reportMetric_fresh(1) [OF qs f g] b lt ne show ?thesis
      by (simp add: lookup_app lookup_upd)
  next
    case series
    from series(2) b have "a \<noteq> b" by (auto simp add: array_at_def)
    with reportMetric_array(1) [OF series] b show ?thesis by (simp add: lookup_upd)
  next
    case scalar
    from reportMetric_scalar [OF scalar] b show ?thesis by (simp add: console_warn_def)
  next
    case noarray
    from reportMetric_no_array [OF noarray] b show ?thesis by (simp add: console_warn_def)
  qed
qed

lemma getMetrics_copy:
  assumes ok: "metrics_ok w"
  shows "fst (getMetrics w) = length (heap w)"
    and "fst (getMetrics w) \<noteq> metrics w"
    and "metrics (snd (getMetrics w)) = metrics w"
    and "heap (snd (getMetrics w)) = heap w @ [HObj (props (metrics w) w)]"
    and "props (length (heap w)) (snd (getMetrics w)) = props (metrics w) w"
    and "props (metrics w) (snd (getMetrics w)) = props (metrics w) w"
    and "array_at a (snd (getMetrics w)) = array_at a w"
proof -
  from ok obtain ps where ps: "lookup (heap w) (metrics w) = Some (HObj ps)"
    using metrics_okE by blast
  then have lt: "metrics w < length (heap w)" by (rule lookup_lt)
  show "fst (getMetrics w) = length (heap w)" by (simp add: getMetrics_def alloc_def)
  show "fst (getMetrics w) \<noteq> metrics w" using lt by (simp add: getMetrics_def alloc_def)
  show "metrics (snd (getMetrics w)) = metrics w" by (simp add: getMetrics_def alloc_def)
  show "heap (snd (getMetrics w)) = heap w @ [HObj (props (metrics w) w)]"
    by (simp add: getMetrics_def alloc_def)
  show "props (length (heap w)) (snd (getMetrics w)) = props (metrics w) w"
    by (simp add: getMetrics_def alloc_def props_def lookup_app)
  show "props (metrics w) (snd (getMetrics w)) = props (metrics w) w"
    using lt by (simp add: getMetrics_def alloc_def props_def lookup_app)
  show "array_at a (snd (getMetrics w)) = array_at a w"
    by (auto simp add: getMetrics_def alloc_def array_at_def lookup_app lookup_ge)
qed

lemma snapshot0_facts:
  "fst (getMetrics recorded0) = 2"
  "metrics_ok (snd (getMetrics recorded0))"
  "metrics (snd (getMetrics recorded0)) = 0"
  "props 0 (snd (getMetrics recorded0)) = [''render'' \<mapsto> PRef 1]"
  "props 2 (snd (getMetrics recorded0)) = [''render'' \<mapsto> PRef 1]"
  "array_at (Suc 0) (snd (getMetrics recorded0)) = Some [Sample (Number (Fin 1)) 0]"
  "date_now (snd (getMetrics recorded0)) = 0"
proof -
  note g = getMetrics_copy [OF recorded0_facts(1)]
  show "fst (getMetrics recorded0) = 2" using g(1) by (simp add: recorded0_facts)
  show "metrics (snd (getMetrics recorded0)) = 0" using g(3) by (simp add: recorded0_facts)
  show "props 0 (snd (getMetrics recorded0)) = [''render'' \<mapsto> PRef 1]"
    using g(6) by (simp add: recorded0_facts)
  show "props 2 (snd (getMetrics recorded0)) = [''render'' \<mapsto> PRef 1]"
    using g(5) by (simp add: recorded0_facts)
  show "array_at (Suc 0) (snd (getMetrics recorded0)) = Some [Sample (Number (Fin 1)) 0]"
    using g(7) [of "Suc 0"] by (simp add: recorded0_facts)
  show "metrics_ok (snd (getMetrics recorded0))"
    using recorded0_facts(1) g(3,4) metrics_okE [OF recorded0_facts(1)]
    by (auto simp add: metrics_ok_def lookup_app dest: lookup_lt)
  have "date_now recorded0 = date_now monitor0"
    unfolding recorded0_def by (rule reportMetric_date_now)
  then show "date_now (snd (getMetrics recorded0)) = 0"
    by (simp add: getMetrics_def alloc_def date_now0)
qed

subsection \<open>Calls that store nothing\<close>

lemma last_n_drop: "n \<le> length ys \<Longrightarrow> last_n n (xs @ ys) = drop (length ys - n) ys"
  by (simp add: last_n_def)

lemma reportMetric_fails:
  assumes "inherits (props (metrics w) w) name
     \<or> (\<exists>x. props (metrics w) w name = Some (PNum x) \<and> truthy (Some (PNum x)))
     \<or> (\<exists>a. props (metrics w) w name = Some (PRef a) \<and> array_at a w = None)"
  shows "snd (reportMetric name v w) = console_warn ''Failed to report metric:'' w"
  using assms reportMetric_inherited [of w name v] reportMetric_scalar [of w name _ v]
    reportMetric_no_array [of w name _ v]
  by blast

lemma record_all_fails:
  assumes "inherits (props (metrics w) w) name
     \<or> (\<exists>x. props (metrics w) w name = Some (PNum x) \<and> truthy (Some (PNum x)))
     \<or> (\<exists>a. props (metrics w) w name = Some (PRef a) \<and> array_at a w = None)"
  shows "heap (record_all name svs w) = heap w \<and> metrics (record_all name svs w) = metrics w"
  using assms
proof (induction svs arbitrary: w)
  case Nil
  show ?case by simp
next
  case (Cons sv svs)
  obtain t v where sv: "sv = (t, v)" by (cases sv)
  let ?w0 = "w\<lparr>date_now := t\<rparr>"
  let ?w1 = "console_warn ''Failed to report metric:'' ?w0"
  have f0: "inherits (props (metrics ?w0) ?w0) name
     \<or> (\<exists>x. props (metrics ?w0) ?w0 name = Some (PNum x) \<and> truthy (Some (PNum x)))
     \<or> (\<exists>a. props (metrics ?w0) ?w0 name = Some (PRef a) \<and> array_at a ?w0 = None)"
    using Cons.prems by simp
  have s: "snd (reportMetric name v ?w0) = ?w1" by (rule reportMetric_fails [OF f0])
  have f1: "inherits (props (metrics ?w1) ?w1) name
     \<or> (\<exists>x. props (metrics ?w1) ?w1 name = Some (PNum x) \<and> truthy (Some (PNum x)))
     \<or> (\<exists>a. props (metrics ?w1) ?w1 name = Some (PRef a) \<and> array_at a ?w1 = None)"
    using Cons.prems by simp
  from Cons.IH [OF f1] show ?case by (simp add: sv s)
qed

lemma logMetric_scalar:
  assumes "props (metrics w) w name = Some (PNum x)" and "truthy (Some (PNum x))"
  shows "logMetric name v w = (Some TypeError, w)"
  using assms by (simp add: logMetric_def Let_def inherits_def)

lemma logMetric_no_array:
  assumes "props (metrics w) w name = Some (PRef a)" and "array_at a w = None"
  shows "logMetric name v w = (Some TypeError, w)"
  using assms by (simp add: logMetric_def Let_def inherits_def)

lemma logMetric_fails:
  assumes "inherits (props (metrics w) w) name
     \<or> (\<exists>x. props (metrics w) w name = Some (PNum x) \<and> truthy (Some (PNum x)))
     \<or> (\<exists>a. props (metrics w) w name = Some (PRef a) \<and> array_at a w = None)"
  shows "logMetric name v w = (Some TypeError, w)"
  using assms logMetric_inherited [of w name v] logMetric_scalar [of w name _ v]
    logMetric_no_array [of w name _ v]
  by blast

lemma log_all_fails:
  assumes "inherits (props (metrics w) w) name
     \<or> (\<exists>x. props (metrics w) w name = Some (PNum x) \<and> truthy (Some (PNum x)))
     \<or> (\<exists>a. props (metrics w) w name = Some (PRef a) \<and> array_at a w = None)"
  shows "heap (log_all name svs w) = heap w \<and> metrics (log_all name svs w) = metrics w"
  using assms
proof (induction svs arbitrary: w)
  case Nil
  show ?case by simp
next
  case (Cons sv svs)
  obtain t v where sv: "sv = (t, v)" by (cases sv)
  let ?w0 = "w\<lparr>date_now := t\<rparr>"
  have f0: "inherits (props (metrics ?w0) ?w0) name
     \<or> (\<exists>x. props (metrics ?w0) ?w0 name = Some (PNum x) \<and> truthy (Some (PNum x)))
     \<or> (\<exists>a. props (metrics ?w0) ?w0 name = Some (PRef a) \<and> array_at a ?w0 = None)"
    using Cons.prems by simp
  have s: "logMetric name v ?w0 = (Some TypeError, ?w0)" by (rule logMetric_fails [OF f0])
  from Cons.IH [OF f0] show ?case by (simp add: sv s)
qed

lemma resource_entry_fails:
  assumes "initiatorType e = ''img'' \<or> initiatorType e = ''video''"
    and "(\<exists>x. props (metrics w) w ''resources'' = Some (PNum x) \<and> truthy (Some (PNum x)))
     \<or> (\<exists>a. props (metrics w) w ''resources'' = Some (PRef a) \<and> array_at a w = None)"
  shows "resource_entry e w = (Some TypeError, w)"
  using assms by (auto simp add: resource_entry_def Let_def)

lemma resource_callback_fails:
  assumes "filter (\<lambda>e. initiatorType e = ''img'' \<or> initiatorType e = ''video'') es \<noteq> []"
    and "(\<exists>x. props (metrics w) w ''resources'' = Some (PNum x) \<and> truthy (Some (PNum x)))
     \<or> (\<exists>a. props (metrics w) w ''resources'' = Some (PRef a) \<and> array_at a w = None)"
  shows "resource_callback es w = (Some TypeError, w)"
  using assms(1)
proof (induction es)
  case Nil
  then show ?case by simp
next
  case (Cons e es)
  show ?case
  proof (cases "initiatorType e = ''img'' \<or> initiatorType e = ''video''")
    case True
    from resource_entry_fails [OF True assms(2)] show ?thesis by (simp add: and_then_def)
  next
    case False
    then have "resource_entry e w = (None, w)" by (simp add: resource_entry_other)
    then have step: "resource_callback (e # es) w = resource_callback es w"
      by (simp add: and_then_def)
    from False Cons.prems
    have "filter (\<lambda>e. initiatorType e = ''img'' \<or> initiatorType e = ''video'') es \<noteq> []" by simp
    from Cons.IH [OF this] show ?thesis unfolding step .
  qed
qed

lemma resourced0_facts:
  "metrics_ok resourced0" "metrics resourced0 = 0"
  "props 0 resourced0 = [''resources'' \<mapsto> PRef 1]"
  "array_at (Suc 0) resourced0 = Some [resource_element img_entry]"
proof -
  have media: "initiatorType img_entry = ''img'' \<or> initiatorType img_entry = ''video''"
    by (simp add: img_entry_def)
  have f: "\<not> truthy (props (metrics monitor0) monitor0 ''resources'')"
    by (simp add: monitor0_facts)
  note s = resource_entry_fresh_series [OF media monitor0_facts(1) f]
  show "metrics_ok resourced0" using s(1) by (simp add: resourced0_def)
  show "metrics resourced0 = 0" using s(2) by (simp add: resourced0_def monitor0_facts)
  show "props 0 resourced0 = [''resources'' \<mapsto> PRef 1]"
    using s(3) by (simp add: resourced0_def monitor0_facts)
  show "array_at (Suc 0) resourced0 = Some [resource_element img_entry]"
    using s(4) by (simp add: resourced0_def monitor0_facts)
qed

lemma work_monitor0:
  "work monitor0 = (Inr 42, monitor0\<lparr>perf_now := perf_now monitor0 + 5\<rparr>)"
  "metrics_ok (monitor0\<lparr>perf_now := perf_now monitor0 + 5\<rparr>)"
  "0 < perf_now (monitor0\<lparr>perf_now := perf_now monitor0 + 5\<rparr>) - perf_now monitor0"
  by (simp_all add: work_def monitor0_facts)

lemma measured0_facts:
  "metrics measured0 = 0" "length (heap measured0) = 1"
  "props 0 measured0 = [''resources'' \<mapsto> PNum (Fin 5)]"
proof -
  let ?w1 = "monitor0\<lparr>perf_now := perf_now monitor0 + 5\<rparr>"
  have np: "''resources'' \<noteq> ''__proto__'' \<or> props (metrics ?w1) ?w1 ''resources'' \<noteq> None"
    by simp
  note sp = set_prop_ok [OF work_monitor0(2) np, where v = "PNum (Fin 5)"]
  have e: "measured0 = console_warn ''Failed to report metric:''
             (set_prop (metrics ?w1) ''resources'' (PNum (Fin 5)) ?w1)"
    using measure_scalar [of work monitor0 42 ?w1 "''resources''", OF work_monitor0 np]
    by (simp add: measured0_def)
  show "metrics measured0 = 0" using sp(2) by (simp add: e monitor0_facts)
  show "length (heap measured0) = 1" using sp(4) by (simp add: e monitor0_facts)
  show "props 0 measured0 = [''resources'' \<mapsto> PNum (Fin 5)]"
    using sp(1) by (simp add: e monitor0_facts)
qed

subsection \<open>init and destroy, field by field\<close>

lemma setupWebVitals_frame [simp]:
  "heap (setupWebVitals w) = heap w" "metrics (setupWebVitals w) = metrics w"
  "date_now (setupWebVitals w) = date_now w"
  "has_PerformanceObserver (setupWebVitals w) = has_PerformanceObserver w"
  "observe_throws (setupWebVitals w) = observe_throws w"
  by (simp_all add: setupWebVitals_def try_catch_def observe_push_def console_warn_def Let_def)

lemma setupPerformanceObserver_frame [simp]:
  "heap (setupPerformanceObserver w) = heap w"
  "metrics (setupPerformanceObserver w) = metrics w"
  "date_now (setupPerformanceObserver w) = date_now w"
  "has_PerformanceObserver (setupPerformanceObserver w) = has_PerformanceObserver w"
  "observe_throws (setupPerformanceObserver w) = observe_throws w"
  by (simp_all add: setupPerformanceObserver_def try_catch_def and_then_def observe_push_def
        console_warn_def Let_def)

lemma setupResourceTiming_frame [simp]:
  "heap (setupResourceTiming w) = heap w" "metrics (setupResourceTiming w) = metrics w"
  "date_now (setupResourceTiming w) = date_now w"
  "has_PerformanceObserver (setupResourceTiming w) = has_PerformanceObserver w"
  "observe_throws (setupResourceTiming w) = observe_throws w"
  by (simp_all add: setupResourceTiming_def try_catch_def observe_push_def console_warn_def Let_def)

lemma setupUserTiming_frame [simp]:
  "heap (setupUserTiming w) = heap w" "metrics (setupUserTiming w) = metrics w"
  "date_now (setupUserTiming w) = date_now w"
  "has_PerformanceObserver (setupUserTiming w) = has_PerformanceObserver w"
  "observe_throws (setupUserTiming w) = observe_throws w"
  by (simp_all add: setupUserTiming_def)

lemma setupMemoryMonitoring_frame [simp]:
  "heap (setupMemoryMonitoring w) = heap w" "metrics (setupMemoryMonitoring w) = metrics w"
  "date_now (setupMemoryMonitoring w) = date_now w"
  "has_PerformanceObserver (setupMemoryMonitoring w) = has_PerformanceObserver w"
  "observe_throws (setupMemoryMonitoring w) = observe_throws w"
  by (simp_all add: setupMemoryMonitoring_def Let_def)

lemma init_frame:
  "heap (snd (init w)) = heap w" "metrics (snd (init w)) = metrics w"
  "date_now (snd (init w)) = date_now w"
  "has_PerformanceObserver (snd (init w)) = has_PerformanceObserver w"
  "observe_throws (snd (init w)) = observe_throws w"
  by (simp_all add: init_def init_try_def try_catch_def [of init_try] console_log_def Let_def)

lemma init_store:
  "metrics_ok (snd (init w)) = metrics_ok w"
  "props a (snd (init w)) = props a w"
  by (simp_all add: metrics_ok_def props_def init_frame)

lemma init_observers:
  assumes "\<not> isInitialized w" and "has_PerformanceObserver w" and "\<forall>t. \<not> observe_throws w t"
  shows "observers (snd (init w))
           = observers w @ [next_handle w, next_handle w + 1, next_handle w + 2,
                            next_handle w + 3, next_handle w + 4, next_handle w + 5]"
    and "subscriptions (snd (init w))
           = subscriptions w @ [(next_handle w, ''largest-contentful-paint''),
               (next_handle w + 1, ''first-input''), (next_handle w + 2, ''layout-shift''),
               (next_handle w + 3, ''navigation''), (next_handle w + 4, ''paint''),
               (next_handle w + 5, ''resource'')]"
    and "next_handle (snd (init w)) = next_handle w + (if has_memory w then 7 else 6)"
  using assms
  by (simp_all add: init_def init_try_def try_catch_def [of init_try] setupWebVitals_def
        setupPerformanceObserver_def setupResourceTiming_def setupUserTiming_def
        setupMemoryMonitoring_def try_observe_push try_observe_push2
        console_log_def Let_def)

lemma destroy_host:
  "has_PerformanceObserver (snd (destroy w)) = has_PerformanceObserver w"
  "observe_throws (snd (destroy w)) = observe_throws w"
  "has_memory (snd (destroy w)) = has_memory w"
  "next_handle (snd (destroy w)) = next_handle w"
  "date_now (snd (destroy w)) = date_now w"
  "heap (snd (destroy w)) = heap w @ [HObj Map.empty]"
  "metrics (snd (destroy w)) = length (heap w)"
proof -
  obtain s c where d: "disconnect_all (observers w) w = w\<lparr>subscriptions := s, console := c\<rparr>"
    using disconnect_all_shape by blast
  let ?w1 = "w\<lparr>subscriptions := s, console := c\<rparr>"
  let ?w2 = "clear_memoryCheckInterval ?w1"
  let ?w3 = "case frameRateMonitor ?w2 of
               Some h \<Rightarrow> (if h \<noteq> 0 then ?w2\<lparr>frameRateMonitor := None\<rparr> else ?w2)
             | None \<Rightarrow> ?w2"
  obtain p l c' where r: "run_cleanups (cleanupFunctions ?w3) ?w3
        = ?w3\<lparr>performWork_patched := p, listeners := l, console := c'\<rparr>"
    using run_cleanups_shape by blast
  show "has_PerformanceObserver (snd (destroy w)) = has_PerformanceObserver w"
    "observe_throws (snd (destroy w)) = observe_throws w"
    "has_memory (snd (destroy w)) = has_memory w"
    "next_handle (snd (destroy w)) = next_handle w"
    "date_now (snd (destroy w)) = date_now w"
    "heap (snd (destroy w)) = heap w @ [HObj Map.empty]"
    "metrics (snd (destroy w)) = length (heap w)"
    unfolding destroy_def Let_def d r
    by (auto simp add: clear_memoryCheckInterval_def alloc_def console_log_def
          split: option.splits)
qed

lemma monitor1_facts:
  "\<not> isInitialized monitor1" "has_PerformanceObserver monitor1"
  "observe_throws monitor1 = (\<lambda>t. False)" "has_memory monitor1" "next_handle monitor1 = 1"
  "observers monitor1 = []" "length (heap monitor1) = 1" "date_now monitor1 = 0"
  by (simp_all add: monitor1_def new_PerformanceMonitor_facts observer_host_fields
        new_PerformanceMonitor_def alloc_def record_defs observer_host_def bare_host_def)

lemma running1_facts:
  "isInitialized running1" "has_PerformanceObserver running1"
  "observe_throws running1 = (\<lambda>t. False)" "has_memory running1"
  "observers running1 = [1, 2, 3, 4, 5, 6]" "next_handle running1 = 8"
  "length (heap running1) = 1" "date_now running1 = 0"
proof -
  have nt: "\<forall>t. \<not> observe_throws monitor1 t" by (simp add: monitor1_facts)
  note o = init_observers [OF monitor1_facts(1,2) nt]
  show "isInitialized running1" by (simp add: running1_def init_isInitialized)
  show "has_PerformanceObserver running1" "observe_throws running1 = (\<lambda>t. False)"
    "length (heap running1) = 1" "date_now running1 = 0"
    by (simp_all add: running1_def init_frame monitor1_facts)
  show "has_memory running1"
    using init_memoryCheckInterval [OF monitor1_facts(1,2) nt monitor1_facts(4)]
    by (simp add: running1_def init_def init_try_def try_catch_def [of init_try]
          setupWebVitals_def setupPerformanceObserver_def setupResourceTiming_def
          setupUserTiming_def setupMemoryMonitoring_def try_observe_push try_observe_push2
          console_log_def Let_def monitor1_facts)
  show "observers running1 = [1, 2, 3, 4, 5, 6]"
    using o(1) by (simp add: running1_def monitor1_facts)
  show "next_handle running1 = 8"
    using o(3) by (simp add: running1_def monitor1_facts)
qed

lemma reused1_facts:
  "observers (snd (destroy running1)) = []"
  "\<not> isInitialized (snd (destroy running1))"
  "isInitialized (snd (init (snd (destroy running1))))"
  "observers (snd (init (snd (destroy running1)))) = [8, 9, 10, 11, 12, 13]"
  "length (heap (snd (destroy running1))) = 2"
  "date_now (snd (destroy running1)) = 0"
proof -
  let ?d = "snd (destroy running1)"
  have ni: "\<not> isInitialized ?d" by (simp add: destroy_store)
  have po: "has_PerformanceObserver ?d" by (simp add: destroy_host running1_facts)
  have nt: "\<forall>t. \<not> observe_throws ?d t" by (simp add: destroy_host running1_facts)
  note o = init_observers [OF ni po nt]
  show "observers ?d = []" by (simp add: destroy_store)
  show "\<not> isInitialized ?d" by (rule ni)
  show "isInitialized (snd (init ?d))" by (rule init_isInitialized)
  show "observers (snd (init ?d)) = [8, 9, 10, 11, 12, 13]"
    using o(1) by (simp add: destroy_store destroy_host running1_facts)
  show "length (heap ?d) = 2" by (simp add: destroy_host running1_facts)
  show "date_now ?d = 0" by (simp add: destroy_host running1_facts)
qed

subsection \<open>The scorer\<close>

text \<open>
  C1, as the code has it. The overall score is the rounded mean of all three scores,
  whatever the store holds: a vital without a recorded value is read as 0, scores 100
  and is counted in the mean. So a store that holds only \<^verbatim>\<open>lcp = 7000\<close> gets
  the scores 25, 100 and 100, the overall score 75, and the LCP recommendation.
\<close>

theorem getPerformanceScore_mean_of_three:
  "overall (getPerformanceScore w) =
     round (real_of_int (lcp (getPerformanceScore w) + fid (getPerformanceScore w)
                          + cls (getPerformanceScore w)) / 3)
   \<and> (props (metrics w) w ''lcp'' = None \<longrightarrow> lcp (getPerformanceScore w) = 100)
   \<and> (props (metrics w) w ''fid'' = None \<longrightarrow> fid (getPerformanceScore w) = 100)
   \<and> (props (metrics w) w ''cls'' = None \<longrightarrow> cls (getPerformanceScore w) = 100)
   \<and> (props (metrics w) w ''lcp'' = Some (PNum (Fin 7000)) \<longrightarrow>
        lcp (getPerformanceScore w) = 25
        \<and> ''Optimize images and reduce render-blocking resources''
             \<in> set (recommendations (getPerformanceScore w)))"
  by (simp add: score_defs Let_def)

theorem getPerformanceScore_mean_of_three_witness:
  "props (metrics lcp_only) lcp_only ''lcp'' = Some (PNum (Fin 7000))
   \<and> props (metrics lcp_only) lcp_only ''fid'' = None
   \<and> props (metrics lcp_only) lcp_only ''cls'' = None
   \<and> lcp (getPerformanceScore lcp_only) = 25
   \<and> fid (getPerformanceScore lcp_only) = 100
   \<and> cls (getPerformanceScore lcp_only) = 100
   \<and> overall (getPerformanceScore lcp_only) = 75
   \<and> ''Optimize images and reduce render-blocking resources''
        \<in> set (recommendations (getPerformanceScore lcp_only))"
  using getPerformanceScore_mean_of_three [of lcp_only]
  by (simp add: lcp_only_props)

text \<open>
  C1 as the specification states it fails: on the store that holds only
  \<^verbatim>\<open>lcp = 7000\<close> the overall score is not 25.
\<close>

theorem getPerformanceScore_lcp_only_counterexample:
  "props (metrics lcp_only) lcp_only ''lcp'' = Some (PNum (Fin 7000))
   \<and> props (metrics lcp_only) lcp_only ''fid'' = None
   \<and> props (metrics lcp_only) lcp_only ''cls'' = None
   \<and> overall (getPerformanceScore lcp_only) \<noteq> 25"
  by (simp add: lcp_only_props score_defs Let_def)


subsection \<open>Bounded growth\<close>

text \<open>
  C2, as the code has it. MAX is 100 for \<^verbatim>\<open>reportMetric\<close> of
  PerformanceMonitor, 50 for the resource entries of its resource observer, and 50
  for every metric of \<^verbatim>\<open>logMetric\<close> of MobilePerformanceMonitor. More than
  MAX calls with the same key leave a series of length MAX that holds exactly the last
  MAX samples, in call order, from both kinds of store a series can grow in: one in
  which the key is absent (or holds a falsy number) and is no name inherited from
  \<^verbatim>\<open>Object.prototype\<close>, and one in which the key holds a series of at most MAX
  samples. A series that is longer than MAX when the calls begin (only code outside
  the class can make one) keeps its length, every call removing one sample and
  appending one. Where the key is an inherited name, or holds a number that is not
  falsy or an object that is no array, every call fails on the \<^verbatim>\<open>push\<close>: no
  series is created and the heap stays as it is; the resource callback then throws at
  its first image or video entry.
\<close>

theorem series_bounded:
  "(metrics_ok w \<and> \<not> truthy (props (metrics w) w name)
       \<and> \<not> inherits (props (metrics w) w) name \<and> 100 < length svs \<longrightarrow>
      props (metrics (record_all name svs w)) (record_all name svs w) name
        = Some (PRef (length (heap w)))
      \<and> array_at (length (heap w)) (record_all name svs w)
          = Some (map (\<lambda>(t, v). Sample v t) (drop (length svs - 100) svs))
      \<and> map_option length (array_at (length (heap w)) (record_all name svs w)) = Some 100)
   \<and> (metrics_ok w \<and> props (metrics w) w name = Some (PRef a) \<and> array_at a w = Some xs
       \<and> 100 < length svs \<longrightarrow>
      props (metrics (record_all name svs w)) (record_all name svs w) name = Some (PRef a)
      \<and> array_at a (record_all name svs w)
          = Some (last_n (max 100 (length xs)) (xs @ map (\<lambda>(t, v). Sample v t) svs))
      \<and> map_option length (array_at a (record_all name svs w)) = Some (max 100 (length xs))
      \<and> (length xs \<le> 100 \<longrightarrow>
           array_at a (record_all name svs w)
             = Some (map (\<lambda>(t, v). Sample v t) (drop (length svs - 100) svs))))
   \<and> (inherits (props (metrics w) w) name
     \<or> (\<exists>x. props (metrics w) w name = Some (PNum x) \<and> truthy (Some (PNum x)))
     \<or> (\<exists>a. props (metrics w) w name = Some (PRef a) \<and> array_at a w = None) \<longrightarrow>
      heap (record_all name svs w) = heap w \<and> metrics (record_all name svs w) = metrics w)
   \<and> (metrics_ok w \<and> \<not> truthy (props (metrics w) w ''resources'')
       \<and> 50 < length (filter (\<lambda>e. initiatorType e = ''img'' \<or> initiatorType e = ''video'') es) \<longrightarrow>
      fst (resource_callback es w) = None
      \<and> props (metrics (snd (resource_callback es w))) (snd (resource_callback es w)) ''resources''
          = Some (PRef (length (heap w)))
      \<and> array_at (length (heap w)) (snd (resource_callback es w))
          = Some (map resource_element
              (drop (length (filter (\<lambda>e. initiatorType e = ''img'' \<or> initiatorType e = ''video'') es) - 50)
                 (filter (\<lambda>e. initiatorType e = ''img'' \<or> initiatorType e = ''video'') es)))
      \<and> map_option length (array_at (length (heap w)) (snd (resource_callback es w))) = Some 50)
   \<and> (metrics_ok w \<and> props (metrics w) w ''resources'' = Some (PRef c) \<and> array_at c w = Some zs
       \<and> 50 < length (filter (\<lambda>e. initiatorType e = ''img'' \<or> initiatorType e = ''video'') es) \<longrightarrow>
      fst (resource_callback es w) = None
      \<and> props (metrics (snd (resource_callback es w))) (snd (resource_callback es w)) ''resources''
          = Some (PRef c)
      \<and> array_at c (snd (resource_callback es w))
          = Some (last_n (max 50 (length zs)) (zs @ map resource_element
                 (filter (\<lambda>e. initiatorType e = ''img'' \<or> initiatorType e = ''video'') es)))
      \<and> map_option length (array_at c (snd (resource_callback es w))) = Some (max 50 (length zs))
      \<and> (length zs \<le> 50 \<longrightarrow>
           array_at c (snd (resource_callback es w))
             = Some (map resource_element
                 (drop (length (filter (\<lambda>e. initiatorType e = ''img'' \<or> initiatorType e = ''video'') es) - 50)
                    (filter (\<lambda>e. initiatorType e = ''img'' \<or> initiatorType e = ''video'') es)))))
   \<and> (((\<exists>x. props (metrics w) w ''resources'' = Some (PNum x) \<and> truthy (Some (PNum x)))
     \<or> (\<exists>a. props (metrics w) w ''resources'' = Some (PRef a) \<and> array_at a w = None))
       \<and> 50 < length (filter (\<lambda>e. initiatorType e = ''img'' \<or> initiatorType e = ''video'') es) \<longrightarrow>
      resource_callback es w = (Some TypeError, w))
   \<and> (metrics_ok m \<and> \<not> truthy (props (metrics m) m name)
       \<and> \<not> inherits (props (metrics m) m) name \<and> 50 < length svs \<longrightarrow>
      props (metrics (log_all name svs m)) (log_all name svs m) name
        = Some (PRef (length (heap m)))
      \<and> array_at (length (heap m)) (log_all name svs m)
          = Some (map (\<lambda>(t, v). Metric name v t (this_deviceInfo m)) (drop (length svs - 50) svs))
      \<and> map_option length (array_at (length (heap m)) (log_all name svs m)) = Some 50)
   \<and> (metrics_ok m \<and> props (metrics m) m name = Some (PRef b) \<and> array_at b m = Some ys
       \<and> 50 < length svs \<longrightarrow>
      props (metrics (log_all name svs m)) (log_all name svs m) name = Some (PRef b)
      \<and> array_at b (log_all name svs m)
          = Some (last_n (max 50 (length ys))
               (ys @ map (\<lambda>(t, v). Metric name v t (this_deviceInfo m)) svs))
      \<and> map_option length (array_at b (log_all name svs m)) = Some (max 50 (length ys))
      \<and> (length ys \<le> 50 \<longrightarrow>
           array_at b (log_all name svs m)
             = Some (map (\<lambda>(t, v). Metric name v t (this_deviceInfo m))
                  (drop (length svs - 50) svs))))
   \<and> (inherits (props (metrics m) m) name
     \<or> (\<exists>x. props (metrics m) m name = Some (PNum x) \<and> truthy (Some (PNum x)))
     \<or> (\<exists>a. props (metrics m) m name = Some (PRef a) \<and> array_at a m = None) \<longrightarrow>
      heap (log_all name svs m) = heap m \<and> metrics (log_all name svs m) = metrics m)"
proof (intro conjI impI)
  assume a: "metrics_ok w \<and> \<not> truthy (props (metrics w) w name)
       \<and> \<not> inherits (props (metrics w) w) name \<and> 100 < length svs"
  then have ne: "svs \<noteq> []" by auto
  note r = record_all_bounded [of w name svs, OF _ _ ne]
  from a r show "props (metrics (record_all name svs w)) (record_all name svs w) name
        = Some (PRef (length (heap w)))" by simp
  from a r show s: "array_at (length (heap w)) (record_all name svs w)
          = Some (map (\<lambda>(t, v). Sample v t) (drop (length svs - 100) svs))"
    by (simp add: last_n_def drop_map)
  from a show "map_option length (array_at (length (heap w)) (record_all name svs w)) = Some 100"
    unfolding s by simp
next
  assume a: "metrics_ok w \<and> props (metrics w) w name = Some (PRef a) \<and> array_at a w = Some xs
       \<and> 100 < length svs"
  then have r: "metrics (record_all name svs w) = metrics w
         \<and> props (metrics w) (record_all name svs w) = props (metrics w) w
         \<and> array_at a (record_all name svs w)
              = Some (last_n (max 100 (length xs)) (xs @ map (\<lambda>(t, v). Sample v t) svs))"
    using record_all_series [of w name a xs svs] by simp
  from a r show "props (metrics (record_all name svs w)) (record_all name svs w) name
        = Some (PRef a)" by simp
  from r show s: "array_at a (record_all name svs w)
          = Some (last_n (max 100 (length xs)) (xs @ map (\<lambda>(t, v). Sample v t) svs))" by simp
  from a show "map_option length (array_at a (record_all name svs w)) = Some (max 100 (length xs))"
    unfolding s by (simp add: length_last_n)
  assume "length xs \<le> 100"
  with a show "array_at a (record_all name svs w)
          = Some (map (\<lambda>(t, v). Sample v t) (drop (length svs - 100) svs))"
    unfolding s by (simp add: last_n_drop drop_map max_def)
next
  assume "inherits (props (metrics w) w) name
     \<or> (\<exists>x. props (metrics w) w name = Some (PNum x) \<and> truthy (Some (PNum x)))
     \<or> (\<exists>a. props (metrics w) w name = Some (PRef a) \<and> array_at a w = None)"
  then have r: "heap (record_all name svs w) = heap w
      \<and> metrics (record_all name svs w) = metrics w" by (rule record_all_fails)
  from r show "heap (record_all name svs w) = heap w" by simp
  from r show "metrics (record_all name svs w) = metrics w" by simp
next
  let ?media = "(filter (\<lambda>e. initiatorType e = ''img'' \<or> initiatorType e = ''video'') es)"
  assume a: "metrics_ok w \<and> \<not> truthy (props (metrics w) w ''resources'') \<and> 50 < length ?media"
  then have ne: "?media \<noteq> []" by auto
  note r = resource_callback_bounded [of w es, OF _ _ ne]
  from a r show "fst (resource_callback es w) = None" by simp
  from a r show "props (metrics (snd (resource_callback es w))) (snd (resource_callback es w)) ''resources''
          = Some (PRef (length (heap w)))" by simp
  from a r show s: "array_at (length (heap w)) (snd (resource_callback es w))
          = Some (map resource_element (drop (length ?media - 50) ?media))"
    by (simp add: last_n_def drop_map)
  from a show "map_option length (array_at (length (heap w)) (snd (resource_callback es w))) = Some 50"
    unfolding s by simp
next
  let ?media = "(filter (\<lambda>e. initiatorType e = ''img'' \<or> initiatorType e = ''video'') es)"
  assume a: "metrics_ok w \<and> props (metrics w) w ''resources'' = Some (PRef c)
       \<and> array_at c w = Some zs \<and> 50 < length ?media"
  then have r: "fst (resource_callback es w) = None
         \<and> metrics (snd (resource_callback es w)) = metrics w
         \<and> props (metrics w) (snd (resource_callback es w)) = props (metrics w) w
         \<and> array_at c (snd (resource_callback es w))
              = Some (last_n (max 50 (length zs)) (zs @ map resource_element ?media))"
    using resource_callback_series [of w c zs es] by simp
  from r show "fst (resource_callback es w) = None" by simp
  from a r show "props (metrics (snd (resource_callback es w))) (snd (resource_callback es w)) ''resources''
          = Some (PRef c)" by simp
  from r show s: "array_at c (snd (resource_callback es w))
          = Some (last_n (max 50 (length zs)) (zs @ map resource_element ?media))" by simp
  from a show "map_option length (array_at c (snd (resource_callback es w)))
          = Some (max 50 (length zs))"
    unfolding s by (simp add: length_last_n)
  assume "length zs \<le> 50"
  with a show "array_at c (snd (resource_callback es w))
          = Some (map resource_element (drop (length ?media - 50) ?media))"
    unfolding s by (simp add: last_n_drop drop_map max_def)
next
  let ?media = "(filter (\<lambda>e. initiatorType e = ''img'' \<or> initiatorType e = ''video'') es)"
  assume a: "((\<exists>x. props (metrics w) w ''resources'' = Some (PNum x) \<and> truthy (Some (PNum x)))
     \<or> (\<exists>a. props (metrics w) w ''resources'' = Some (PRef a) \<and> array_at a w = None))
       \<and> 50 < length ?media"
  then have ne: "?media \<noteq> []" by auto
  from a show "resource_callback es w = (Some TypeError, w)"
    using resource_callback_fails [OF ne, of w] by blast
next
  assume a: "metrics_ok m \<and> \<not> truthy (props (metrics m) m name)
       \<and> \<not> inherits (props (metrics m) m) name \<and> 50 < length svs"
  then have ne: "svs \<noteq> []" by auto
  note r = log_all_bounded [of m name svs, OF _ _ ne]
  from a r show "props (metrics (log_all name svs m)) (log_all name svs m) name
        = Some (PRef (length (heap m)))" by simp
  from a r show s: "array_at (length (heap m)) (log_all name svs m)
          = Some (map (\<lambda>(t, v). Metric name v t (this_deviceInfo m)) (drop (length svs - 50) svs))"
    by (simp add: last_n_def drop_map)
  from a show "map_option length (array_at (length (heap m)) (log_all name svs m)) = Some 50"
    unfolding s by simp
next
  assume a: "metrics_ok m \<and> props (metrics m) m name = Some (PRef b) \<and> array_at b m = Some ys
       \<and> 50 < length svs"
  then have r: "metrics (log_all name svs m) = metrics m
         \<and> props (metrics m) (log_all name svs m) = props (metrics m) m
         \<and> array_at b (log_all name svs m)
              = Some (last_n (max 50 (length ys))
                   (ys @ map (\<lambda>(t, v). Metric name v t (this_deviceInfo m)) svs))"
    using log_all_series [of m name b ys svs] by simp
  from a r show "props (metrics (log_all name svs m)) (log_all name svs m) name
        = Some (PRef b)" by simp
  from r show s: "array_at b (log_all name svs m)
          = Some (last_n (max 50 (length ys))
               (ys @ map (\<lambda>(t, v). Metric name v t (this_deviceInfo m)) svs))" by simp
  from a show "map_option length (array_at b (log_all name svs m)) = Some (max 50 (length ys))"
    unfolding s by (simp add: length_last_n)
  assume "length ys \<le> 50"
  with a show "array_at b (log_all name svs m)
          = Some (map (\<lambda>(t, v). Metric name v t (this_deviceInfo m)) (drop (length svs - 50) svs))"
    unfolding s by (simp add: last_n_drop drop_map max_def)
next
  assume "inherits (props (metrics m) m) name
     \<or> (\<exists>x. props (metrics m) m name = Some (PNum x) \<and> truthy (Some (PNum x)))
     \<or> (\<exists>a. props (metrics m) m name = Some (PRef a) \<and> array_at a m = None)"
  then have r: "heap (log_all name svs m) = heap m
      \<and> metrics (log_all name svs m) = metrics m" by (rule log_all_fails)
  from r show "heap (log_all name svs m) = heap m" by simp
  from r show "metrics (log_all name svs m) = metrics m" by simp
qed

theorem series_bounded_witness:
  "array_at 1 (record_all ''lcp'' (samples_from_to 1 150) monitor0)
     = Some (map (\<lambda>(t, v). Sample v t) (samples_from_to 51 150))
   \<and> map_option length (array_at 1 (record_all ''lcp'' (samples_from_to 1 150) monitor0)) = Some 100
   \<and> array_at 1 (snd (resource_callback (replicate 60 img_entry) monitor0))
     = Some (replicate 50 (resource_element img_entry))
   \<and> array_at 1 (log_all ''lcp'' (samples_from_to 1 150) mobile0)
     = Some (map (\<lambda>(t, v). Metric ''lcp'' v t (this_deviceInfo mobile0)) (samples_from_to 101 150))
   \<and> array_at 1 (record_all ''render'' (samples_from_to 1 150) recorded0)
     = Some (map (\<lambda>(t, v). Sample v t) (samples_from_to 51 150))
   \<and> array_at 1 (snd (resource_callback (replicate 60 img_entry) resourced0))
     = Some (replicate 50 (resource_element img_entry))
   \<and> array_at 1 (log_all ''LCP'' (samples_from_to 1 150) logged0)
     = Some (map (\<lambda>(t, v). Metric ''LCP'' v t (this_deviceInfo mobile0)) (samples_from_to 101 150))
   \<and> heap (record_all ''constructor'' (samples_from_to 1 150) monitor0) = heap monitor0
   \<and> heap (record_all ''resources'' (samples_from_to 1 150) measured0) = heap measured0
   \<and> resource_callback (replicate 60 img_entry) measured0 = (Some TypeError, measured0)
   \<and> heap (log_all ''toString'' (samples_from_to 1 150) mobile0) = heap mobile0"
proof -
  have fresh: "array_at 1 (record_all ''lcp'' (samples_from_to 1 150) monitor0)
       = Some (map (\<lambda>(t, v). Sample v t) (samples_from_to 51 150))
     \<and> map_option length (array_at 1 (record_all ''lcp'' (samples_from_to 1 150) monitor0)) = Some 100
     \<and> array_at 1 (snd (resource_callback (replicate 60 img_entry) monitor0))
       = Some (replicate 50 (resource_element img_entry))
     \<and> array_at 1 (log_all ''lcp'' (samples_from_to 1 150) mobile0)
       = Some (map (\<lambda>(t, v). Metric ''lcp'' v t (this_deviceInfo mobile0)) (samples_from_to 101 150))"
    using series_bounded [of monitor0 "''lcp''" "samples_from_to 1 150" 0 "[]"
        "replicate 60 img_entry" 0 "[]" mobile0 0 "[]"] samples_drop
    by (simp add: monitor0_facts mobile0_facts img_entry_def inherits_def proto_names_def)
  have pre: "metrics_ok recorded0
     \<and> props (metrics recorded0) recorded0 ''render'' = Some (PRef 1)
     \<and> array_at 1 recorded0 = Some [Sample (Number (Fin 1)) 0]
     \<and> 100 < length (samples_from_to 1 150)"
    and len: "length [Sample (Number (Fin 1)) 0] \<le> 100"
    by (simp_all add: recorded0_facts)
  note s2 = series_bounded [of recorded0 "''render''" "samples_from_to 1 150" 1
        "[Sample (Number (Fin 1)) 0]" "[]" 0 "[]" mobile0 0 "[]",
        THEN conjunct2, THEN conjunct1, THEN mp, OF pre]
  from s2 [THEN conjunct2, THEN conjunct2, THEN conjunct2, THEN mp, OF len]
  have series: "array_at 1 (record_all ''render'' (samples_from_to 1 150) recorded0)
       = Some (map (\<lambda>(t, v). Sample v t) (samples_from_to 51 150))"
    using samples_drop by simp
  have pre_r: "metrics_ok resourced0
     \<and> props (metrics resourced0) resourced0 ''resources'' = Some (PRef 1)
     \<and> array_at 1 resourced0 = Some [resource_element img_entry]
     \<and> 50 < length (filter (\<lambda>e. initiatorType e = ''img'' \<or> initiatorType e = ''video'') (replicate 60 img_entry))"
    and len_r: "length [resource_element img_entry] \<le> 50"
    by (simp_all add: resourced0_facts img_entry_def)
  note s5 = series_bounded [of resourced0 "''lcp''" "[]" 0 "[]" "replicate 60 img_entry" 1
        "[resource_element img_entry]" mobile0 0 "[]",
        THEN conjunct2, THEN conjunct2, THEN conjunct2, THEN conjunct2, THEN conjunct1,
        THEN mp, OF pre_r]
  from s5 [THEN conjunct2, THEN conjunct2, THEN conjunct2, THEN conjunct2, THEN mp, OF len_r]
  have "array_at 1 (snd (resource_callback (replicate 60 img_entry) resourced0))
       = Some (map resource_element
           (drop (length (filter (\<lambda>e. initiatorType e = ''img'' \<or> initiatorType e = ''video'') (replicate 60 img_entry)) - 50)
              (filter (\<lambda>e. initiatorType e = ''img'' \<or> initiatorType e = ''video'') (replicate 60 img_entry))))" .
  then have resources: "array_at 1 (snd (resource_callback (replicate 60 img_entry) resourced0))
       = Some (replicate 50 (resource_element img_entry))"
    by (simp add: img_entry_def)
  have pre_l: "metrics_ok logged0
     \<and> props (metrics logged0) logged0 ''LCP'' = Some (PRef 1)
     \<and> array_at 1 logged0 = Some [Metric ''LCP'' (Number (Fin 1)) 0 (this_deviceInfo mobile0)]
     \<and> 50 < length (samples_from_to 1 150)"
    and len_l: "length [Metric ''LCP'' (Number (Fin 1)) 0 (this_deviceInfo mobile0)] \<le> 50"
    by (simp_all add: logged0_facts)
  note s8 = series_bounded [of monitor0 "''LCP''" "samples_from_to 1 150" 0 "[]" "[]" 0 "[]"
        logged0 1 "[Metric ''LCP'' (Number (Fin 1)) 0 (this_deviceInfo mobile0)]",
        THEN conjunct2, THEN conjunct2, THEN conjunct2, THEN conjunct2, THEN conjunct2,
        THEN conjunct2, THEN conjunct2, THEN conjunct1, THEN mp, OF pre_l]
  from s8 [THEN conjunct2, THEN conjunct2, THEN conjunct2, THEN mp, OF len_l]
  have logged: "array_at 1 (log_all ''LCP'' (samples_from_to 1 150) logged0)
       = Some (map (\<lambda>(t, v). Metric ''LCP'' v t (this_deviceInfo mobile0)) (samples_from_to 101 150))"
    using samples_drop by (simp add: logged0_facts)
  have inherited: "heap (record_all ''constructor'' (samples_from_to 1 150) monitor0) = heap monitor0"
    using series_bounded [of monitor0 "''constructor''" "samples_from_to 1 150" 0 "[]" "[]" 0 "[]"
        mobile0 0 "[]"]
    by (simp add: monitor0_facts inherits_def proto_names_def)
  have scalar: "heap (record_all ''resources'' (samples_from_to 1 150) measured0) = heap measured0
     \<and> resource_callback (replicate 60 img_entry) measured0 = (Some TypeError, measured0)"
    using series_bounded [of measured0 "''resources''" "samples_from_to 1 150" 0 "[]"
        "replicate 60 img_entry" 0 "[]" mobile0 0 "[]"]
    by (simp add: measured0_facts img_entry_def)
  have thrown: "heap (log_all ''toString'' (samples_from_to 1 150) mobile0) = heap mobile0"
    using series_bounded [of monitor0 "''toString''" "samples_from_to 1 150" 0 "[]" "[]" 0 "[]"
        mobile0 0 "[]"]
    by (simp add: mobile0_facts inherits_def proto_names_def)
  from fresh series resources logged inherited scalar thrown show ?thesis by simp
qed

text \<open>
  C2 as the specification states it fails in three ways. Through \<^verbatim>\<open>logMetric\<close>,
  150 samples under \<^verbatim>\<open>"lcp"\<close> leave a series of length 50, not 100. Under the
  key \<^verbatim>\<open>"constructor"\<close>, 150 calls of \<^verbatim>\<open>reportMetric\<close> on a new monitor
  leave the store without any property and the heap without any array. And after
  \<^verbatim>\<open>measure("resources", ...)\<close> has stored a duration, 150 calls of
  \<^verbatim>\<open>reportMetric\<close> under \<^verbatim>\<open>"resources"\<close> leave that number there and no
  series.
\<close>

theorem logMetric_bound_counterexample:
  "props (metrics (log_all ''lcp'' (samples_from_to 1 150) mobile0))
     (log_all ''lcp'' (samples_from_to 1 150) mobile0) ''lcp'' = Some (PRef 1)
   \<and> map_option length (array_at 1 (log_all ''lcp'' (samples_from_to 1 150) mobile0)) = Some 50
   \<and> props 0 (record_all ''constructor'' (samples_from_to 1 150) monitor0) = Map.empty
   \<and> length (heap (record_all ''constructor'' (samples_from_to 1 150) monitor0)) = 1
   \<and> props 0 (record_all ''resources'' (samples_from_to 1 150) measured0) ''resources''
       = Some (PNum (Fin 5))
   \<and> length (heap (record_all ''resources'' (samples_from_to 1 150) measured0)) = 1"
proof -
  have ne: "samples_from_to 1 150 \<noteq> []" by (simp add: samples_from_to_def)
  have f: "\<not> truthy (props (metrics mobile0) mobile0 ''lcp'')" by (simp add: mobile0_facts)
  have g: "\<not> inherits (props (metrics mobile0) mobile0) ''lcp''"
    by (simp add: inherits_def proto_names_def)
  note r = log_all_bounded [OF mobile0_facts(1) f ne g]
  have i: "inherits (props (metrics monitor0) monitor0) ''constructor''
     \<or> (\<exists>x. props (metrics monitor0) monitor0 ''constructor'' = Some (PNum x) \<and> truthy (Some (PNum x)))
     \<or> (\<exists>a. props (metrics monitor0) monitor0 ''constructor'' = Some (PRef a) \<and> array_at a monitor0 = None)"
    by (simp add: monitor0_facts inherits_def proto_names_def)
  note c = record_all_fails [OF i, of "samples_from_to 1 150"]
  have j: "inherits (props (metrics measured0) measured0) ''resources''
     \<or> (\<exists>x. props (metrics measured0) measured0 ''resources'' = Some (PNum x) \<and> truthy (Some (PNum x)))
     \<or> (\<exists>a. props (metrics measured0) measured0 ''resources'' = Some (PRef a) \<and> array_at a measured0 = None)"
    by (simp add: measured0_facts)
  note d = record_all_fails [OF j, of "samples_from_to 1 150"]
  have c': "props 0 (record_all ''constructor'' (samples_from_to 1 150) monitor0) = Map.empty"
    using c monitor0_facts(4) by (simp add: props_def)
  have d': "props 0 (record_all ''resources'' (samples_from_to 1 150) measured0) ''resources''
       = Some (PNum (Fin 5))"
    using d measured0_facts(3) by (simp add: props_def)
  show ?thesis using r c c' d d' by (simp add: mobile0_facts monitor0_facts measured0_facts last_n_def)
qed

subsection \<open>Recording after destroy\<close>

text \<open>
  C3, as the code has it. \<^verbatim>\<open>destroy()\<close> never throws and leaves an empty store
  and \<^verbatim>\<open>isInitialized = false\<close>. There is no destroyed state.
  \<^verbatim>\<open>reportMetric\<close> after it does not throw, but it is no no-op: under every
  name that is not inherited from \<^verbatim>\<open>Object.prototype\<close> it creates the series
  again, and the store then holds exactly the one new sample (under an inherited name
  the call fails inside and stores nothing). And the instance can be used again:
  \<^verbatim>\<open>init()\<close> after \<^verbatim>\<open>destroy()\<close> runs again and sets
  \<^verbatim>\<open>isInitialized\<close>; where the host has \<^verbatim>\<open>PerformanceObserver\<close>, the
  list of observers, which \<^verbatim>\<open>destroy()\<close> had emptied, holds six new observers,
  subscribed to the six entry types; and \<^verbatim>\<open>reportMetric\<close> on the monitor that
  runs again stores its sample.
\<close>

theorem reportMetric_after_destroy:
  "fst (destroy w) = None
   \<and> props (metrics (snd (destroy w))) (snd (destroy w)) = Map.empty
   \<and> \<not> isInitialized (snd (destroy w))
   \<and> observers (snd (destroy w)) = []
   \<and> fst (reportMetric name v (snd (destroy w))) = None
   \<and> metrics (snd (reportMetric name v (snd (destroy w)))) = metrics (snd (destroy w))
   \<and> (name \<notin> set proto_names \<longrightarrow>
        props (metrics (snd (destroy w))) (snd (reportMetric name v (snd (destroy w))))
          = [name \<mapsto> PRef (length (heap (snd (destroy w))))]
        \<and> array_at (length (heap (snd (destroy w)))) (snd (reportMetric name v (snd (destroy w))))
            = Some [Sample v (date_now (snd (destroy w)))])
   \<and> (name \<in> set proto_names \<longrightarrow>
        heap (snd (reportMetric name v (snd (destroy w)))) = heap (snd (destroy w)))
   \<and> fst (init (snd (destroy w))) = None
   \<and> isInitialized (snd (init (snd (destroy w))))
   \<and> (has_PerformanceObserver w \<and> (\<forall>t. \<not> observe_throws w t) \<longrightarrow>
        observers (snd (init (snd (destroy w))))
          = [next_handle w, next_handle w + 1, next_handle w + 2,
             next_handle w + 3, next_handle w + 4, next_handle w + 5]
        \<and> subscriptions (snd (init (snd (destroy w))))
            = subscriptions (snd (destroy w))
                @ [(next_handle w, ''largest-contentful-paint''),
                   (next_handle w + 1, ''first-input''), (next_handle w + 2, ''layout-shift''),
                   (next_handle w + 3, ''navigation''), (next_handle w + 4, ''paint''),
                   (next_handle w + 5, ''resource'')])
   \<and> (name \<notin> set proto_names \<longrightarrow>
        props (metrics (snd (destroy w)))
            (snd (reportMetric name v (snd (init (snd (destroy w))))))
          = [name \<mapsto> PRef (length (heap (snd (destroy w))))]
        \<and> array_at (length (heap (snd (destroy w))))
            (snd (reportMetric name v (snd (init (snd (destroy w))))))
            = Some [Sample v (date_now (snd (destroy w)))])"
proof (intro conjI impI)
  let ?d = "snd (destroy w)"
  let ?r = "snd (init ?d)"
  show "fst (destroy w) = None" by (rule destroy_store)
  show "props (metrics ?d) ?d = Map.empty" by (rule destroy_props)
  show "\<not> isInitialized ?d" by (rule destroy_store)
  show "observers ?d = []" by (rule destroy_store)
  show "fst (reportMetric name v ?d) = None" by (rule reportMetric_returns)
  show "metrics (snd (reportMetric name v ?d)) = metrics ?d"
    by (rule reportMetric_metrics)
  show "fst (init ?d) = None" by (rule init_isInitialized)
  show "isInitialized ?r" by (rule init_isInitialized)
  {
    assume n: "name \<notin> set proto_names"
    have f: "\<not> truthy (props (metrics ?d) ?d name)" by (simp add: destroy_props)
    have g: "\<not> inherits (props (metrics ?d) ?d) name" using n by (rule inherits_other)
    note s = reportMetric_fresh_series [OF destroy_metrics_ok f g, where v = v]
    show "props (metrics ?d) (snd (reportMetric name v ?d)) = [name \<mapsto> PRef (length (heap ?d))]"
      using s(3) by (simp add: destroy_props)
    show "array_at (length (heap ?d)) (snd (reportMetric name v ?d))
            = Some [Sample v (date_now ?d)]"
      by (rule s(4))
    have ok: "metrics_ok ?r" by (simp add: init_store destroy_metrics_ok)
    have f': "\<not> truthy (props (metrics ?r) ?r name)"
      by (simp add: init_store init_frame destroy_props)
    have g': "\<not> inherits (props (metrics ?r) ?r) name" using n by (rule inherits_other)
    note s' = reportMetric_fresh_series [OF ok f' g', where v = v]
    show "props (metrics ?d) (snd (reportMetric name v ?r)) = [name \<mapsto> PRef (length (heap ?d))]"
      using s'(3) by (simp add: init_store init_frame destroy_props)
    show "array_at (length (heap ?d)) (snd (reportMetric name v ?r))
            = Some [Sample v (date_now ?d)]"
      using s'(4) by (simp add: init_frame)
  }
  {
    assume n: "name \<in> set proto_names"
    then have i: "inherits (props (metrics ?d) ?d) name"
      by (simp add: destroy_props inherits_def)
    show "heap (snd (reportMetric name v ?d)) = heap ?d"
      by (simp add: reportMetric_inherited [OF i])
  }
  {
    assume a: "has_PerformanceObserver w \<and> (\<forall>t. \<not> observe_throws w t)"
    have ni: "\<not> isInitialized ?d" by (rule destroy_store)
    have po: "has_PerformanceObserver ?d" using a by (simp add: destroy_host)
    have nt: "\<forall>t. \<not> observe_throws ?d t" using a by (simp add: destroy_host)
    note o = init_observers [OF ni po nt]
    show "observers ?r = [next_handle w, next_handle w + 1, next_handle w + 2,
             next_handle w + 3, next_handle w + 4, next_handle w + 5]"
      using o(1) by (simp add: destroy_store destroy_host)
    show "subscriptions ?r = subscriptions ?d
                @ [(next_handle w, ''largest-contentful-paint''),
                   (next_handle w + 1, ''first-input''), (next_handle w + 2, ''layout-shift''),
                   (next_handle w + 3, ''navigation''), (next_handle w + 4, ''paint''),
                   (next_handle w + 5, ''resource'')]"
      using o(2) by (simp add: destroy_host)
  }
qed

theorem reportMetric_after_destroy_witness:
  "isInitialized running1
   \<and> observers running1 = [1, 2, 3, 4, 5, 6]
   \<and> observers (snd (destroy running1)) = []
   \<and> \<not> isInitialized (snd (destroy running1))
   \<and> fst (reportMetric ''LCP'' (Number (Fin 1)) (snd (destroy running1))) = None
   \<and> array_at 2 (snd (reportMetric ''LCP'' (Number (Fin 1)) (snd (destroy running1))))
       = Some [Sample (Number (Fin 1)) 0]
   \<and> isInitialized (snd (init (snd (destroy running1))))
   \<and> observers (snd (init (snd (destroy running1)))) = [8, 9, 10, 11, 12, 13]
   \<and> array_at 2 (snd (reportMetric ''LCP'' (Number (Fin 1)) (snd (init (snd (destroy running1))))))
       = Some [Sample (Number (Fin 1)) 0]
   \<and> heap (snd (reportMetric ''constructor'' (Number (Fin 1)) (snd (destroy running1))))
       = heap (snd (destroy running1))"
proof -
  have named: "observers (snd (destroy running1)) = []
     \<and> \<not> isInitialized (snd (destroy running1))
     \<and> fst (reportMetric ''LCP'' (Number (Fin 1)) (snd (destroy running1))) = None
     \<and> array_at 2 (snd (reportMetric ''LCP'' (Number (Fin 1)) (snd (destroy running1))))
         = Some [Sample (Number (Fin 1)) 0]
     \<and> isInitialized (snd (init (snd (destroy running1))))
     \<and> observers (snd (init (snd (destroy running1)))) = [8, 9, 10, 11, 12, 13]
     \<and> array_at 2 (snd (reportMetric ''LCP'' (Number (Fin 1)) (snd (init (snd (destroy running1))))))
         = Some [Sample (Number (Fin 1)) 0]"
    using reportMetric_after_destroy [of running1 "''LCP''" "Number (Fin 1)"]
    by (simp add: running1_facts reused1_facts(5,6) proto_names_def)
  have inherited: "heap (snd (reportMetric ''constructor'' (Number (Fin 1)) (snd (destroy running1))))
       = heap (snd (destroy running1))"
    using reportMetric_after_destroy [of running1 "''constructor''" "Number (Fin 1)"]
    by (simp add: proto_names_def)
  from named inherited show ?thesis by (simp add: running1_facts)
qed

text \<open>
  C3 as the specification states it fails: after \<^verbatim>\<open>destroy()\<close> on a new
  monitor the store is empty, and one \<^verbatim>\<open>reportMetric\<close> later it holds a
  sample; and a monitor that ran with six observers has, after \<^verbatim>\<open>destroy()\<close>
  and another \<^verbatim>\<open>init()\<close>, six observers again and
  \<^verbatim>\<open>isInitialized = true\<close>.
\<close>

theorem reportMetric_after_destroy_counterexample:
  "props (metrics destroyed0) destroyed0 = Map.empty
   \<and> props (metrics destroyed0) (snd (reportMetric ''LCP'' (Number (Fin 1)) destroyed0)) ''LCP''
       = Some (PRef 2)
   \<and> array_at 2 (snd (reportMetric ''LCP'' (Number (Fin 1)) destroyed0))
       = Some [Sample (Number (Fin 1)) 0]
   \<and> observers running1 = [1, 2, 3, 4, 5, 6]
   \<and> observers (snd (destroy running1)) = []
   \<and> isInitialized (snd (init (snd (destroy running1))))
   \<and> observers (snd (init (snd (destroy running1)))) = [8, 9, 10, 11, 12, 13]"
proof -
  have ok: "metrics_ok destroyed0" by (simp add: destroyed0_def destroy_metrics_ok)
  have e: "props (metrics destroyed0) destroyed0 = Map.empty"
    by (simp add: destroyed0_def destroy_props)
  then have f: "\<not> truthy (props (metrics destroyed0) destroyed0 ''LCP'')" by simp
  have g: "\<not> inherits (props (metrics destroyed0) destroyed0) ''LCP''"
    by (simp add: inherits_def proto_names_def)
  note s = reportMetric_fresh_series [OF ok f g, where v = "Number (Fin 1)"]
  show ?thesis
    using s(3,4) e by (simp add: destroyed0_facts running1_facts reused1_facts)
qed

subsection \<open>Samples with a value that is no finite number\<close>

text \<open>
  C5, as the code has it. \<^verbatim>\<open>reportMetric\<close> never throws. No sample is dropped
  for its value: where the key is absent (or falsy) and is no name inherited from
  \<^verbatim>\<open>Object.prototype\<close>, or holds a series, the sample is appended (after the
  eviction of the oldest one at the bound) whatever its value is, \<^verbatim>\<open>NaN\<close>,
  \<^verbatim>\<open>Infinity\<close> and \<^verbatim>\<open>undefined\<close> included; in these cases
  \<^verbatim>\<open>logMetric\<close> returns normally and appends as well. What decides is the
  key, not the value: where the key is an inherited name, or holds a number that is not
  falsy or an object that is no array, \<^verbatim>\<open>reportMetric\<close> catches the error
  of the \<^verbatim>\<open>push\<close>, warns and stores nothing, and \<^verbatim>\<open>logMetric\<close> throws a
  \<^verbatim>\<open>TypeError\<close> to its caller and changes nothing.
\<close>

theorem reportMetric_keeps_every_value:
  "fst (reportMetric name v w) = None
   \<and> (metrics_ok w \<and> \<not> truthy (props (metrics w) w name)
       \<and> \<not> inherits (props (metrics w) w) name \<longrightarrow>
        props (metrics w) (snd (reportMetric name v w)) name = Some (PRef (length (heap w)))
        \<and> array_at (length (heap w)) (snd (reportMetric name v w)) = Some [Sample v (date_now w)])
   \<and> (metrics_ok w \<and> props (metrics w) w name = Some (PRef a) \<and> array_at a w = Some xs \<longrightarrow>
        props (metrics w) (snd (reportMetric name v w)) name = Some (PRef a)
        \<and> array_at a (snd (reportMetric name v w))
            = Some ((if 100 \<le> length xs then tl xs else xs) @ [Sample v (date_now w)]))
   \<and> (inherits (props (metrics w) w) name
     \<or> (\<exists>x. props (metrics w) w name = Some (PNum x) \<and> truthy (Some (PNum x)))
     \<or> (\<exists>a. props (metrics w) w name = Some (PRef a) \<and> array_at a w = None) \<longrightarrow>
        snd (reportMetric name v w) = console_warn ''Failed to report metric:'' w)
   \<and> (metrics_ok m \<and> \<not> truthy (props (metrics m) m name)
       \<and> \<not> inherits (props (metrics m) m) name \<longrightarrow>
        fst (logMetric name v m) = None
        \<and> props (metrics m) (snd (logMetric name v m)) name = Some (PRef (length (heap m)))
        \<and> array_at (length (heap m)) (snd (logMetric name v m))
            = Some [Metric name v (date_now m) (this_deviceInfo m)])
   \<and> (metrics_ok m \<and> props (metrics m) m name = Some (PRef b) \<and> array_at b m = Some ys \<longrightarrow>
        fst (logMetric name v m) = None
        \<and> props (metrics m) (snd (logMetric name v m)) name = Some (PRef b)
        \<and> array_at b (snd (logMetric name v m))
            = Some ((if 50 \<le> length ys then tl ys else ys)
                      @ [Metric name v (date_now m) (this_deviceInfo m)]))
   \<and> (inherits (props (metrics m) m) name
     \<or> (\<exists>x. props (metrics m) m name = Some (PNum x) \<and> truthy (Some (PNum x)))
     \<or> (\<exists>a. props (metrics m) m name = Some (PRef a) \<and> array_at a m = None) \<longrightarrow>
        logMetric name v m = (Some TypeError, m))"
proof (intro conjI impI)
  show "fst (reportMetric name v w) = None" by (rule reportMetric_returns)
next
  assume a: "metrics_ok w \<and> \<not> truthy (props (metrics w) w name)
       \<and> \<not> inherits (props (metrics w) w) name"
  then have ok: "metrics_ok w" and f: "\<not> truthy (props (metrics w) w name)"
    and g: "\<not> inherits (props (metrics w) w) name" by simp_all
  note s = reportMetric_fresh_series [OF ok f g, where v = v]
  show "props (metrics w) (snd (reportMetric name v w)) name = Some (PRef (length (heap w)))"
    using s(3) by simp
  show "array_at (length (heap w)) (snd (reportMetric name v w)) = Some [Sample v (date_now w)]"
    by (rule s(4))
next
  assume a: "metrics_ok w \<and> props (metrics w) w name = Some (PRef a) \<and> array_at a w = Some xs"
  then have ok: "metrics_ok w" and p: "props (metrics w) w name = Some (PRef a)"
    and x: "array_at a w = Some xs" by simp_all
  note s = reportMetric_existing_series [OF p x ok, where v = v]
  show "props (metrics w) (snd (reportMetric name v w)) name = Some (PRef a)"
    using s(3) p by simp
  show "array_at a (snd (reportMetric name v w))
            = Some ((if 100 \<le> length xs then tl xs else xs) @ [Sample v (date_now w)])"
    by (rule s(4))
next
  assume "inherits (props (metrics w) w) name
     \<or> (\<exists>x. props (metrics w) w name = Some (PNum x) \<and> truthy (Some (PNum x)))
     \<or> (\<exists>a. props (metrics w) w name = Some (PRef a) \<and> array_at a w = None)"
  then show "snd (reportMetric name v w) = console_warn ''Failed to report metric:'' w"
    by (rule reportMetric_fails)
next
  assume a: "metrics_ok m \<and> \<not> truthy (props (metrics m) m name)
       \<and> \<not> inherits (props (metrics m) m) name"
  then have ok: "metrics_ok m" and f: "\<not> truthy (props (metrics m) m name)"
    and g: "\<not> inherits (props (metrics m) m) name" by simp_all
  note s = logMetric_fresh_series [OF ok f g, where v = v]
  show "fst (logMetric name v m) = None" by (rule s(6))
  show "props (metrics m) (snd (logMetric name v m)) name = Some (PRef (length (heap m)))"
    using s(3) by simp
  show "array_at (length (heap m)) (snd (logMetric name v m))
            = Some [Metric name v (date_now m) (this_deviceInfo m)]"
    by (rule s(4))
next
  assume a: "metrics_ok m \<and> props (metrics m) m name = Some (PRef b) \<and> array_at b m = Some ys"
  then have ok: "metrics_ok m" and p: "props (metrics m) m name = Some (PRef b)"
    and x: "array_at b m = Some ys" by simp_all
  note s = logMetric_existing_series [OF p x ok, where v = v]
  show "fst (logMetric name v m) = None" by (rule s(6))
  show "props (metrics m) (snd (logMetric name v m)) name = Some (PRef b)"
    using s(3) p by simp
  show "array_at b (snd (logMetric name v m))
            = Some ((if 50 \<le> length ys then tl ys else ys)
                      @ [Metric name v (date_now m) (this_deviceInfo m)])"
    by (rule s(4))
next
  assume "inherits (props (metrics m) m) name
     \<or> (\<exists>x. props (metrics m) m name = Some (PNum x) \<and> truthy (Some (PNum x)))
     \<or> (\<exists>a. props (metrics m) m name = Some (PRef a) \<and> array_at a m = None)"
  then show "logMetric name v m = (Some TypeError, m)" by (rule logMetric_fails)
qed

theorem reportMetric_keeps_every_value_witness:
  "array_at 1 (snd (reportMetric ''LCP'' (Number NaN) monitor0)) = Some [Sample (Number NaN) 0]
   \<and> array_at 1 (snd (reportMetric ''render'' Undefined recorded0))
       = Some [Sample (Number (Fin 1)) 0, Sample Undefined (date_now recorded0)]
   \<and> array_at 1 (snd (logMetric ''LCP'' (Number PosInf) mobile0))
       = Some [Metric ''LCP'' (Number PosInf) 0 (this_deviceInfo mobile0)]
   \<and> array_at 1 (snd (logMetric ''LCP'' (Number NaN) logged0))
       = Some [Metric ''LCP'' (Number (Fin 1)) 0 (this_deviceInfo mobile0),
               Metric ''LCP'' (Number NaN) (date_now logged0) (this_deviceInfo mobile0)]
   \<and> heap (snd (reportMetric ''constructor'' (Number (Fin 1)) monitor0)) = heap monitor0
   \<and> logMetric ''toString'' (Number (Fin 1)) mobile0 = (Some TypeError, mobile0)"
proof -
  have fresh: "array_at 1 (snd (reportMetric ''LCP'' (Number NaN) monitor0))
       = Some [Sample (Number NaN) 0]"
    using reportMetric_keeps_every_value [of "''LCP''" "Number NaN" monitor0 0 "[]" mobile0 0 "[]"]
    by (simp add: monitor0_facts date_now0 inherits_def proto_names_def)
  have series: "array_at 1 (snd (reportMetric ''render'' Undefined recorded0))
       = Some [Sample (Number (Fin 1)) 0, Sample Undefined (date_now recorded0)]"
    using reportMetric_keeps_every_value [of "''render''" Undefined recorded0 1
       "[Sample (Number (Fin 1)) 0]" mobile0 0 "[]"]
    by (simp add: recorded0_facts)
  have logged_fresh: "array_at 1 (snd (logMetric ''LCP'' (Number PosInf) mobile0))
       = Some [Metric ''LCP'' (Number PosInf) 0 (this_deviceInfo mobile0)]"
    using reportMetric_keeps_every_value [of "''LCP''" "Number PosInf" monitor0 0 "[]" mobile0 0 "[]"]
    by (simp add: mobile0_facts date_now0 inherits_def proto_names_def)
  have logged_series: "array_at 1 (snd (logMetric ''LCP'' (Number NaN) logged0))
       = Some [Metric ''LCP'' (Number (Fin 1)) 0 (this_deviceInfo mobile0),
               Metric ''LCP'' (Number NaN) (date_now logged0) (this_deviceInfo mobile0)]"
    using reportMetric_keeps_every_value [of "''LCP''" "Number NaN" monitor0 0 "[]" logged0 1
       "[Metric ''LCP'' (Number (Fin 1)) 0 (this_deviceInfo mobile0)]"]
    by (simp add: logged0_facts)
  have inherited: "heap (snd (reportMetric ''constructor'' (Number (Fin 1)) monitor0)) = heap monitor0"
    using reportMetric_keeps_every_value [of "''constructor''" "Number (Fin 1)" monitor0 0 "[]"
       mobile0 0 "[]"]
    by (simp add: monitor0_facts inherits_def proto_names_def)
  have thrown: "logMetric ''toString'' (Number (Fin 1)) mobile0 = (Some TypeError, mobile0)"
    using reportMetric_keeps_every_value [of "''toString''" "Number (Fin 1)" monitor0 0 "[]"
       mobile0 0 "[]"]
    by (simp add: mobile0_facts inherits_def proto_names_def)
  from fresh series logged_fresh logged_series inherited thrown show ?thesis by simp
qed

text \<open>
  C5 as the specification states it fails in two ways: a \<^verbatim>\<open>NaN\<close> sample
  changes the store, and \<^verbatim>\<open>logMetric("toString", 1)\<close> on a new monitor throws.
\<close>

theorem reportMetric_NaN_counterexample:
  "props 0 monitor0 ''LCP'' = None
   \<and> props 0 (snd (reportMetric ''LCP'' (Number NaN) monitor0)) ''LCP'' = Some (PRef 1)
   \<and> array_at 1 (snd (reportMetric ''LCP'' (Number NaN) monitor0)) = Some [Sample (Number NaN) 0]
   \<and> fst (logMetric ''toString'' (Number (Fin 1)) mobile0) = Some TypeError"
proof -
  have f: "\<not> truthy (props (metrics monitor0) monitor0 ''LCP'')" by (simp add: monitor0_facts)
  have g: "\<not> inherits (props (metrics monitor0) monitor0) ''LCP''"
    by (simp add: inherits_def proto_names_def)
  note s = reportMetric_fresh_series [OF monitor0_facts(1) f g, where v = "Number NaN"]
  have i: "inherits (props (metrics mobile0) mobile0) ''toString''"
    by (simp add: mobile0_facts inherits_def proto_names_def)
  note t = logMetric_inherited [OF i, of "Number (Fin 1)"]
  show ?thesis using s(3,4) t by (simp add: monitor0_facts date_now0)
qed

subsection \<open>measure\<close>

text \<open>
  C10, as the code has it. When \<open>fn\<close> returns normally and the measured duration is
  positive, \<^verbatim>\<open>measure(name, fn)\<close> returns the result of \<open>fn\<close>, no array of
  the heap has changed and none was created, so no sample was appended (the
  \<^verbatim>\<open>reportMetric\<close> inside fails and its error is caught). For every name
  but \<^verbatim>\<open>__proto__\<close> (and for that one too where the store has it as an own
  property) the property \<open>name\<close> of the store is the duration as a plain number,
  whatever it was before. The assignment to \<^verbatim>\<open>__proto__\<close> goes to the setter
  inherited from \<^verbatim>\<open>Object.prototype\<close>, which ignores a number: the store keeps
  the properties it had. \<^verbatim>\<open>measureAsync\<close> does the same.
\<close>

theorem measure_stores_duration:
  assumes "fn w = (Inr r, w1)" and "metrics_ok w1" and "0 < perf_now w1 - perf_now w"
  shows "fst (measure_fn name fn w) = Inr r
     \<and> metrics (snd (measure_fn name fn w)) = metrics w1
     \<and> (name \<noteq> ''__proto__'' \<or> props (metrics w1) w1 name \<noteq> None \<longrightarrow>
          props (metrics w1) (snd (measure_fn name fn w))
            = (props (metrics w1) w1)(name \<mapsto> PNum (Fin (perf_now w1 - perf_now w))))
     \<and> (name = ''__proto__'' \<and> props (metrics w1) w1 name = None \<longrightarrow>
          props (metrics w1) (snd (measure_fn name fn w)) = props (metrics w1) w1)
     \<and> (\<forall>a. array_at a (snd (measure_fn name fn w)) = array_at a w1)
     \<and> length (heap (snd (measure_fn name fn w))) = length (heap w1)
     \<and> measureAsync name fn w = measure_fn name fn w"
proof -
  have eq: "measureAsync name fn w = measure_fn name fn w"
    by (simp add: measureAsync_def measure_fn_def)
  show ?thesis
  proof (cases "name = ''__proto__'' \<and> props (metrics w1) w1 name = None")
    case True
    then have n: "name = ''__proto__''"
      and np: "props (metrics w1) w1 ''__proto__'' = None" by blast+
    have m: "measure_fn ''__proto__'' fn w
               = (Inr r, console_warn ''Failed to report metric:'' w1)"
      by (rule measure_proto [of fn w r w1, OF assms(1,2) np])
    have eq': "measureAsync ''__proto__'' fn w = measure_fn ''__proto__'' fn w"
      by (simp add: measureAsync_def measure_fn_def)
    show ?thesis unfolding n using np by (simp add: m eq')
  next
    case False
    then have np: "name \<noteq> ''__proto__'' \<or> props (metrics w1) w1 name \<noteq> None" by simp
    note sp = set_prop_ok [OF assms(2) np, where v = "PNum (Fin (perf_now w1 - perf_now w))"]
    have m: "measure_fn name fn w =
           (Inr r, console_warn ''Failed to report metric:''
                     (set_prop (metrics w1) name (PNum (Fin (perf_now w1 - perf_now w))) w1))"
      by (rule measure_scalar [of fn w r w1 name, OF assms np])
    show ?thesis using sp False by (auto simp add: m eq)
  qed
qed

theorem measure_stores_duration_witness:
  "fst (measure_fn ''render'' work recorded0) = Inr 42
   \<and> props 0 recorded0 ''render'' = Some (PRef 1)
   \<and> props 0 (snd (measure_fn ''render'' work recorded0)) ''render'' = Some (PNum (Fin 5))
   \<and> array_at 1 (snd (measure_fn ''render'' work recorded0)) = Some [Sample (Number (Fin 1)) 0]
   \<and> length (heap (snd (measure_fn ''render'' work recorded0))) = 2
   \<and> fst (measure_fn ''__proto__'' work monitor0) = Inr 42
   \<and> props 0 (snd (measure_fn ''__proto__'' work monitor0)) = Map.empty"
proof -
  have named: "fst (measure_fn ''render'' work recorded0) = Inr 42
     \<and> props 0 recorded0 ''render'' = Some (PRef 1)
     \<and> props 0 (snd (measure_fn ''render'' work recorded0)) ''render'' = Some (PNum (Fin 5))
     \<and> array_at 1 (snd (measure_fn ''render'' work recorded0)) = Some [Sample (Number (Fin 1)) 0]
     \<and> length (heap (snd (measure_fn ''render'' work recorded0))) = 2"
    using measure_stores_duration [of work recorded0 42
        "recorded0\<lparr>perf_now := perf_now recorded0 + 5\<rparr>" "''render''"]
    by (simp add: work_def recorded0_facts)
  have proto: "fst (measure_fn ''__proto__'' work monitor0) = Inr 42
     \<and> props 0 (snd (measure_fn ''__proto__'' work monitor0)) = Map.empty"
    using measure_stores_duration [of work monitor0 42
        "monitor0\<lparr>perf_now := perf_now monitor0 + 5\<rparr>" "''__proto__''"]
    by (simp add: work_def monitor0_facts)
  from named proto show ?thesis by simp
qed

text \<open>
  C10 as the specification states it fails for the name \<^verbatim>\<open>__proto__\<close>:
  \<^verbatim>\<open>measure("__proto__", fn)\<close> on a new monitor returns the result of \<open>fn\<close>
  and leaves the store without any property, however long \<open>fn\<close> took.
\<close>

theorem measure_proto_counterexample:
  "fst (measure_fn ''__proto__'' work monitor0) = Inr 42
   \<and> props 0 (snd (measure_fn ''__proto__'' work monitor0)) ''__proto__'' = None
   \<and> props 0 (snd (measure_fn ''__proto__'' work monitor0)) = Map.empty
   \<and> heap (snd (measure_fn ''__proto__'' work monitor0)) = heap monitor0"
proof -
  let ?w1 = "monitor0\<lparr>perf_now := perf_now monitor0 + 5\<rparr>"
  have np: "props (metrics ?w1) ?w1 ''__proto__'' = None" by (simp add: monitor0_facts)
  from measure_proto [of work monitor0 42 ?w1, OF work_monitor0(1,2) np] show ?thesis
    by (simp add: monitor0_facts)
qed

subsection \<open>Snapshots\<close>

text \<open>
  C4, as the code has it. \<^verbatim>\<open>getMetrics\<close> of PerformanceMonitor returns a new
  object with the properties of \<^verbatim>\<open>this.metrics\<close>, a shallow copy: assigning a
  property of the returned object does not change the store, and no later
  \<^verbatim>\<open>reportMetric\<close> adds or replaces a property of the returned object. The
  arrays are the store's own, so the series are not covered by this.
  \<^verbatim>\<open>getMetrics\<close> of MobilePerformanceMonitor returns \<^verbatim>\<open>this.metrics\<close>
  itself.
\<close>

theorem getMetrics_shallow_copy:
  "(metrics_ok w \<longrightarrow>
      fst (getMetrics w) = length (heap w)
      \<and> fst (getMetrics w) \<noteq> metrics w
      \<and> metrics (snd (getMetrics w)) = metrics w
      \<and> props (fst (getMetrics w)) (snd (getMetrics w)) = props (metrics w) w
      \<and> props (metrics w) (snd (getMetrics w)) = props (metrics w) w
      \<and> (\<forall>a. array_at a (snd (getMetrics w)) = array_at a w)
      \<and> (\<forall>k p. props (metrics w) (set_prop (fst (getMetrics w)) k p (snd (getMetrics w)))
                  = props (metrics w) w)
      \<and> (\<forall>name v. props (fst (getMetrics w)) (snd (reportMetric name v (snd (getMetrics w))))
                  = props (metrics w) w))
   \<and> Mobile_getMetrics m = metrics m"
proof (intro conjI impI allI)
  assume ok: "metrics_ok w"
  note g = getMetrics_copy [OF ok]
  from ok obtain ps where ps: "lookup (heap w) (metrics w) = Some (HObj ps)"
    using metrics_okE by blast
  then have lt: "metrics w < length (heap w)" by (rule lookup_lt)
  show "fst (getMetrics w) = length (heap w)" by (rule g)
  show "fst (getMetrics w) \<noteq> metrics w" by (rule g)
  show "metrics (snd (getMetrics w)) = metrics w" by (rule g)
  show "props (fst (getMetrics w)) (snd (getMetrics w)) = props (metrics w) w"
    using g(1,5) by simp
  show "props (metrics w) (snd (getMetrics w)) = props (metrics w) w" by (rule g)
  show "array_at a (snd (getMetrics w)) = array_at a w" for a by (rule g)
  show "props (metrics w) (set_prop (fst (getMetrics w)) k p (snd (getMetrics w)))
          = props (metrics w) w" for k p
    using lt ps
    by (auto simp add: g(1,4) set_prop_def props_def lookup_app lookup_upd split: pval.splits)
  show "props (fst (getMetrics w)) (snd (reportMetric name v (snd (getMetrics w))))
          = props (metrics w) w" for name v
  proof -
    let ?s = "length (heap w)" and ?w' = "snd (getMetrics w)"
    have b: "lookup (heap ?w') ?s = Some (HObj (props (metrics w) w))"
      by (simp add: g(4) lookup_app)
    have ne: "?s \<noteq> metrics ?w'" using lt g(3) by simp
    from reportMetric_keeps_object [OF b ne] show ?thesis
      by (simp add: g(1) props_def)
  qed
next
  show "Mobile_getMetrics m = metrics m" by (simp add: Mobile_getMetrics_def)
qed

theorem getMetrics_shallow_copy_witness:
  "fst (getMetrics recorded0) = 2
   \<and> metrics (snd (getMetrics recorded0)) = 0
   \<and> props 2 (snd (getMetrics recorded0)) = props 0 recorded0
   \<and> props 0 (set_prop 2 ''render'' (PNum (Fin 9)) (snd (getMetrics recorded0))) = props 0 recorded0
   \<and> props 2 (snd (reportMetric ''other'' (Number (Fin 3)) (snd (getMetrics recorded0))))
       = props 0 recorded0"
proof -
  have f: "fst (getMetrics recorded0) = 2" by (simp add: snapshot0_facts)
  show ?thesis
    using getMetrics_shallow_copy [of recorded0 mobile0] unfolding f
    by (simp add: recorded0_facts)
qed

text \<open>
  C4 as the specification states it fails: the snapshot of a store with one sample
  under \<^verbatim>\<open>"render"\<close> refers to the store's array, and after one more
  \<^verbatim>\<open>reportMetric\<close> the series read through that older snapshot has two samples.
\<close>

theorem getMetrics_shared_series_counterexample:
  "fst (getMetrics recorded0) = 2
   \<and> props 2 (snd (getMetrics recorded0)) ''render'' = Some (PRef 1)
   \<and> array_at 1 (snd (getMetrics recorded0)) = Some [Sample (Number (Fin 1)) 0]
   \<and> props 2 (snd (reportMetric ''render'' (Number (Fin 2)) (snd (getMetrics recorded0)))) ''render''
       = Some (PRef 1)
   \<and> array_at 1 (snd (reportMetric ''render'' (Number (Fin 2)) (snd (getMetrics recorded0))))
       = Some [Sample (Number (Fin 1)) 0, Sample (Number (Fin 2)) 0]"
proof -
  let ?w = "snd (getMetrics recorded0)"
  have p: "props (metrics ?w) ?w ''render'' = Some (PRef 1)" by (simp add: snapshot0_facts)
  have x: "array_at 1 ?w = Some [Sample (Number (Fin 1)) 0]" by (simp add: snapshot0_facts)
  note s = reportMetric_existing_series [OF p x snapshot0_facts(2), where v = "Number (Fin 2)"]
  have b: "lookup (heap ?w) 2 = Some (HObj [''render'' \<mapsto> PRef 1])"
    using getMetrics_copy(4) [OF recorded0_facts(1)]
    by (simp add: lookup_app recorded0_facts)
  have ne: "2 \<noteq> metrics ?w" by (simp add: snapshot0_facts)
  from reportMetric_keeps_object [OF b ne, of "''render''" "Number (Fin 2)"]
  have k: "props 2 (snd (reportMetric ''render'' (Number (Fin 2)) ?w)) = [''render'' \<mapsto> PRef 1]"
    by (simp add: props_def)
  show ?thesis using s(4) k by (simp add: snapshot0_facts)
qed

subsection \<open>Layout shifts\<close>

text \<open>
  C6. In both classes the running total \<^verbatim>\<open>clsValue\<close>, which starts at 0, is
  after any sequence of notifications the sum of the values of the entries not flagged
  \<^verbatim>\<open>hadRecentInput\<close>; an entry that is flagged leaves the total as it was (in
  PerformanceMonitor it leaves the whole state as it was), and one that is not flagged
  adds its value, which PerformanceMonitor also stores as \<^verbatim>\<open>this.metrics.cls\<close>.
\<close>

theorem cls_excludes_recent_input:
  "fst (cls_notifications ns 0 w)
     = sum_list (map shift_value (filter (\<lambda>e. \<not> hadRecentInput e) (concat ns)))
   \<and> fst (cls_callback entries c w)
       = c + sum_list (map shift_value (filter (\<lambda>e. \<not> hadRecentInput e) entries))
   \<and> (hadRecentInput e \<longrightarrow> cls_callback [e] c w = (c, w))
   \<and> (\<not> hadRecentInput e \<and> metrics_ok w \<longrightarrow>
        fst (cls_callback [e] c w) = c + shift_value e
        \<and> props (metrics w) (snd (cls_callback [e] c w)) ''cls''
            = Some (PNum (Fin (c + shift_value e))))
   \<and> fst (Mobile_cls_notifications ns 0 m)
       = sum_list (map shift_value (filter (\<lambda>e. \<not> hadRecentInput e) (concat ns)))
   \<and> fst (snd (Mobile_cls_callback entries c m))
       = c + sum_list (map shift_value (filter (\<lambda>e. \<not> hadRecentInput e) entries))
   \<and> (hadRecentInput e \<longrightarrow> fst (snd (Mobile_cls_callback [e] c m)) = c)"
  using cls_callback_store [of w e c]
  by (simp add: cls_notifications_total cls_callback_total Mobile_cls_notifications_total
        Mobile_cls_callback_total del: cls_callback.simps)
     (simp add: Let_def)

theorem cls_excludes_recent_input_witness:
  "fst (cls_notifications shifts0 0 monitor0) = 7 / 20
   \<and> fst (Mobile_cls_notifications shifts0 0 mobile0) = 7 / 20
   \<and> cls_callback [\<lparr>shift_value = 1 / 2, hadRecentInput = True\<rparr>] (1 / 10) monitor0
       = (1 / 10, monitor0)
   \<and> fst (snd (Mobile_cls_callback [\<lparr>shift_value = 1 / 2, hadRecentInput = True\<rparr>] (1 / 10) mobile0))
       = 1 / 10
   \<and> props 0 (snd (cls_callback [\<lparr>shift_value = 1 / 4, hadRecentInput = False\<rparr>] (1 / 10) monitor0)) ''cls''
       = Some (PNum (Fin (7 / 20)))"
  using cls_excludes_recent_input [of shifts0 monitor0 "[]" "1 / 10"
          "\<lparr>shift_value = 1 / 2, hadRecentInput = True\<rparr>" mobile0]
    cls_excludes_recent_input [of shifts0 monitor0 "[]" "1 / 10"
          "\<lparr>shift_value = 1 / 4, hadRecentInput = False\<rparr>" mobile0]
  by (simp add: shifts0_def monitor0_facts del: cls_callback.simps cls_notifications.simps
        Mobile_cls_notifications.simps)

subsection \<open>init twice\<close>

text \<open>
  C7, as the code has it. \<^verbatim>\<open>init()\<close> of PerformanceMonitor is idempotent: on
  an initialized monitor it changes nothing, and a second call after any first call
  changes nothing. \<^verbatim>\<open>init()\<close> of MobilePerformanceMonitor has no guard: where
  the host has \<^verbatim>\<open>PerformanceObserver\<close>, every call creates and subscribes three
  more observers.
\<close>

theorem init_idempotent_desktop_only:
  "init (snd (init w)) = (None, snd (init w))
   \<and> (isInitialized w \<longrightarrow> init w = (None, w))
   \<and> (has_PerformanceObserver m \<and> (\<forall>t. \<not> observe_throws m t) \<longrightarrow>
        observers (snd (Mobile_init m))
          = observers m @ [next_handle m, next_handle m + 1, next_handle m + 2]
        \<and> map snd (subscriptions (snd (Mobile_init m)))
          = map snd (subscriptions m)
              @ [''largest-contentful-paint'', ''first-input'', ''layout-shift''])"
  using Mobile_init_observers [of m] by (simp add: init_twice init_running)

theorem init_idempotent_desktop_only_witness:
  "isInitialized (snd (init monitor1))
   \<and> init (snd (init monitor1)) = (None, snd (init monitor1))
   \<and> observers mobile1 = [1, 2, 3]
   \<and> observers (snd (Mobile_init mobile1)) = [1, 2, 3, 5, 6, 7]"
  using init_idempotent_desktop_only [of "snd (init monitor1)" mobile1]
    init_idempotent_desktop_only [of monitor1 mobile1]
  by (simp add: init_isInitialized mobile1_eq Mobile_fields_facts observer_host_fields)

text \<open>
  C7 as the specification states it fails for MobilePerformanceMonitor: a second
  \<^verbatim>\<open>init()\<close> after the constructor's adds three observers and one interval
  timer.
\<close>

theorem Mobile_init_counterexample:
  "observers mobile1 = [1, 2, 3]
   \<and> observers (snd (Mobile_init mobile1)) = [1, 2, 3, 5, 6, 7]
   \<and> intervals mobile1 = [(4, 30000)]
   \<and> intervals (snd (Mobile_init mobile1)) = [(4, 30000), (8, 30000)]"
  by (simp add: mobile1_again) (simp add: mobile1_eq)

subsection \<open>destroy twice\<close>

text \<open>
  C8. In both classes a second \<^verbatim>\<open>destroy()\<close> right after the first throws
  nothing and leaves what the first one left: an empty store, no observers, no cleanup
  functions, the same interval handles (cleared, when the handle was not 0), and the
  same subscriptions, timers and listeners on the host.
\<close>

theorem destroy_idempotent:
  "(let d1 = snd (destroy w); d2 = snd (destroy d1)
    in fst (destroy w) = None \<and> fst (destroy d1) = None
       \<and> props (metrics d1) d1 = Map.empty \<and> props (metrics d2) d2 = Map.empty
       \<and> observers d1 = [] \<and> observers d2 = []
       \<and> cleanupFunctions d1 = [] \<and> cleanupFunctions d2 = []
       \<and> \<not> isInitialized d1 \<and> \<not> isInitialized d2
       \<and> memoryCheckInterval d2 = memoryCheckInterval d1
       \<and> frameRateMonitor d2 = frameRateMonitor d1
       \<and> intervals d2 = intervals d1
       \<and> subscriptions d2 = subscriptions d1
       \<and> listeners d2 = listeners d1
       \<and> performWork_patched d2 = performWork_patched d1
       \<and> (memoryCheckInterval w \<noteq> Some 0 \<longrightarrow> memoryCheckInterval d1 = None))
   \<and> (let d1 = snd (Mobile_destroy m); d2 = snd (Mobile_destroy d1)
      in fst (Mobile_destroy m) = None \<and> fst (Mobile_destroy d1) = None
         \<and> props (metrics d1) d1 = Map.empty \<and> props (metrics d2) d2 = Map.empty
         \<and> observers d1 = [] \<and> observers d2 = []
         \<and> cleanupFunctions d1 = [] \<and> cleanupFunctions d2 = []
         \<and> memoryCheckInterval d2 = memoryCheckInterval d1
         \<and> batteryCheckInterval d2 = batteryCheckInterval d1
         \<and> intersectionObserver d2 = intersectionObserver d1
         \<and> intervals d2 = intervals d1
         \<and> subscriptions d2 = subscriptions d1
         \<and> listeners d2 = listeners d1
         \<and> (memoryCheckInterval m \<noteq> Some 0 \<longrightarrow> memoryCheckInterval d1 = None))"
proof -
  note a = destroy_released [of w]
  note b = destroy_of_released [OF a(1,2,3,4)]
  note c = Mobile_destroy_released [of m]
  have k: "\<And>h. intersectionObserver (snd (Mobile_destroy m)) = Some h \<Longrightarrow>
           disconnect_throws (snd (Mobile_destroy m)) h
           \<or> filter (\<lambda>(i, t). i \<noteq> h) (subscriptions (snd (Mobile_destroy m)))
                = subscriptions (snd (Mobile_destroy m))"
    using c(3,4) by simp
  note d = Mobile_destroy_of_released [OF Mobile_destroy_store(3,4) c(1,2) k]
  have i: "intersectionObserver (snd (Mobile_destroy (snd (Mobile_destroy m))))
             = intersectionObserver (snd (Mobile_destroy m))"
    by (rule Mobile_destroy_released(3))
  show ?thesis
    unfolding Let_def
    using a(5) b c(5) d i
    by (simp add: destroy_store destroy_props Mobile_destroy_store Mobile_destroy_props)
qed

theorem destroy_idempotent_witness:
  "memoryCheckInterval (snd (init monitor1)) = Some 7
   \<and> memoryCheckInterval (snd (destroy (snd (init monitor1)))) = None
   \<and> memoryCheckInterval (snd (destroy (snd (destroy (snd (init monitor1)))))) = None
   \<and> observers (snd (destroy (snd (destroy (snd (init monitor1)))))) = []
   \<and> memoryCheckInterval mobile1 = Some 4
   \<and> memoryCheckInterval (snd (Mobile_destroy mobile1)) = None
   \<and> memoryCheckInterval (snd (Mobile_destroy (snd (Mobile_destroy mobile1)))) = None
   \<and> observers (snd (Mobile_destroy (snd (Mobile_destroy mobile1)))) = []"
proof -
  have i: "memoryCheckInterval (snd (init monitor1)) = Some 7"
    unfolding monitor1_def
    by (subst init_memoryCheckInterval)
       (simp_all add: new_PerformanceMonitor_facts observer_host_fields)
  have m: "memoryCheckInterval mobile1 = Some 4" by (simp add: mobile1_eq)
  show ?thesis
    using destroy_idempotent [of "snd (init monitor1)" mobile1] i m
    by (simp add: Let_def)
qed

subsection \<open>The reporter\<close>

text \<open>
  C9. \<^verbatim>\<open>sendToAnalytics\<close> never rejects and never touches the heap or
  \<^verbatim>\<open>this.metrics\<close>, whatever the fetch does, and writes at most one warning. A
  fetch that resolves within 5000 ms (with any status) ends the delivery without a
  warning; one that rejects within 5000 ms is swallowed, with one warning unless it is
  an \<^verbatim>\<open>AbortError\<close>, the 5000 ms timer still pending; one that has not settled
  after 5000 ms is aborted and swallowed without a warning. So \<^verbatim>\<open>reportMetric\<close>
  never throws and leaves the same store whatever the fetch does.
\<close>

theorem sendToAnalytics_swallows:
  "fst (sendToAnalytics name v w) = None
   \<and> heap (snd (sendToAnalytics name v w)) = heap w
   \<and> metrics (snd (sendToAnalytics name v w)) = metrics w
   \<and> (console (snd (sendToAnalytics name v w)) = console w
       \<or> console (snd (sendToAnalytics name v w))
            = console w @ [ConsoleWarn ''Failed to send performance data:''])
   \<and> (fetch_behaviour w = Resolves t s \<and> t < 5000 \<longrightarrow>
        fst (sendToAnalytics_try name v w) = None
        \<and> console (snd (sendToAnalytics name v w)) = console w)
   \<and> (fetch_behaviour w = Rejects t e \<and> t < 5000 \<longrightarrow>
        fst (sendToAnalytics_try name v w) = Some e
        \<and> timeouts (snd (sendToAnalytics name v w)) = timeouts w @ [(next_handle w, 5000)]
        \<and> console (snd (sendToAnalytics name v w))
            = (if e = AbortError then console w
               else console w @ [ConsoleWarn ''Failed to send performance data:'']))
   \<and> (fetch_behaviour w = NeverSettles \<or> fetch_behaviour w = Resolves t s \<and> 5000 \<le> t
        \<or> fetch_behaviour w = Rejects t e \<and> 5000 \<le> t \<longrightarrow>
        fst (sendToAnalytics_try name v w) = Some AbortError
        \<and> console (snd (sendToAnalytics name v w)) = console w)
   \<and> fst (reportMetric name v m) = None
   \<and> heap (snd (reportMetric name v (m\<lparr>fetch_behaviour := f\<rparr>))) = heap (snd (reportMetric name v m))
   \<and> metrics (snd (reportMetric name v (m\<lparr>fetch_behaviour := f\<rparr>)))
       = metrics (snd (reportMetric name v m))"
  using sendToAnalytics_timeouts [of w t e name v] reportMetric_heap_fetch [where name = name and v = v and w = m and f = f]
  by (auto simp add: sendToAnalytics_console sendToAnalytics_try_result
        reportMetric_returns sendToAnalytics_returns
      split: fetch_outcome.splits)

theorem sendToAnalytics_swallows_witness:
  "console (snd (sendToAnalytics ''LCP'' (Number (Fin 1)) (monitor0\<lparr>fetch_behaviour := Resolves 120 500\<rparr>))) = []
   \<and> console (snd (sendToAnalytics ''LCP'' (Number (Fin 1)) (monitor0\<lparr>fetch_behaviour := Rejects 80 TypeError\<rparr>)))
       = [ConsoleWarn ''Failed to send performance data:'']
   \<and> timeouts (snd (sendToAnalytics ''LCP'' (Number (Fin 1)) (monitor0\<lparr>fetch_behaviour := Rejects 80 TypeError\<rparr>)))
       = [(1, 5000)]
   \<and> fst (sendToAnalytics_try ''LCP'' (Number (Fin 1)) (monitor0\<lparr>fetch_behaviour := NeverSettles\<rparr>))
       = Some AbortError
   \<and> fst (sendToAnalytics ''LCP'' (Number (Fin 1)) (monitor0\<lparr>fetch_behaviour := NeverSettles\<rparr>)) = None
   \<and> console (snd (sendToAnalytics ''LCP'' (Number (Fin 1)) (monitor0\<lparr>fetch_behaviour := NeverSettles\<rparr>))) = []"
  using sendToAnalytics_swallows [where name = "''LCP''" and v = "Number (Fin 1)"
          and w = "monitor0\<lparr>fetch_behaviour := Resolves 120 500\<rparr>"
          and t = 120 and s = 500 and e = TypeError and m = monitor0 and f = NeverSettles]
    sendToAnalytics_swallows [where name = "''LCP''" and v = "Number (Fin 1)"
          and w = "monitor0\<lparr>fetch_behaviour := Rejects 80 TypeError\<rparr>"
          and t = 80 and s = 500 and e = TypeError and m = monitor0 and f = NeverSettles]
    sendToAnalytics_swallows [where name = "''LCP''" and v = "Number (Fin 1)"
          and w = "monitor0\<lparr>fetch_behaviour := NeverSettles\<rparr>"
          and t = 80 and s = 500 and e = TypeError and m = monitor0 and f = NeverSettles]
  by (simp add: monitor0_host)

end
